(* ===== verification/Prelude.thy ===== *)
theory Prelude
  imports Main "HOL-Library.Char_ord" "HOL-Library.List_Lexorder"
begin

text \<open>
  What every component shares: the error values the code raises, the result type and its
  sequencing, lists of ordered checks (a \<open>__post_init__\<close> body), and the list and dictionary
  idioms of the source (\<open>dict.fromkeys\<close>, \<open>{key(x): x for x in xs}\<close>,
  \<open>setdefault(k, []).append(x)\<close>) with the lemmas the component proofs use.
\<close>

named_theorems result_simps "sequencing of results and ordered checks"

section \<open>Errors and results\<close>

datatype error =
    ValueError string
  | TypeError string
  | KeyError string
  | IndexError string
  | ValidationError string
  | StateTransitionError string
  | IntegrityError string
  | NotFoundError string
  | PersistenceConflictError string
  | IdempotencyConflictError string
  | TransactionLimitExceededError string
  | SendAuthorizationInProgressError string
  | CrossCaseViolationError string
  | UnauditedMutationError string
  | ModelLimitExceededError string
  | InvalidCursorError string
  | ExternalDependencyError string
  | UnknownTransactionOutcomeError string
  | AssertionError string

type_synonym 'a result = "error + 'a"

fun bindE :: "'e + 'a \<Rightarrow> ('a \<Rightarrow> 'e + 'b) \<Rightarrow> 'e + 'b" where
  "bindE (Inl e) f = Inl e"
| "bindE (Inr x) f = f x"

fun returns :: "'e + 'a \<Rightarrow> bool" where
  "returns (Inl _) = False"
| "returns (Inr _) = True"

lemma returns_projr: "returns r \<Longrightarrow> r = Inr (projr r)"
  by (cases r) auto

lemma returns_iff: "returns r \<longleftrightarrow> (\<exists>x. r = Inr x)"
  by (cases r) auto

lemma returns_validated [result_simps]: "returns (bindE m (\<lambda>_. Inr x)) \<longleftrightarrow> returns m"
  by (cases m) auto

lemma bindE_Inr_iff [result_simps]: "bindE m f = Inr y \<longleftrightarrow> (\<exists>x. m = Inr x \<and> f x = Inr y)"
  by (cases m) auto

lemma bindE_Inl_iff [result_simps]:
  "bindE m f = Inl e \<longleftrightarrow> m = Inl e \<or> (\<exists>x. m = Inr x \<and> f x = Inl e)"
  by (cases m) auto

lemma bindE_assoc: "bindE (bindE m f) g = bindE m (\<lambda>x. bindE (f x) g)"
  by (cases m) auto

text \<open>
  A sequence of guarded raises: the first pair whose condition holds is the error raised. It is
  how a dataclass validator runs.
\<close>

fun checks :: "(bool \<times> error) list \<Rightarrow> unit result" where
  "checks [] = Inr ()"
| "checks ((bad, e) # cs) = (if bad then Inl e else checks cs)"

lemma checks_Inr_iff [result_simps]: "checks cs = Inr u \<longleftrightarrow> list_all (\<lambda>c. \<not> fst c) cs"
  by (induction cs rule: checks.induct) auto

lemma checks_Inl_mem: "checks cs = Inl e \<Longrightarrow> (True, e) \<in> set cs"
  by (induction cs rule: checks.induct) (auto split: if_splits)

lemma checks_append: "checks (cs @ ds) = bindE (checks cs) (\<lambda>_. checks ds)"
  by (induction cs rule: checks.induct) auto

declare checks.simps [simp del]

definition validated :: "('a \<Rightarrow> unit result) \<Rightarrow> 'a \<Rightarrow> 'a result" where
  "validated post_init x = bindE (post_init x) (\<lambda>_. Inr x)"

lemma validated_Inr_iff [result_simps]:
  "validated p x = Inr y \<longleftrightarrow> p x = Inr () \<and> y = x"
  by (auto simp: validated_def result_simps)

lemma validated_Inl_iff [result_simps]: "validated p x = Inl e \<longleftrightarrow> p x = Inl e"
  by (auto simp: validated_def result_simps)

fun map_result :: "('a \<Rightarrow> 'e + 'b) \<Rightarrow> 'a list \<Rightarrow> 'e + 'b list" where
  "map_result f [] = Inr []"
| "map_result f (x # xs) =
     (case f x of Inl e \<Rightarrow> Inl e
      | Inr y \<Rightarrow> (case map_result f xs of Inl e \<Rightarrow> Inl e | Inr ys \<Rightarrow> Inr (y # ys)))"

lemma map_result_Inr_iff:
  "map_result f xs = Inr ys \<longleftrightarrow> list_all2 (\<lambda>x y. f x = Inr y) xs ys"
proof (induction xs arbitrary: ys)
  case Nil
  then show ?case by (cases ys) auto
next
  case (Cons x xs)
  show ?case
  proof (cases "f x")
    case (Inr y)
    then show ?thesis
      using Cons.IH by (cases "map_result f xs") (auto simp: list_all2_Cons1)
  qed (auto simp: list_all2_Cons1)
qed

lemma map_result_Inl: "map_result f xs = Inl e \<Longrightarrow> \<exists>x\<in>set xs. f x = Inl e"
  by (induction xs) (auto split: sum.splits)

section \<open>List and dictionary idioms\<close>

text \<open>\<open>tuple(dict.fromkeys(xs))\<close>: the distinct elements, each at its first occurrence.\<close>

fun fromkeys :: "'a list \<Rightarrow> 'a list" where
  "fromkeys [] = []"
| "fromkeys (x # xs) = x # filter (\<lambda>y. y \<noteq> x) (fromkeys xs)"

lemma set_fromkeys [simp]: "set (fromkeys xs) = set xs"
  by (induction xs) auto

lemma distinct_fromkeys [simp]: "distinct (fromkeys xs)"
  by (induction xs) auto

lemma fromkeys_distinct: "distinct xs \<Longrightarrow> fromkeys xs = xs"
proof (induction xs)
  case (Cons x xs)
  then have "filter (\<lambda>y. y \<noteq> x) xs = xs" by (auto simp: filter_id_conv)
  with Cons show ?case by simp
qed simp

lemma fromkeys_Nil_iff [simp]: "fromkeys xs = [] \<longleftrightarrow> xs = []"
  by (cases xs) auto

text \<open>\<open>{key(x): x for x in xs}\<close>: a later element wins over an earlier one with its key.\<close>

definition index_by :: "('a \<Rightarrow> 'k) \<Rightarrow> 'a list \<Rightarrow> ('k \<rightharpoonup> 'a)" where
  "index_by key xs = map_of (rev (map (\<lambda>x. (key x, x)) xs))"

lemma index_by_SomeD: "index_by key xs k = Some x \<Longrightarrow> x \<in> set xs \<and> key x = k"
  by (auto simp: index_by_def dest!: map_of_SomeD)

lemma index_by_None_iff: "index_by key xs k = None \<longleftrightarrow> k \<notin> key ` set xs"
  by (auto simp: index_by_def map_of_eq_None_iff image_image)

lemma index_by_Some_iff:
  assumes "distinct (map key xs)"
  shows "index_by key xs k = Some x \<longleftrightarrow> x \<in> set xs \<and> key x = k"
proof -
  have d: "distinct (map fst (rev (map (\<lambda>x. (key x, x)) xs)))"
    using assms by (simp add: rev_map [symmetric] comp_def)
  show ?thesis
    unfolding index_by_def using d by (auto simp: map_of_eq_Some_iff)
qed

lemma dom_index_by [simp]: "dom (index_by key xs) = key ` set xs"
  using index_by_None_iff [of key xs] by (auto simp: dom_def)

lemma inj_on_distinct_key: "distinct (map key xs) \<Longrightarrow> x \<in> set xs \<Longrightarrow> y \<in> set xs \<Longrightarrow> key x = key y \<Longrightarrow> x = y"
  by (auto simp: distinct_map inj_on_def)

text \<open>\<open>groups.setdefault(k, []).append(x)\<close> on an insertion-ordered dictionary.\<close>

fun group_add :: "'k \<Rightarrow> 'v \<Rightarrow> ('k \<times> 'v list) list \<Rightarrow> ('k \<times> 'v list) list" where
  "group_add k v [] = [(k, [v])]"
| "group_add k v ((k', vs) # gs) =
     (if k = k' then (k', vs @ [v]) # gs else (k', vs) # group_add k v gs)"

definition group_all :: "('a \<Rightarrow> 'k) \<Rightarrow> ('a \<Rightarrow> 'v) \<Rightarrow> 'a list \<Rightarrow> ('k \<times> 'v list) list" where
  "group_all key val xs = fold (\<lambda>x gs. group_add (key x) (val x) gs) xs []"

lemma keys_group_add: "fst ` set (group_add k v gs) = insert k (fst ` set gs)"
  by (induction k v gs rule: group_add.induct) auto

lemma distinct_group_add: "distinct (map fst gs) \<Longrightarrow> distinct (map fst (group_add k v gs))"
proof (induction k v gs rule: group_add.induct)
  case (2 k v k' vs gs)
  then show ?case using keys_group_add [of k v gs] by (auto simp flip: set_map)
qed simp

lemma map_of_group_add:
  "map_of (group_add k v gs) j =
     (if j = k then Some (case map_of gs k of None \<Rightarrow> [v] | Some vs \<Rightarrow> vs @ [v]) else map_of gs j)"
  by (induction k v gs rule: group_add.induct) auto

lemma fold_group_add:
  "distinct (map fst gs) \<Longrightarrow>
     distinct (map fst (fold (\<lambda>x gs. group_add (key x) (val x) gs) xs gs)) \<and>
     map_of (fold (\<lambda>x gs. group_add (key x) (val x) gs) xs gs) k =
       (let vs = map val (filter (\<lambda>x. key x = k) xs) in
        case map_of gs k of None \<Rightarrow> (if vs = [] then None else Some vs) | Some us \<Rightarrow> Some (us @ vs))"
proof (induction xs arbitrary: gs)
  case Nil
  then show ?case by (auto simp: Let_def split: option.splits)
next
  case (Cons x xs)
  show ?case
    using Cons.IH [OF distinct_group_add [OF Cons.prems, of "key x" "val x"]]
    by (auto simp: map_of_group_add Let_def split: option.splits)
qed

lemma distinct_group_all: "distinct (map fst (group_all key val xs))"
  using fold_group_add [of "[]" key val xs] by (simp add: group_all_def)

lemma map_of_group_all:
  "map_of (group_all key val xs) k =
     (let vs = map val (filter (\<lambda>x. key x = k) xs) in if vs = [] then None else Some vs)"
  using fold_group_add [of "[]" key val xs] by (simp add: group_all_def)

lemma group_all_mem_iff:
  "(k, vs) \<in> set (group_all key val xs) \<longleftrightarrow> vs = map val (filter (\<lambda>x. key x = k) xs) \<and> vs \<noteq> []"
proof -
  have "(k, vs) \<in> set (group_all key val xs) \<longleftrightarrow> map_of (group_all key val xs) k = Some vs"
    using distinct_group_all by (metis map_of_eq_Some_iff)
  then show ?thesis by (auto simp: map_of_group_all Let_def)
qed

section \<open>Sorting by a key\<close>

lemma set_sort_key_filter: "set (sort_key f (filter P xs)) = {x \<in> set xs. P x}"
  by simp

lemma distinct_map_sort_key [simp]: "distinct (map f (sort_key g xs)) \<longleftrightarrow> distinct (map f xs)"
  by (metis distinct_map distinct_sort set_sort)

lemma find_SomeD: "List.find P xs = Some x \<Longrightarrow> x \<in> set xs \<and> P x"
  by (induction xs) (auto split: if_splits)

lemma find_append:
  "List.find P (xs @ ys) = (case List.find P xs of Some x \<Rightarrow> Some x | None \<Rightarrow> List.find P ys)"
  by (induction xs) auto

lemma find_map: "List.find P (map f xs) = map_option f (List.find (\<lambda>x. P (f x)) xs)"
  by (induction xs) auto

end
