(* ===== verification/Versioned.thy ===== *)
theory Versioned
  imports Prelude
begin

text \<open>
  The contract the three lifecycle services of \<open>src/chorus/domain/state.py\<close> share. A command
  names the version it expects and the state it aims at; a successful step was taken on exactly
  that version, along an edge of a closed table, and moves the version by one. The lemmas are the
  optimistic-concurrency facts its callers rely on: a command applied twice is refused the second
  time, of two commands built on one version at most one takes effect, and a run of \<open>n\<close> commands
  moves the version by \<open>n\<close> along a path of the table.
\<close>

fun run :: "('s \<Rightarrow> 'c \<Rightarrow> 's result) \<Rightarrow> 's \<Rightarrow> 'c list \<Rightarrow> 's result" where
  "run step s [] = Inr s"
| "run step s (c # cs) = bindE (step s c) (\<lambda>t. run step t cs)"

lemma run_append: "run step s (cs @ ds) = bindE (run step s cs) (\<lambda>t. run step t ds)"
  by (induction cs arbitrary: s) (auto simp: bindE_assoc)

lemma run_snoc_Inr_iff:
  "run step s (cs @ [c]) = Inr u \<longleftrightarrow> (\<exists>t. run step s cs = Inr t \<and> step t c = Inr u)"
  by (auto simp: run_append result_simps)

text \<open>What each step keeps, a run keeps.\<close>

lemma run_invariant:
  assumes "\<And>s c t. I s \<Longrightarrow> step s c = Inr t \<Longrightarrow> I t"
  shows "I s \<Longrightarrow> run step s cs = Inr t \<Longrightarrow> I t"
  by (induction cs arbitrary: s) (auto simp: result_simps dest: assms)

locale versioned =
  fixes step :: "'s \<Rightarrow> 'c \<Rightarrow> 's result"
    and version :: "'s \<Rightarrow> int"
    and state :: "'s \<Rightarrow> 'q"
    and expected :: "'c \<Rightarrow> int"
    and target :: "'c \<Rightarrow> 'q"
    and edge :: "'q \<Rightarrow> 'q \<Rightarrow> bool"
  assumes step_expected: "step s c = Inr t \<Longrightarrow> version s = expected c"
    and step_version: "step s c = Inr t \<Longrightarrow> version t = version s + 1"
    and step_target: "step s c = Inr t \<Longrightarrow> state t = target c"
    and step_edge: "step s c = Inr t \<Longrightarrow> edge (state s) (state t)"
begin

lemma stale_refused: "expected c \<noteq> version s \<Longrightarrow> \<exists>e. step s c = Inl e"
  by (cases "step s c") (auto dest: step_expected)

text \<open>Two writers that read one version: after the first wins, the second is refused.\<close>

lemma one_winner:
  assumes "step s c = Inr t" "expected d = expected c"
  shows "\<exists>e. step t d = Inl e"
  by (rule stale_refused) (use assms step_expected step_version in fastforce)

lemma replay_refused: "step s c = Inr t \<Longrightarrow> \<exists>e. step t c = Inl e"
  by (rule one_winner) simp_all

lemma run_version: "run step s cs = Inr t \<Longrightarrow> version t = version s + int (length cs)"
  by (induction cs arbitrary: s) (auto simp: result_simps dest: step_version)

lemma run_path: "run step s cs = Inr t \<Longrightarrow> edge\<^sup>*\<^sup>* (state s) (state t)"
  by (induction cs arbitrary: s)
    (auto simp: result_simps intro: converse_rtranclp_into_rtranclp dest: step_edge)

lemma run_target:
  assumes "run step s cs = Inr t" "cs \<noteq> []"
  shows "state t = target (last cs)"
proof -
  have "cs = butlast cs @ [last cs]" using assms(2) by simp
  with assms(1) show ?thesis using step_target by (metis run_snoc_Inr_iff)
qed

text \<open>A state with no outgoing edge ends every run.\<close>

lemma terminal_run: "(\<And>q. \<not> edge (state s) q) \<Longrightarrow> run step s cs = Inr t \<Longrightarrow> cs = [] \<and> t = s"
  by (cases cs) (auto simp: result_simps dest: step_edge)

text \<open>
  A rank that never falls along an edge, and rises on entering \<open>q\<close>, lets a run enter \<open>q\<close> at
  most once.
\<close>

lemma enters_once:
  fixes rank :: "'q \<Rightarrow> nat"
  assumes mono: "\<And>a b. edge a b \<Longrightarrow> rank a \<le> rank b"
    and strict: "\<And>a. edge a q \<Longrightarrow> rank a < rank q"
  shows "run step s cs = Inr t \<Longrightarrow> length (filter (\<lambda>c. target c = q) cs) \<le> (if rank (state s) < rank q then 1 else 0)"
proof (induction cs arbitrary: s)
  case (Cons c cs)
  then obtain u where u: "step s c = Inr u" "run step u cs = Inr t" by (auto simp: result_simps)
  have e: "edge (state s) (state u)" and st: "state u = target c"
    using u(1) by (rule step_edge, rule step_target)
  show ?case
  proof (cases "target c = q")
    case True
    with e st strict have "rank (state s) < rank q" "rank (state u) = rank q" by auto
    with True Cons.IH [OF u(2)] show ?thesis by simp
  next
    case False
    with mono [OF e] Cons.IH [OF u(2)] show ?thesis by (auto split: if_splits)
  qed
qed simp

end

end
