(* ===== verification/Regex.thy ===== *)
theory Regex
  imports Prelude
begin

text \<open>
  The fragment of Python's \<open>re\<close> the source uses, over ASCII text: character classes,
  sequences, alternatives, repetition, the anchors \<open>^\<close> and \<open>$\<close> and the word boundary
  \<open>\b\<close>, with \<open>search\<close> and \<open>fullmatch\<close>. A position is the character before it (none at
  the start) and the text after it; \<open>re_ends\<close> lists every position at which a match that
  starts at a position can end, so the order of alternatives and greediness, which only decide
  which match is returned, play no part in whether there is one.
\<close>

section \<open>Character classes\<close>

definition code :: "char \<Rightarrow> nat" where
  "code c = of_char c"

definition in_range :: "char \<Rightarrow> char \<Rightarrow> char \<Rightarrow> bool" where
  "in_range lo hi c \<longleftrightarrow> lo \<le> c \<and> c \<le> hi"

definition is_upper :: "char \<Rightarrow> bool" where
  "is_upper c \<longleftrightarrow> in_range CHR ''A'' CHR ''Z'' c"

definition is_lower :: "char \<Rightarrow> bool" where
  "is_lower c \<longleftrightarrow> in_range CHR ''a'' CHR ''z'' c"

definition is_digit :: "char \<Rightarrow> bool" where
  "is_digit c \<longleftrightarrow> in_range CHR ''0'' CHR ''9'' c"

definition is_word :: "char \<Rightarrow> bool" where
  "is_word c \<longleftrightarrow> is_upper c \<or> is_lower c \<or> is_digit c \<or> c = CHR ''_''"

definition is_space :: "char \<Rightarrow> bool" where
  "is_space c \<longleftrightarrow> c = CHR '' '' \<or> (9 \<le> code c \<and> code c \<le> 13) \<or> (28 \<le> code c \<and> code c \<le> 31)"

text \<open>ASCII case folding: \<open>str.lower\<close>, \<open>str.upper\<close>.\<close>

definition to_lower :: "char \<Rightarrow> char" where
  "to_lower c = (if is_upper c then char_of (code c + 32) else c)"

definition to_upper :: "char \<Rightarrow> char" where
  "to_upper c = (if is_lower c then char_of (code c - 32) else c)"

section \<open>Expressions and matching\<close>

datatype re =
    Eps
  | Cls "char \<Rightarrow> bool"
  | Cat re re
  | Alt re re
  | Star re
  | WordBoundary
  | AtStart
  | AtEnd

type_synonym pos = "char option \<times> string"

definition boundary :: "pos \<Rightarrow> bool" where
  "boundary p \<longleftrightarrow>
     (case fst p of None \<Rightarrow> False | Some c \<Rightarrow> is_word c) \<noteq>
     (case snd p of [] \<Rightarrow> False | c # _ \<Rightarrow> is_word c)"

text \<open>\<open>$\<close> also matches before a final newline.\<close>

definition at_end :: "string \<Rightarrow> bool" where
  "at_end s \<longleftrightarrow> s = [] \<or> s = [CHR 0x0A]"

function (sequential) re_ends :: "re \<Rightarrow> pos \<Rightarrow> pos list" where
  "re_ends Eps p = [p]"
| "re_ends (Cls P) p =
     (case snd p of [] \<Rightarrow> [] | c # s \<Rightarrow> (if P c then [(Some c, s)] else []))"
| "re_ends (Cat r q) p =
     concat (map (\<lambda>p'. if length (snd p') \<le> length (snd p) then re_ends q p' else []) (re_ends r p))"
| "re_ends (Alt r q) p = re_ends r p @ re_ends q p"
| "re_ends (Star r) p =
     p # concat (map (\<lambda>p'. if length (snd p') < length (snd p) then re_ends (Star r) p' else [])
                  (re_ends r p))"
| "re_ends WordBoundary p = (if boundary p then [p] else [])"
| "re_ends AtStart p = (if fst p = None then [p] else [])"
| "re_ends AtEnd p = (if at_end (snd p) then [p] else [])"
  by pat_completeness auto
termination
  by (relation "measures [\<lambda>(r, p). length (snd p), \<lambda>(r, p). size r]") auto

declare re_ends.simps(5) [simp del]

text \<open>A match never moves backwards, so the two guards of \<open>re_ends\<close> only help termination.\<close>

lemma re_ends_length: "p' \<in> set (re_ends r p) \<Longrightarrow> length (snd p') \<le> length (snd p)"
proof (induction r p arbitrary: p' rule: re_ends.induct)
  case (3 r q p)
  from "3.prems" obtain x where "x \<in> set (re_ends r p)" "length (snd x) \<le> length (snd p)"
    "p' \<in> set (re_ends q x)" by (auto split: if_splits)
  then show ?case using "3.IH"(2) [of x p'] by simp
next
  case (5 r p)
  from "5.prems" consider "p' = p"
    | x where "x \<in> set (re_ends r p)" "length (snd x) < length (snd p)" "p' \<in> set (re_ends (Star r) x)"
    by (subst (asm) re_ends.simps(5)) (auto split: if_splits)
  then show ?case
  proof cases
    case 2
    then show ?thesis using "5.IH"(2) [of x p'] by simp
  qed simp
qed (auto split: list.splits if_splits)

text \<open>
  Equations for evaluation: without the guard of a sequence, and with the repetition of a character
  class read character by character.
\<close>

lemma re_ends_Cat: "re_ends (Cat r q) p = concat (map (re_ends q) (re_ends r p))"
proof -
  have "map (\<lambda>p'. if length (snd p') \<le> length (snd p) then re_ends q p' else []) (re_ends r p) = map (re_ends q) (re_ends r p)"
    by (rule map_cong) (simp_all add: re_ends_length)
  then show ?thesis by (simp only: re_ends.simps(3))
qed

lemma re_ends_Star_Cls:
  "re_ends (Star (Cls P)) p =
     p # (case snd p of [] \<Rightarrow> [] | c # s \<Rightarrow> if P c then re_ends (Star (Cls P)) (Some c, s) else [])"
  by (subst re_ends.simps(5)) (auto split: list.splits)

lemma re_ends_code [code]:
  "re_ends Eps p = [p]"
  "re_ends (Cls P) p = (case snd p of [] \<Rightarrow> [] | c # s \<Rightarrow> (if P c then [(Some c, s)] else []))"
  "re_ends (Cat r q) p = concat (map (re_ends q) (re_ends r p))"
  "re_ends (Alt r q) p = re_ends r p @ re_ends q p"
  "re_ends (Star r) p =
     (case r of
        Cls P \<Rightarrow> p # (case snd p of [] \<Rightarrow> [] | c # s \<Rightarrow> if P c then re_ends (Star r) (Some c, s) else [])
      | _ \<Rightarrow> p # concat (map (\<lambda>p'. if length (snd p') < length (snd p) then re_ends (Star r) p' else [])
                (re_ends r p)))"
  "re_ends WordBoundary p = (if boundary p then [p] else [])"
  "re_ends AtStart p = (if fst p = None then [p] else [])"
  "re_ends AtEnd p = (if at_end (snd p) then [p] else [])"
  by (simp_all add: re_ends_Cat re_ends.simps(5) [of r p] split: re.split list.split del: re_ends.simps(3))

fun search_from :: "re \<Rightarrow> char option \<Rightarrow> string \<Rightarrow> bool" where
  "search_from r prev [] = (re_ends r (prev, []) \<noteq> [])"
| "search_from r prev (c # s) =
     (re_ends r (prev, c # s) \<noteq> [] \<or> search_from r (Some c) s)"

definition search :: "re \<Rightarrow> string \<Rightarrow> bool" where
  "search r s = search_from r None s"

definition fullmatch :: "re \<Rightarrow> string \<Rightarrow> bool" where
  "fullmatch r s \<longleftrightarrow> list_ex (\<lambda>p. snd p = []) (re_ends r (None, s))"

section \<open>Derived forms\<close>

text \<open>A literal character, exactly or under \<open>(?i)\<close>.\<close>

definition same_char :: "char \<Rightarrow> char \<Rightarrow> bool" where
  "same_char c d \<longleftrightarrow> d = c"

definition same_letter :: "char \<Rightarrow> char \<Rightarrow> bool" where
  "same_letter c d \<longleftrightarrow> to_lower d = to_lower c"

definition re_char :: "char \<Rightarrow> re" where
  "re_char c = Cls (same_char c)"

definition re_char_i :: "char \<Rightarrow> re" where
  "re_char_i c = Cls (same_letter c)"

fun re_cat :: "re list \<Rightarrow> re" where
  "re_cat [] = Eps"
| "re_cat [r] = r"
| "re_cat (r # q # rs) = Cat r (re_cat (q # rs))"

fun re_alt :: "re list \<Rightarrow> re" where
  "re_alt [] = Cls (\<lambda>_. False)"
| "re_alt [r] = r"
| "re_alt (r # q # rs) = Alt r (re_alt (q # rs))"

definition re_lit :: "string \<Rightarrow> re" where
  "re_lit s = re_cat (map re_char s)"

definition re_lit_i :: "string \<Rightarrow> re" where
  "re_lit_i s = re_cat (map re_char_i s)"

definition re_opt :: "re \<Rightarrow> re" where
  "re_opt r = Alt r Eps"

definition re_plus :: "re \<Rightarrow> re" where
  "re_plus r = Cat r (Star r)"

text \<open>\<open>r{lo,hi}\<close>.\<close>

fun re_repeat :: "nat \<Rightarrow> nat \<Rightarrow> re \<Rightarrow> re" where
  "re_repeat 0 0 r = Eps"
| "re_repeat 0 (Suc k) r = re_opt (Cat r (re_repeat 0 k r))"
| "re_repeat (Suc n) k r = Cat r (re_repeat n (k - 1) r)"

lemma re_ends_char: "re_ends (re_char c) (prev, d # s) = (if d = c then [(Some c, s)] else [])"
  by (auto simp: re_char_def same_char_def)

lemma search_from_split:
  "search_from r prev s \<longleftrightarrow>
     (\<exists>u v. s = u @ v \<and> re_ends r (if u = [] then prev else Some (last u), v) \<noteq> [])"
proof (induction s arbitrary: prev)
  case Nil
  then show ?case by simp
next
  case (Cons c s)
  show ?case
  proof
    assume "search_from r prev (c # s)"
    then consider "re_ends r (prev, c # s) \<noteq> []" | "search_from r (Some c) s" by auto
    then show "\<exists>u v. c # s = u @ v \<and> re_ends r (if u = [] then prev else Some (last u), v) \<noteq> []"
    proof cases
      case 1
      then show ?thesis by (intro exI [of _ "[]"] exI [of _ "c # s"]) simp
    next
      case 2
      then obtain u v where "s = u @ v" "re_ends r (if u = [] then Some c else Some (last u), v) \<noteq> []"
        using Cons.IH by blast
      then show ?thesis by (intro exI [of _ "c # u"] exI [of _ v]) (simp split: if_splits)
    qed
  next
    assume "\<exists>u v. c # s = u @ v \<and> re_ends r (if u = [] then prev else Some (last u), v) \<noteq> []"
    then obtain u v where uv: "c # s = u @ v"
      and m: "re_ends r (if u = [] then prev else Some (last u), v) \<noteq> []" by blast
    show "search_from r prev (c # s)"
    proof (cases u)
      case Nil
      with uv have "v = c # s" by simp
      with m Nil show ?thesis by simp
    next
      case (Cons d u')
      with uv have "d = c" "s = u' @ v" by auto
      moreover from m Cons have "re_ends r (if u' = [] then Some c else Some (last u'), v) \<noteq> []"
        using \<open>d = c\<close> by (auto split: if_splits)
      ultimately have "search_from r (Some c) s" unfolding Cons.IH by blast
      then show ?thesis by simp
    qed
  qed
qed

text \<open>\<open>search\<close> finds a match iff the expression matches at some position of the text.\<close>

lemma search_iff:
  "search r s \<longleftrightarrow> (\<exists>u v. s = u @ v \<and> re_ends r (if u = [] then None else Some (last u), v) \<noteq> [])"
  by (simp add: search_def search_from_split)

lemma search_Alt: "search (Alt r q) s \<longleftrightarrow> search r s \<or> search q s"
  unfolding search_iff re_ends.simps append_is_Nil_conv by blast

end
