(* ===== verification/Identifiers.thy ===== *)
theory Identifiers
  imports Regex
begin

text \<open>
  \<open>src/chorus/domain/ids.py\<close>: nominal identifiers, validated string wrappers and the
  deterministic identifier generator. A UUID is its 128-bit value; \<open>uuid_text\<close> is its
  lowercase hyphenated text. The subclasses of \<open>UUIDIdentifier\<close> are one polymorphic type
  with a phantom parameter, so that two kinds of identifier never mix. The code sorts
  identifiers by their text; \<open>uuid_text_less_iff\<close> shows this is the order of the values,
  which is the order the model sorts by.
\<close>

section \<open>UUIDs and their text\<close>

type_synonym uuid = nat

definition hex_digit :: "nat \<Rightarrow> char" where
  "hex_digit n = ''0123456789abcdef'' ! n"

fun hex_fixed :: "nat \<Rightarrow> nat \<Rightarrow> string" where
  "hex_fixed 0 n = []"
| "hex_fixed (Suc k) n = hex_fixed k (n div 16) @ [hex_digit (n mod 16)]"

definition insert_at :: "nat \<Rightarrow> 'a \<Rightarrow> 'a list \<Rightarrow> 'a list" where
  "insert_at i c xs = take i xs @ c # drop i xs"

definition uuid_text :: "uuid \<Rightarrow> string" where
  "uuid_text u =
     insert_at 23 CHR ''-'' (insert_at 18 CHR ''-'' (insert_at 13 CHR ''-'' (insert_at 8 CHR ''-'' (hex_fixed 32 u))))"

lemma less_16_cases: "(n::nat) < 16 \<Longrightarrow> n \<in> {0,1,2,3,4,5,6,7,8,9,10,11,12,13,14,15}"
  by (simp add: less_Suc_eq numeral_eq_Suc)

lemma length_hex_fixed [simp]: "length (hex_fixed k n) = k"
  by (induction k arbitrary: n) auto

lemma hex_digit_less:
  assumes "m < n" "n < 16"
  shows "hex_digit m < hex_digit n"
proof -
  have "\<forall>n\<in>{0,1,2,3,4,5,6,7,8,9,10,11,12,13,14,15}. \<forall>m\<in>{0,1,2,3,4,5,6,7,8,9,10,11,12,13,14,15}.
          m < n \<longrightarrow> hex_digit m < hex_digit n"
    by code_simp
  with less_16_cases [of n] less_16_cases [of m] assms show ?thesis by auto
qed

lemma append_less_same_length:
  "length xs = length ys \<Longrightarrow> (xs @ us < ys @ vs) \<longleftrightarrow> xs < ys \<or> (xs = ys \<and> us < (vs :: 'a :: linorder list))"
  by (induction xs ys rule: list_induct2) auto

lemma hex_fixed_less:
  assumes "m < n" "n < 16 ^ k"
  shows "hex_fixed k m < hex_fixed k n"
  using assms
proof (induction k arbitrary: m n)
  case (Suc k)
  consider "m div 16 < n div 16" | "m div 16 = n div 16" "m mod 16 < n mod 16"
    using Suc.prems(1) by (metis div_le_mono div_mult_mod_eq le_neq_implies_less nat_add_left_cancel_less nless_le)
  then show ?case
  proof cases
    case 1
    moreover have "n div 16 < 16 ^ k" using Suc.prems(2) by (simp add: less_mult_imp_div_less)
    ultimately show ?thesis using Suc.IH by (simp add: append_less_same_length)
  next
    case 2
    then have "hex_digit (m mod 16) < hex_digit (n mod 16)" by (simp add: hex_digit_less)
    with 2 show ?thesis by (simp add: append_less_same_length)
  qed
qed simp

lemma insert_at_less:
  "length xs = length ys \<Longrightarrow> xs < ys \<Longrightarrow> insert_at i c xs < insert_at i c (ys :: 'a :: linorder list)"
proof (induction xs ys arbitrary: i rule: list_induct2)
  case (Cons x xs y ys)
  then show ?case by (cases i) (auto simp: insert_at_def)
qed simp

lemma length_insert_at [simp]: "length (insert_at i c xs) = Suc (length xs)"
  by (simp add: insert_at_def)

lemma uuid_text_less: "u < v \<Longrightarrow> v < 2 ^ 128 \<Longrightarrow> uuid_text u < uuid_text v"
  unfolding uuid_text_def by (intro insert_at_less hex_fixed_less) auto

lemma uuid_text_less_iff:
  assumes "u < 2 ^ 128" "v < 2 ^ 128"
  shows "uuid_text u < uuid_text v \<longleftrightarrow> u < v"
  using uuid_text_less [of u v] uuid_text_less [of v u] assms
  by (metis linorder_neqE_nat order_less_asym order_less_irrefl)

text \<open>Reading the text back.\<close>

definition hex_digit_value :: "char \<Rightarrow> nat option" where
  "hex_digit_value c =
     (if is_digit c then Some (code c - 48)
      else if in_range CHR ''a'' CHR ''f'' c then Some (code c - 87)
      else if in_range CHR ''A'' CHR ''F'' c then Some (code c - 55) else None)"

fun hex_value :: "nat \<Rightarrow> string \<Rightarrow> nat option" where
  "hex_value acc [] = Some acc"
| "hex_value acc (c # s) =
     (case hex_digit_value c of None \<Rightarrow> None | Some d \<Rightarrow> hex_value (16 * acc + d) s)"

lemma hex_digit_value_digit:
  assumes "n < 16"
  shows "hex_digit_value (hex_digit n) = Some n"
proof -
  have "\<forall>n\<in>{0,1,2,3,4,5,6,7,8,9,10,11,12,13,14,15}. hex_digit_value (hex_digit n) = Some n"
    by code_simp
  with less_16_cases [OF assms] show ?thesis by blast
qed

lemma hex_value_append:
  "hex_value acc (s @ t) = (case hex_value acc s of None \<Rightarrow> None | Some a \<Rightarrow> hex_value a t)"
  by (induction acc s rule: hex_value.induct) (auto split: option.splits)

lemma hex_value_fixed: "hex_value acc (hex_fixed k n) = Some (acc * 16 ^ k + n mod 16 ^ k)"
proof (induction k arbitrary: n)
  case (Suc k)
  have "n mod 16 ^ Suc k = 16 * (n div 16 mod 16 ^ k) + n mod 16"
    by (simp add: mod_mult2_eq)
  then show ?case using Suc by (simp add: hex_value_append hex_digit_value_digit algebra_simps)
qed simp

lemma hex_fixed_no_hyphen: "CHR ''-'' \<notin> set (hex_fixed k n)"
proof (induction k arbitrary: n)
  case (Suc k)
  have "hex_digit_value (hex_digit (n mod 16)) \<noteq> None" by (simp add: hex_digit_value_digit)
  moreover have "hex_digit_value CHR ''-'' = None" by code_simp
  ultimately have "hex_digit (n mod 16) \<noteq> CHR ''-''" by metis
  with Suc show ?case by auto
qed simp

lemma filter_insert_at: "\<not> P c \<Longrightarrow> filter P (insert_at i c xs) = filter P xs"
  by (metis append_take_drop_id filter.simps(2) filter_append insert_at_def)

text \<open>
  \<open>UUID(value)\<close> of the standard library reads 32 hexadecimal digits after dropping hyphens.
  It also drops a \<open>urn:uuid:\<close> prefix and braces, which the caller below then refuses,
  because the text of the result differs from the input; the model refuses them at once.
\<close>

definition uuid_of_text :: "string \<Rightarrow> uuid option" where
  "uuid_of_text s =
     (let digits = filter (\<lambda>c. c \<noteq> CHR ''-'') s
      in if length digits = 32 then hex_value 0 digits else None)"

lemma uuid_of_text_uuid_text: "u < 2 ^ 128 \<Longrightarrow> uuid_of_text (uuid_text u) = Some u"
proof -
  have "filter (\<lambda>c. c \<noteq> CHR ''-'') (hex_fixed 32 u) = hex_fixed 32 u"
    using hex_fixed_no_hyphen by (auto simp: filter_id_conv)
  then have "filter (\<lambda>c. c \<noteq> CHR ''-'') (uuid_text u) = hex_fixed 32 u"
    by (simp add: uuid_text_def filter_insert_at)
  moreover assume "u < 2 ^ 128"
  ultimately show ?thesis by (simp add: uuid_of_text_def hex_value_fixed)
qed

section \<open>Nominal identifiers\<close>

datatype 'kind ident = Ident (uuid_of: uuid)

datatype community_kind = CommunityKind
datatype contributor_kind = ContributorKind
datatype message_kind = MessageKind
datatype report_kind = ReportKind
datatype fact_kind = FactKind
datatype evidence_root_kind = EvidenceRootKind
datatype evidence_item_kind = EvidenceItemKind
datatype mandate_kind = MandateKind
datatype case_kind = CaseKind
datatype assessment_kind = AssessmentKind
datatype view_kind = ViewKind
datatype export_fact_kind = ExportFactKind
datatype safe_evidence_ref_kind = SafeEvidenceRefKind
datatype action_kind = ActionKind
datatype approval_kind = ApprovalKind
datatype execution_kind = ExecutionKind
datatype commitment_kind = CommitmentKind
datatype operation_kind = OperationKind

type_synonym community_id = "community_kind ident"
type_synonym contributor_id = "contributor_kind ident"
type_synonym message_id = "message_kind ident"
type_synonym report_id = "report_kind ident"
type_synonym fact_id = "fact_kind ident"
type_synonym evidence_root_id = "evidence_root_kind ident"
type_synonym evidence_item_id = "evidence_item_kind ident"
type_synonym mandate_id = "mandate_kind ident"
type_synonym case_id = "case_kind ident"
type_synonym assessment_id = "assessment_kind ident"
type_synonym view_id = "view_kind ident"
type_synonym export_fact_id = "export_fact_kind ident"
type_synonym safe_evidence_ref_id = "safe_evidence_ref_kind ident"
type_synonym action_id = "action_kind ident"
type_synonym approval_id = "approval_kind ident"
type_synonym execution_id = "execution_kind ident"
type_synonym commitment_id = "commitment_kind ident"
type_synonym operation_id = "operation_kind ident"

instantiation ident :: (type) linorder
begin

definition less_eq_ident :: "'a ident \<Rightarrow> 'a ident \<Rightarrow> bool" where
  "less_eq_ident x y \<longleftrightarrow> uuid_of x \<le> uuid_of y"

definition less_ident :: "'a ident \<Rightarrow> 'a ident \<Rightarrow> bool" where
  "less_ident x y \<longleftrightarrow> uuid_of x < uuid_of y"

instance
  by standard (auto simp: less_eq_ident_def less_ident_def ident.expand)

end

lemma ident_le_simps [simp]:
  "Ident u \<le> Ident v \<longleftrightarrow> u \<le> v" "Ident u < Ident v \<longleftrightarrow> u < v"
  by (simp_all add: less_eq_ident_def less_ident_def)

definition ident_str :: "'k ident \<Rightarrow> string" where
  "ident_str i = uuid_text (uuid_of i)"

definition ident_parse :: "string \<Rightarrow> 'k ident result" where
  "ident_parse s =
     (case uuid_of_text s of
        None \<Rightarrow> Inl (ValueError ''badly formed hexadecimal UUID string'')
      | Some u \<Rightarrow>
          (if uuid_text u \<noteq> s
           then Inl (ValueError ''identifier must be a lowercase hyphenated UUID'')
           else Inr (Ident u)))"

lemma ident_parse_str: "uuid_of i < 2 ^ 128 \<Longrightarrow> ident_parse (ident_str i) = Inr i"
  by (simp add: ident_parse_def ident_str_def uuid_of_text_uuid_text)

lemma ident_parse_canonical: "ident_parse s = Inr i \<Longrightarrow> ident_str i = s"
  by (auto simp: ident_parse_def ident_str_def split: option.splits if_splits)

section \<open>Validated string wrappers\<close>

definition key_char :: "char \<Rightarrow> bool" where
  "key_char c \<longleftrightarrow> is_lower c \<or> is_digit c \<or> c = CHR ''_'' \<or> c = CHR ''-''"

definition NAMESPACE_PATTERN :: re where
  "NAMESPACE_PATTERN =
     Cat (Cls is_upper) (re_repeat 1 31 (Cls (\<lambda>c. is_upper c \<or> is_digit c \<or> c = CHR ''_'')))"

datatype namespace = Namespace (ns_value: string)

definition namespace_post_init :: "namespace \<Rightarrow> unit result" where
  "namespace_post_init n =
     checks [(\<not> fullmatch NAMESPACE_PATTERN (ns_value n), ValueError ''invalid namespace'')]"

definition DESTINATION_ID_PATTERN :: re where
  "DESTINATION_ID_PATTERN =
     re_cat [Cls is_lower, re_repeat 1 63 (Cls key_char), re_char CHR '':'', re_repeat 1 64 (Cls key_char)]"

datatype destination_id = DestinationId (dest_value: string)

definition destination_id_post_init :: "destination_id \<Rightarrow> unit result" where
  "destination_id_post_init d =
     checks [(\<not> fullmatch DESTINATION_ID_PATTERN (dest_value d), ValueError ''invalid destination ID'')]"

definition DIGEST_PATTERN :: re where
  "DIGEST_PATTERN =
     Cat (re_lit ''sha256:'') (re_repeat 64 64 (Cls (\<lambda>c. is_digit c \<or> in_range CHR ''a'' CHR ''f'' c)))"

datatype digest = Sha256Digest (digest_value: string)

definition digest_post_init :: "digest \<Rightarrow> unit result" where
  "digest_post_init d =
     checks [(\<not> fullmatch DIGEST_PATTERN (digest_value d), ValueError ''invalid SHA-256 digest'')]"

definition EMPTY_DIGEST :: digest where
  "EMPTY_DIGEST = Sha256Digest (''sha256:'' @ replicate 64 CHR ''0'')"

text \<open>Private text: both renderings are redacted, only \<open>reveal\<close> gives the value.\<close>

datatype sensitive_str = SensitiveStr (reveal: string)

definition sensitive_str_post_init :: "sensitive_str \<Rightarrow> unit result" where
  "sensitive_str_post_init s =
     checks [(reveal s = [], ValueError ''sensitive text cannot be empty'')]"

definition sensitive_str_repr :: "sensitive_str \<Rightarrow> string" where
  "sensitive_str_repr s = ''SensitiveStr('' @ [CHR 0x27] @ ''***'' @ [CHR 0x27] @ '')''"

definition sensitive_str_str :: "sensitive_str \<Rightarrow> string" where
  "sensitive_str_str s = ''***''"

section \<open>Identifier generators\<close>

fun nat_text_acc :: "nat \<Rightarrow> string \<Rightarrow> string" where
  "nat_text_acc n acc =
     (let acc' = hex_digit (n mod 10) # acc in if n < 10 then acc' else nat_text_acc (n div 10) acc')"

declare nat_text_acc.simps [simp del]

definition nat_text :: "nat \<Rightarrow> string" where
  "nat_text n = nat_text_acc n []"

text \<open>
  The kinds of identifier the compiler mints, by their class names, and
  \<open>Uuid5Generator.new\<close>: the counter advances first and the identifier is the UUIDv5 of
  \<open>prefix:class:counter\<close> under the generator's namespace. UUIDv5 itself (SHA-1) is the
  argument \<open>uuid5\<close>. \<open>uuid5_source\<close> is the generator as a function of the kind and of how
  many identifiers were minted before, the form in which the compiler takes its generator.
\<close>

datatype mint_kind = MintOperation | MintView | MintExportFact | MintSafeEvidenceRef

fun mint_class_name :: "mint_kind \<Rightarrow> string" where
  "mint_class_name MintOperation = ''OperationId''"
| "mint_class_name MintView = ''ViewId''"
| "mint_class_name MintExportFact = ''ExportFactId''"
| "mint_class_name MintSafeEvidenceRef = ''SafeEvidenceRefId''"

type_synonym id_source = "mint_kind \<Rightarrow> nat \<Rightarrow> uuid"

record uuid5_generator =
  gen_namespace :: uuid
  gen_prefix :: string
  gen_counter :: nat

definition uuid5_source :: "(uuid \<Rightarrow> string \<Rightarrow> uuid) \<Rightarrow> uuid \<Rightarrow> string \<Rightarrow> id_source" where
  "uuid5_source uuid5 ns prefix k n =
     uuid5 ns (prefix @ '':'' @ mint_class_name k @ '':'' @ nat_text (n + 1))"

definition uuid5_new ::
    "(uuid \<Rightarrow> string \<Rightarrow> uuid) \<Rightarrow> uuid5_generator \<Rightarrow> mint_kind \<Rightarrow> 'k ident \<times> uuid5_generator" where
  "uuid5_new uuid5 g k =
     (Ident (uuid5_source uuid5 (gen_namespace g) (gen_prefix g) k (gen_counter g)),
      g\<lparr>gen_counter := gen_counter g + 1\<rparr>)"

definition uuid5_reset :: "uuid5_generator \<Rightarrow> uuid5_generator" where
  "uuid5_reset g = g\<lparr>gen_counter := 0\<rparr>"

text \<open>Minting again after a reset reproduces the first identifier.\<close>

lemma uuid5_reset_replays:
  "gen_counter g = 0 \<Longrightarrow> uuid5_new uuid5 (uuid5_reset (snd (uuid5_new uuid5 g k))) k = uuid5_new uuid5 g k"
  by (simp add: uuid5_new_def uuid5_reset_def)

end
