(* ===== verification/Timestamps.thy ===== *)
theory Timestamps
  imports Prelude
begin

text \<open>
  \<open>src/chorus/domain/time.py\<close>: UTC validation, the epoch helpers and the canonical text of an
  instant. A Python \<open>datetime\<close> is its instant in microseconds since the epoch (its wall-clock
  reading when it is naive) and its offset from UTC, none when it is naive. Comparisons in the code
  are between validated UTC values, so they are comparisons of instants.
\<close>

section \<open>Datetimes\<close>

datatype datetime = DateTime (instant: int) (utcoffset: "int option")

abbreviation utc :: "int \<Rightarrow> datetime" where
  "utc i \<equiv> DateTime i (Some 0)"

definition is_utc :: "datetime \<Rightarrow> bool" where
  "is_utc d \<longleftrightarrow> utcoffset d = Some 0"

abbreviation utc_error :: error where
  "utc_error \<equiv> ValueError ''datetime must be timezone-aware UTC''"

definition require_utc :: "datetime \<Rightarrow> datetime result" where
  "require_utc d = (if \<not> is_utc d then Inl utc_error else Inr (utc (instant d)))"

lemma is_utc_iff: "is_utc d \<longleftrightarrow> d = utc (instant d)"
  by (cases d) (simp add: is_utc_def)

lemma is_utc_utc [simp]: "is_utc (utc i)"
  by (simp add: is_utc_def)

lemma require_utc_Inr_iff [result_simps]: "require_utc d = Inr e \<longleftrightarrow> is_utc d \<and> e = d"
  by (cases d) (auto simp: require_utc_def is_utc_def)

lemma require_utc_Inl_iff [result_simps]: "require_utc d = Inl e \<longleftrightarrow> \<not> is_utc d \<and> e = utc_error"
  by (auto simp: require_utc_def)

text \<open>Python's \<open>==\<close>: aware values by instant, naive ones by wall clock, never one with the other.\<close>

definition datetime_eq :: "datetime \<Rightarrow> datetime \<Rightarrow> bool" where
  "datetime_eq d e \<longleftrightarrow> instant d = instant e \<and> (utcoffset d = None \<longleftrightarrow> utcoffset e = None)"

fun datetime_opt_eq :: "datetime option \<Rightarrow> datetime option \<Rightarrow> bool" where
  "datetime_opt_eq None None = True"
| "datetime_opt_eq (Some d) (Some e) = datetime_eq d e"
| "datetime_opt_eq _ _ = False"

lemma datetime_eq_utc: "is_utc d \<Longrightarrow> is_utc e \<Longrightarrow> datetime_eq d e \<longleftrightarrow> d = e"
  by (cases d; cases e) (auto simp: datetime_eq_def is_utc_def)

definition add_micros :: "datetime \<Rightarrow> int \<Rightarrow> datetime" where
  "add_micros d n = DateTime (instant d + n) (utcoffset d)"

lemma instant_add_micros [simp]: "instant (add_micros d n) = instant d + n"
  by (simp add: add_micros_def)

definition seconds :: "int \<Rightarrow> int" where
  "seconds n = n * 1000000"

text \<open>\<open>min(a, b, ...)\<close>: the first of the least values.\<close>

fun dt_min :: "datetime \<Rightarrow> datetime list \<Rightarrow> datetime" where
  "dt_min d [] = d"
| "dt_min d (e # es) = dt_min (if instant e < instant d then e else d) es"

lemma dt_min_le: "e \<in> insert d (set es) \<Longrightarrow> instant (dt_min d es) \<le> instant e"
proof (induction d es arbitrary: e rule: dt_min.induct)
  case (2 d e' es)
  show ?case
  proof (cases "e \<in> set es")
    case True
    then show ?thesis using "2.IH" by simp
  next
    case False
    with "2.prems" have "e = d \<or> e = e'" by auto
    moreover have "instant (dt_min d (e' # es)) \<le> instant (if instant e' < instant d then e' else d)"
      using "2.IH" by simp
    ultimately show ?thesis by (auto split: if_splits)
  qed
qed simp

lemma dt_min_mem: "dt_min d es \<in> insert d (set es)"
  by (induction d es rule: dt_min.induct) auto

section \<open>Epoch arithmetic\<close>

text \<open>The normalized \<open>timedelta\<close> to the epoch: days, seconds below a day, microseconds.\<close>

definition delta_days :: "int \<Rightarrow> int" where
  "delta_days i = i div 86400000000"

definition delta_seconds :: "int \<Rightarrow> int" where
  "delta_seconds i = i mod 86400000000 div 1000000"

definition delta_micros :: "int \<Rightarrow> int" where
  "delta_micros i = i mod 1000000"

definition epoch_micros :: "datetime \<Rightarrow> int result" where
  "epoch_micros d =
     bindE (require_utc d) (\<lambda>v. let i = instant v in
       Inr ((delta_days i * 86400 + delta_seconds i) * 1000000 + delta_micros i))"

definition epoch_seconds_ceiling :: "datetime \<Rightarrow> int result" where
  "epoch_seconds_ceiling d =
     bindE (epoch_micros d) (\<lambda>micros. Inr (- ((- micros) div 1000000)))"

lemma split_recombines:
  fixes i :: int
  shows "d * 86400000000 + r = i \<Longrightarrow> q * 1000000 + s = r \<Longrightarrow> (d * 86400 + q) * 1000000 + s = i"
  by simp

lemma epoch_micros_exact: "is_utc d \<Longrightarrow> epoch_micros d = Inr (instant d)"
proof -
  assume d: "is_utc d"
  have "(i div 86400000000 * 86400 + i mod 86400000000 div 1000000) * 1000000 + i mod 1000000 = i" for i :: int
  proof -
    have "i mod 86400000000 mod 1000000 = i mod 1000000"
      by (rule mod_mod_cancel) simp
    with div_mult_mod_eq [of "i mod 86400000000" 1000000]
    have "i mod 86400000000 div 1000000 * 1000000 + i mod 1000000 = i mod 86400000000" by simp
    with div_mult_mod_eq [of i 86400000000] show ?thesis by (rule split_recombines)
  qed
  with d show ?thesis
    by (simp add: epoch_micros_def require_utc_def delta_days_def delta_seconds_def delta_micros_def Let_def)
qed

lemma ceiling_bounds:
  fixes m :: int
  shows "m \<le> - ((- m) div 1000000) * 1000000" "(- ((- m) div 1000000) - 1) * 1000000 < m"
proof -
  have "(- m) div 1000000 * 1000000 + (- m) mod 1000000 = - m"
    "0 \<le> (- m) mod 1000000" "(- m) mod 1000000 < 1000000" by simp_all
  then show "m \<le> - ((- m) div 1000000) * 1000000" "(- ((- m) div 1000000) - 1) * 1000000 < m"
    by (simp_all only: left_diff_distrib mult_minus_left)
qed

section \<open>Calendar dates and canonical text\<close>

text \<open>\<open>date()\<close> of the standard library: the proleptic Gregorian date of a day number.\<close>

definition civil_of_days :: "int \<Rightarrow> int \<times> int \<times> int" where
  "civil_of_days n =
     (let z = n + 719468;
          era = z div 146097;
          doe = z mod 146097;
          yoe = (doe - doe div 1460 + doe div 36524 - doe div 146096) div 365;
          doy = doe - (365 * yoe + yoe div 4 - yoe div 100);
          mp = (5 * doy + 2) div 153;
          d = doy - (153 * mp + 2) div 5 + 1;
          m = (if mp < 10 then mp + 3 else mp - 9);
          y = yoe + era * 400 + (if m \<le> 2 then 1 else 0)
      in (y, m, d))"

definition dec_digit :: "int \<Rightarrow> char" where
  "dec_digit n = ''0123456789'' ! nat n"

fun dec_fixed :: "nat \<Rightarrow> int \<Rightarrow> string" where
  "dec_fixed 0 n = []"
| "dec_fixed (Suc k) n = dec_fixed k (n div 10) @ [dec_digit (n mod 10)]"

definition date_days :: "datetime \<Rightarrow> int" where
  "date_days d = delta_days (instant d)"

definition date_isoformat :: "int \<Rightarrow> string" where
  "date_isoformat n =
     (case civil_of_days n of (y, m, d) \<Rightarrow> dec_fixed 4 y @ ''-'' @ dec_fixed 2 m @ ''-'' @ dec_fixed 2 d)"

definition format_utc :: "datetime \<Rightarrow> string result" where
  "format_utc d =
     bindE (require_utc d) (\<lambda>v.
       let i = instant v; s = delta_seconds i in
       Inr (date_isoformat (delta_days i) @ ''T'' @ dec_fixed 2 (s div 3600) @ '':'' @
            dec_fixed 2 (s mod 3600 div 60) @ '':'' @ dec_fixed 2 (s mod 60) @ ''.'' @
            dec_fixed 6 (delta_micros i) @ ''Z''))"

lemma length_dec_fixed [simp]: "length (dec_fixed k n) = k"
  by (induction k arbitrary: n) auto

lemma format_utc_length: "format_utc d = Inr s \<Longrightarrow> length s = 27"
  by (auto simp: format_utc_def result_simps Let_def date_isoformat_def split: prod.splits)

end
