(* ===== verification/Vocabulary.thy ===== *)
theory Vocabulary
  imports Regex
begin

text \<open>
  The closed enumerations of \<open>src/chorus/domain/entities.py\<close> and \<open>src/chorus/domain/facts.py\<close>,
  each with the text of its members where the code uses it (as a sort key or in a canonical
  payload). Members whose bare names clash carry a prefix for their enumeration.
\<close>

datatype disclosure_scope =
  INTERNAL_ONLY | AGGREGATE_ONLY | ANONYMOUS_CASE | NAMED_CASE | EXTERNAL_ACTION

datatype evidence_status =
  ES_REPORTED | ES_CORROBORATED | ES_VERIFIED | ES_CONTRADICTED | ES_UNKNOWN

datatype case_state =
    CANDIDATE | AWAITING_MANDATES | INVESTIGATING | READY_FOR_ACTION | ACTION_PROPOSED
  | ACTIONED | VERIFYING | RESOLVED | CLOSED_UNRESOLVED

datatype mandate_status =
  MS_PROPOSED | MS_APPROVED | MS_REFUSED | MS_REVOKED | MS_EXPIRED | MS_SUPERSEDED

datatype execution_state =
  EX_DRAFT | EX_APPROVED | EX_SENDING | EX_SENT | EX_FAILED | EX_SEND_UNKNOWN

datatype commitment_status =
  CM_PENDING | CM_DUE | CM_FULFILLED | CM_MISSED | CM_CANCELLED

datatype sensitivity =
    SC_GENERAL | SC_IDENTITY | SC_CONTACT | SC_UNIT_LOCATION | SC_HEALTH | SC_MINOR
  | SC_PRIVATE_QUOTE | SC_PRIVATE_EVIDENCE_URI

datatype fact_type =
    INCIDENT_OCCURRENCE | SERVICE_IMPACT | LOCATION_AREA | IDENTITY_ATTRIBUTE | UNIT_LOCATION
  | HEALTH_DETAIL | MANAGEMENT_STATEMENT | CONTRADICTION | COMMITMENT_TERM | EVIDENCE_DESCRIPTION

datatype purpose = REQUEST_ELEVATOR_REPAIR_AND_RESPONSE

datatype destination_kind = PROPERTY_MANAGER

datatype derivation_kind = DK_ORIGINAL | DK_FORWARDED | DK_TRANSFORMED

datatype malware_scan_status = MW_PENDING | MW_CLEAN | MW_REJECTED

datatype extraction_status = XT_NOT_NEEDED | XT_PENDING | XT_COMPLETE | XT_FAILED

datatype action_proposal_status = AP_DRAFT | AP_INVALIDATED

datatype action_tone = NEUTRAL | COLLABORATIVE | FIRM

datatype approval_decision = AD_APPROVED | AD_REJECTED

datatype approver_assurance = DEMO_SHARED_TOKEN

datatype materiality = LOW | MEDIUM | HIGH

datatype operation_name =
  OP_MONITOR | OP_INVESTIGATE | OP_PROPOSE_ACTION | OP_EXTRACT_COMMITMENT | OP_SEND_ACTION | OP_DEMO_DUE

datatype operation_status = OS_PENDING | OS_RUNNING | OS_SUCCEEDED | OS_FAILED

datatype field_presence = REQUIRED_FIELD | ABSENT_FIELD | OPTIONAL_FIELD

datatype failure_mode = FM_STUCK | FM_OUT_OF_SERVICE | FM_ERRATIC | FM_UNKNOWN

datatype impact_code = IM_DELAY | IM_TRAPPED | IM_ACCESS_BLOCKED | IM_OTHER

datatype location_area_code = LA_LOBBY | LA_ELEVATOR_CAB | LA_COMMON_AREA | LA_BUILDING

datatype subject_relation = SR_SELF | SR_FAMILY | SR_OTHER

datatype media_kind = MK_IMAGE | MK_EMAIL | MK_TEXT

datatype report_status = RS_ACTIVE | RS_DUPLICATE | RS_RETRACTED

datatype fact_status = FS_ACTIVE | FS_WITHDRAWN

section \<open>Texts\<close>

fun scope_text :: "disclosure_scope \<Rightarrow> string" where
  "scope_text INTERNAL_ONLY = ''INTERNAL_ONLY''"
| "scope_text AGGREGATE_ONLY = ''AGGREGATE_ONLY''"
| "scope_text ANONYMOUS_CASE = ''ANONYMOUS_CASE''"
| "scope_text NAMED_CASE = ''NAMED_CASE''"
| "scope_text EXTERNAL_ACTION = ''EXTERNAL_ACTION''"

fun evidence_status_text :: "evidence_status \<Rightarrow> string" where
  "evidence_status_text ES_REPORTED = ''REPORTED''"
| "evidence_status_text ES_CORROBORATED = ''CORROBORATED''"
| "evidence_status_text ES_VERIFIED = ''VERIFIED''"
| "evidence_status_text ES_CONTRADICTED = ''CONTRADICTED''"
| "evidence_status_text ES_UNKNOWN = ''UNKNOWN''"

fun fact_type_text :: "fact_type \<Rightarrow> string" where
  "fact_type_text INCIDENT_OCCURRENCE = ''INCIDENT_OCCURRENCE''"
| "fact_type_text SERVICE_IMPACT = ''SERVICE_IMPACT''"
| "fact_type_text LOCATION_AREA = ''LOCATION_AREA''"
| "fact_type_text IDENTITY_ATTRIBUTE = ''IDENTITY_ATTRIBUTE''"
| "fact_type_text UNIT_LOCATION = ''UNIT_LOCATION''"
| "fact_type_text HEALTH_DETAIL = ''HEALTH_DETAIL''"
| "fact_type_text MANAGEMENT_STATEMENT = ''MANAGEMENT_STATEMENT''"
| "fact_type_text CONTRADICTION = ''CONTRADICTION''"
| "fact_type_text COMMITMENT_TERM = ''COMMITMENT_TERM''"
| "fact_type_text EVIDENCE_DESCRIPTION = ''EVIDENCE_DESCRIPTION''"

fun purpose_text :: "purpose \<Rightarrow> string" where
  "purpose_text REQUEST_ELEVATOR_REPAIR_AND_RESPONSE = ''REQUEST_ELEVATOR_REPAIR_AND_RESPONSE''"

fun destination_kind_text :: "destination_kind \<Rightarrow> string" where
  "destination_kind_text PROPERTY_MANAGER = ''PROPERTY_MANAGER''"

fun derivation_kind_text :: "derivation_kind \<Rightarrow> string" where
  "derivation_kind_text DK_ORIGINAL = ''ORIGINAL''"
| "derivation_kind_text DK_FORWARDED = ''FORWARDED''"
| "derivation_kind_text DK_TRANSFORMED = ''TRANSFORMED''"

fun malware_scan_status_text :: "malware_scan_status \<Rightarrow> string" where
  "malware_scan_status_text MW_PENDING = ''PENDING''"
| "malware_scan_status_text MW_CLEAN = ''CLEAN''"
| "malware_scan_status_text MW_REJECTED = ''REJECTED''"

fun extraction_status_text :: "extraction_status \<Rightarrow> string" where
  "extraction_status_text XT_NOT_NEEDED = ''NOT_NEEDED''"
| "extraction_status_text XT_PENDING = ''PENDING''"
| "extraction_status_text XT_COMPLETE = ''COMPLETE''"
| "extraction_status_text XT_FAILED = ''FAILED''"

fun failure_mode_text :: "failure_mode \<Rightarrow> string" where
  "failure_mode_text FM_STUCK = ''STUCK''"
| "failure_mode_text FM_OUT_OF_SERVICE = ''OUT_OF_SERVICE''"
| "failure_mode_text FM_ERRATIC = ''ERRATIC''"
| "failure_mode_text FM_UNKNOWN = ''UNKNOWN''"

fun impact_code_text :: "impact_code \<Rightarrow> string" where
  "impact_code_text IM_DELAY = ''DELAY''"
| "impact_code_text IM_TRAPPED = ''TRAPPED''"
| "impact_code_text IM_ACCESS_BLOCKED = ''ACCESS_BLOCKED''"
| "impact_code_text IM_OTHER = ''OTHER''"

fun location_area_text :: "location_area_code \<Rightarrow> string" where
  "location_area_text LA_LOBBY = ''LOBBY''"
| "location_area_text LA_ELEVATOR_CAB = ''ELEVATOR_CAB''"
| "location_area_text LA_COMMON_AREA = ''COMMON_AREA''"
| "location_area_text LA_BUILDING = ''BUILDING''"

fun subject_relation_text :: "subject_relation \<Rightarrow> string" where
  "subject_relation_text SR_SELF = ''SELF''"
| "subject_relation_text SR_FAMILY = ''FAMILY''"
| "subject_relation_text SR_OTHER = ''OTHER''"

fun media_kind_text :: "media_kind \<Rightarrow> string" where
  "media_kind_text MK_IMAGE = ''IMAGE''"
| "media_kind_text MK_EMAIL = ''EMAIL''"
| "media_kind_text MK_TEXT = ''TEXT''"

fun report_status_text :: "report_status \<Rightarrow> string" where
  "report_status_text RS_ACTIVE = ''ACTIVE''"
| "report_status_text RS_DUPLICATE = ''DUPLICATE''"
| "report_status_text RS_RETRACTED = ''RETRACTED''"

fun fact_status_text :: "fact_status \<Rightarrow> string" where
  "fact_status_text FS_ACTIVE = ''ACTIVE''"
| "fact_status_text FS_WITHDRAWN = ''WITHDRAWN''"

text \<open>\<open>text.lower().replace("_", " ")\<close>, as the transformations word an enumeration member.\<close>

definition worded :: "string \<Rightarrow> string" where
  "worded s = map (\<lambda>c. let d = to_lower c in if d = CHR ''_'' then CHR '' '' else d) s"

definition strip :: "string \<Rightarrow> string" where
  "strip s = rev (dropWhile is_space (rev (dropWhile is_space s)))"

definition UNNAMED_ISSUE_TYPE :: string where
  "UNNAMED_ISSUE_TYPE = ''OTHER''"

definition issue_type_names_a_subject :: "string \<Rightarrow> bool" where
  "issue_type_names_a_subject s \<longleftrightarrow> map to_upper (strip s) \<noteq> UNNAMED_ISSUE_TYPE"

lemma fact_type_text_inj: "fact_type_text s = fact_type_text t \<longleftrightarrow> s = t"
  by (cases s; cases t) simp_all

lemma scope_text_inj: "scope_text s = scope_text t \<longleftrightarrow> s = t"
  by (cases s; cases t) simp_all

end
