(* ===== verification/Entities.thy ===== *)
theory Entities
  imports Identifiers Timestamps Vocabulary
begin

text \<open>
  The immutable entities of \<open>src/chorus/domain/entities.py\<close> the modelled components use: one
  record per dataclass, and one \<open>_post_init\<close> function per \<open>__post_init__\<close>, whose checks run
  in the order of the source. \<open>validated _post_init\<close> is the dataclass constructor.
\<close>

section \<open>Shared checks\<close>

definition bounded :: "string \<Rightarrow> nat \<Rightarrow> nat \<Rightarrow> string \<Rightarrow> bool \<times> error" where
  "bounded v lo hi name = (\<not> (lo \<le> length v \<and> length v \<le> hi), ValueError (name @ '' length is invalid''))"

definition positive_version :: "int \<Rightarrow> bool \<times> error" where
  "positive_version v = (v < 1, ValueError ''version must be positive'')"

definition unique :: "'a list \<Rightarrow> string \<Rightarrow> bool \<times> error" where
  "unique xs name = (\<not> distinct xs, ValueError (name @ '' must be unique''))"

definition utc_check :: "datetime \<Rightarrow> bool \<times> error" where
  "utc_check d = (\<not> is_utc d, utc_error)"

fun utc_check_opt :: "datetime option \<Rightarrow> bool \<times> error" where
  "utc_check_opt None = (False, utc_error)"
| "utc_check_opt (Some d) = utc_check d"

definition timestamps :: "datetime \<Rightarrow> datetime \<Rightarrow> (bool \<times> error) list" where
  "timestamps created updated =
     [utc_check created, utc_check updated,
      (instant updated < instant created, ValueError ''updated_at precedes created_at'')]"

lemmas check_defs = bounded_def positive_version_def unique_def utc_check_def timestamps_def

section \<open>Evidence\<close>

record evidence_root =
  root_id :: evidence_root_id
  root_community_id :: community_id
  root_namespace :: namespace
  root_sha256 :: digest
  root_media_type :: string
  root_first_observed_at :: datetime
  root_derivation_kind :: derivation_kind
  root_parent_root_id :: "evidence_root_id option"
  root_created_at :: datetime
  root_updated_at :: datetime
  root_version :: int

definition evidence_root_post_init :: "evidence_root \<Rightarrow> unit result" where
  "evidence_root_post_init r = checks
     ([bounded (root_media_type r) 1 120 ''media_type'', utc_check (root_first_observed_at r)] @
      timestamps (root_created_at r) (root_updated_at r) @
      [(root_version r \<noteq> 1, ValueError ''evidence roots are immutable version 1''),
       (root_derivation_kind r = DK_ORIGINAL \<and> root_parent_root_id r \<noteq> None,
        ValueError ''original evidence cannot have a parent root''),
       (root_derivation_kind r \<noteq> DK_ORIGINAL \<and> root_parent_root_id r = None,
        ValueError ''derived evidence requires a parent root'')])"

text \<open>The external binding of an authenticated inbound reply.\<close>

record external_source_binding =
  bind_destination_id :: string
  bind_registry_version :: int
  bind_routing_token :: uuid
  bind_action_id :: action_id
  bind_execution_id :: execution_id
  bind_inbound_message_id_hash :: digest
  bind_sender_address_digest :: digest
  bind_recipient_address_digest :: digest
  bind_transport :: string
  bind_transport_source_arn :: string
  bind_spf :: string
  bind_dkim :: string
  bind_dmarc :: string
  bind_spam :: string
  bind_virus :: string
  bind_received_at :: datetime
  bind_correlation_proof :: string
  bind_schema_version :: string

definition external_source_binding_post_init :: "external_source_binding \<Rightarrow> unit result" where
  "external_source_binding_post_init b = checks
     [bounded (bind_destination_id b) 1 120 ''destination_id'',
      (bind_registry_version b < 1, ValueError ''destination registry version must be positive''),
      bounded (bind_transport b) 1 64 ''transport'',
      bounded (bind_transport_source_arn b) 1 256 ''transport_source_arn'',
      bounded (bind_spf b) 1 32 ''spf'', bounded (bind_dkim b) 1 32 ''dkim'',
      bounded (bind_dmarc b) 1 32 ''dmarc'', bounded (bind_spam b) 1 32 ''spam'',
      bounded (bind_virus b) 1 32 ''virus'',
      bounded (bind_correlation_proof b) 1 128 ''correlation_proof'',
      (bind_schema_version b \<noteq> ''external-source-binding/v1'',
       ValueError ''unsupported external source binding schema''),
      utc_check (bind_received_at b)]"

record evidence_item =
  item_id :: evidence_item_id
  item_root_id :: evidence_root_id
  item_community_id :: community_id
  item_case_id :: case_id
  item_namespace :: namespace
  item_submitted_by :: "contributor_id option"
  item_source_message_id :: "message_id option"
  item_private_object_key :: sensitive_str
  item_media_type :: string
  item_byte_length :: int
  item_sha256 :: digest
  item_captured_at :: "datetime option"
  item_uploaded_at :: datetime
  item_derived_from :: "evidence_item_id option"
  item_malware_scan_status :: malware_scan_status
  item_extraction_status :: extraction_status
  item_extracted_text :: "sensitive_str option"
  item_version :: int
  item_created_at :: datetime
  item_updated_at :: datetime
  item_external_binding :: "external_source_binding option"
  item_schema_version :: string

definition evidence_item_post_init :: "evidence_item \<Rightarrow> unit result" where
  "evidence_item_post_init i =
     (let owned = item_submitted_by i \<noteq> None; bound = item_external_binding i \<noteq> None in
      checks
       ([bounded (item_media_type i) 1 120 ''media_type'',
         (item_byte_length i < 0, ValueError ''byte_length cannot be negative''),
         utc_check_opt (item_captured_at i), utc_check (item_uploaded_at i),
         positive_version (item_version i)] @
        timestamps (item_created_at i) (item_updated_at i) @
        [(owned = bound,
          ValueError ''evidence has exactly one of a resident owner and an external binding''),
         (bound \<and> item_schema_version i \<noteq> ''evidence-item/v2'',
          ValueError ''an external source binding requires evidence-item/v2'')]))"

section \<open>The case\<close>

record community_case =
  case_case_id :: case_id
  case_community_id :: community_id
  case_namespace :: namespace
  case_title :: string
  case_issue_type :: string
  case_current_state :: case_state
  case_report_ids :: "report_id list"
  case_fact_ids :: "fact_id list"
  case_assessment_id :: "assessment_id option"
  case_current_view_id :: "view_id option"
  case_current_action_id :: "action_id option"
  case_corroboration_count :: int
  case_reason_code :: string
  case_version :: int
  case_authorization_version :: int
  case_created_at :: datetime
  case_updated_at :: datetime
  case_resolved_at :: "datetime option"
  case_closed_at :: "datetime option"

definition community_case_post_init :: "community_case \<Rightarrow> unit result" where
  "community_case_post_init c = checks
     ([bounded (case_title c) 1 160 ''title'', bounded (case_issue_type c) 1 80 ''issue_type'',
       bounded (case_reason_code c) 1 80 ''state_reason_code'',
       unique (case_report_ids c) ''report_ids'', unique (case_fact_ids c) ''fact_ids'',
       (case_corroboration_count c < 0, ValueError ''corroboration_source_count cannot be negative''),
       positive_version (case_version c), positive_version (case_authorization_version c)] @
      timestamps (case_created_at c) (case_updated_at c) @
      [utc_check_opt (case_resolved_at c), utc_check_opt (case_closed_at c)])"

section \<open>Assessments\<close>

record evidence_finding =
  finding_fact_id :: fact_id
  finding_status :: evidence_status
  finding_reason_code :: string

record assessment_contradiction =
  contra_fact_ids :: "fact_id list"
  contra_description :: string
  contra_materiality :: materiality

definition assessment_contradiction_post_init :: "assessment_contradiction \<Rightarrow> unit result" where
  "assessment_contradiction_post_init c = checks
     [(\<not> (2 \<le> length (contra_fact_ids c) \<and> length (contra_fact_ids c) \<le> 10),
       ValueError ''a contradiction cites 2 to 10 facts''),
      unique (contra_fact_ids c) ''statement_fact_ids'',
      bounded (contra_description c) 1 500 ''contradiction description'']"

record assessment_alternative =
  alt_description :: string
  alt_report_ids :: "report_id list"
  alt_fact_ids :: "fact_id list"
  alt_evidence_ids :: "evidence_item_id list"

definition assessment_alternative_post_init :: "assessment_alternative \<Rightarrow> unit result" where
  "assessment_alternative_post_init a = checks
     [bounded (alt_description a) 1 500 ''alternative description'',
      unique (alt_report_ids a) ''cited_report_ids'', unique (alt_fact_ids a) ''cited_fact_ids'',
      unique (alt_evidence_ids a) ''cited_evidence_ids'']"

record investigation_assessment =
  asmt_id :: assessment_id
  asmt_case_id :: case_id
  asmt_based_on_case_version :: int
  asmt_invocation_id :: uuid
  asmt_linkage_decision :: string
  asmt_findings :: "evidence_finding list"
  asmt_contradictions :: "assessment_contradiction list"
  asmt_alternatives :: "assessment_alternative list"
  asmt_source_count :: int
  asmt_is_corroborated :: bool
  asmt_disposition :: string
  asmt_hash :: digest
  asmt_created_at :: datetime

definition investigation_assessment_post_init :: "investigation_assessment \<Rightarrow> unit result" where
  "investigation_assessment_post_init a = checks
     [positive_version (asmt_based_on_case_version a),
      unique (map finding_fact_id (asmt_findings a)) ''finding fact IDs'',
      (asmt_source_count a < 0, ValueError ''independent_source_count cannot be negative''),
      (asmt_is_corroborated a \<noteq> (2 \<le> asmt_source_count a),
       ValueError ''corroboration flag disagrees with independent source count''),
      utc_check (asmt_created_at a)]"

definition contradicted_fact_ids :: "investigation_assessment \<Rightarrow> fact_id list" where
  "contradicted_fact_ids a =
     sort (remdups (concat (map contra_fact_ids (asmt_contradictions a))))"

definition blocking_contradiction :: "investigation_assessment \<Rightarrow> bool" where
  "blocking_contradiction a \<longleftrightarrow>
     list_ex (\<lambda>c. contra_materiality c \<in> {MEDIUM, HIGH}) (asmt_contradictions a)"

section \<open>Proposals and approvals\<close>

record action_claim =
  claim_id :: uuid
  claim_text :: string
  claim_export_fact_ids :: "uuid list"
  claim_hash :: digest

definition citations :: "uuid list \<Rightarrow> string \<Rightarrow> (bool \<times> error) list" where
  "citations ids name =
     [(\<not> (1 \<le> length ids \<and> length ids \<le> 10), ValueError (name @ '' must contain 1 to 10 fact IDs'')),
      (sort ids \<noteq> ids, ValueError (name @ '' must be sorted'')), unique ids name]"

definition action_claim_post_init :: "action_claim \<Rightarrow> unit result" where
  "action_claim_post_init c = checks
     (bounded (claim_text c) 1 500 ''claim text'' # citations (claim_export_fact_ids c) ''claim citations'')"

record action_caveat =
  caveat_id :: uuid
  caveat_text :: string
  caveat_export_fact_ids :: "uuid list"
  caveat_hash :: digest

definition action_caveat_post_init :: "action_caveat \<Rightarrow> unit result" where
  "action_caveat_post_init c = checks
     (bounded (caveat_text c) 1 500 ''caveat text'' # citations (caveat_export_fact_ids c) ''caveat citations'')"

record action_proposal =
  prop_action_id :: action_id
  prop_case_id :: case_id
  prop_case_version :: int
  prop_authorization_version :: int
  prop_view_id :: view_id
  prop_view_hash :: digest
  prop_subject :: string
  prop_claims :: "action_claim list"
  prop_requested_action :: string
  prop_requested_deadline :: "datetime option"
  prop_request_fact_ids :: "uuid list"
  prop_caveats :: "action_caveat list"
  prop_tone :: action_tone
  prop_invocation_id :: uuid
  prop_prompt_version :: string
  prop_preview_hash :: digest
  prop_hash :: digest
  prop_status :: action_proposal_status
  prop_created_at :: datetime

definition action_proposal_post_init :: "action_proposal \<Rightarrow> unit result" where
  "action_proposal_post_init p = checks
     ([positive_version (prop_case_version p), positive_version (prop_authorization_version p),
       bounded (prop_subject p) 1 120 ''subject'',
       bounded (prop_requested_action p) 1 500 ''requested_action'',
       (\<not> (1 \<le> length (prop_claims p) \<and> length (prop_claims p) \<le> 12),
        ValueError ''a proposal carries 1 to 12 claims''),
       (8 < length (prop_caveats p), ValueError ''a proposal carries at most 8 caveats''),
       unique (map claim_id (prop_claims p)) ''claim IDs'',
       unique (map caveat_id (prop_caveats p)) ''caveat IDs''] @
      citations (prop_request_fact_ids p) ''request citations'' @
      [utc_check_opt (prop_requested_deadline p), utc_check (prop_created_at p)])"

record approval =
  appr_id :: approval_id
  appr_namespace :: namespace
  appr_community_id :: community_id
  appr_case_id :: case_id
  appr_action_id :: action_id
  appr_execution_id :: execution_id
  appr_proposal_hash :: digest
  appr_view_hash :: digest
  appr_authorization_version :: int
  appr_approver_id_hash :: digest
  appr_assurance :: approver_assurance
  appr_decision :: approval_decision
  appr_approved_at :: datetime
  appr_expires_at :: datetime
  appr_hash :: digest
  appr_request_key_hash :: digest
  appr_version :: int
  appr_created_at :: datetime
  appr_updated_at :: datetime

definition approval_post_init :: "approval \<Rightarrow> unit result" where
  "approval_post_init a = checks
     ([utc_check (appr_approved_at a), utc_check (appr_expires_at a),
       (instant (appr_expires_at a) \<le> instant (appr_approved_at a),
        ValueError ''approval expiry must be after decision''),
       positive_version (appr_authorization_version a), positive_version (appr_version a)] @
      timestamps (appr_created_at a) (appr_updated_at a))"

end
