(* ===== verification/Executions.thy ===== *)
theory Executions
  imports Entities
begin

text \<open>
  \<open>ActionExecution\<close>, its normative presence table, and \<open>Commitment\<close>
  (\<open>src/chorus/domain/entities.py\<close>). The table is a function of the field and the state, so a
  missing cell is impossible; \<open>field_value\<close> is \<open>getattr(self, name)\<close>.
\<close>

section \<open>Action executions\<close>

record action_execution =
  exec_id :: execution_id
  exec_action_id :: action_id
  exec_case_id :: case_id
  exec_approval_id :: "approval_id option"
  exec_proposal_hash :: digest
  exec_view_hash :: digest
  exec_idempotency_key :: "string option"
  exec_state :: execution_state
  exec_claim_owner_hash :: "digest option"
  exec_rendered_message_hash :: "digest option"
  exec_ses_request_token_hash :: "digest option"
  exec_ses_message_id :: "string option"
  exec_started_at :: "datetime option"
  exec_finished_at :: "datetime option"
  exec_failure_code :: "string option"
  exec_failure_detail_safe :: "string option"
  exec_reconciled_at :: "datetime option"
  exec_version :: int
  exec_created_at :: datetime
  exec_updated_at :: datetime
  exec_attempt_number :: int

datatype execution_field =
    XF_approval_id | XF_idempotency_key | XF_claim_owner_hash | XF_ses_request_token_hash
  | XF_rendered_message_hash | XF_started_at | XF_ses_message_id | XF_finished_at
  | XF_failure_code | XF_failure_detail_safe | XF_reconciled_at

fun EXECUTION_FIELD_PRESENCE :: "execution_field \<Rightarrow> execution_state \<Rightarrow> field_presence" where
  "EXECUTION_FIELD_PRESENCE XF_approval_id s = (case s of
     EX_DRAFT \<Rightarrow> ABSENT_FIELD | EX_APPROVED \<Rightarrow> REQUIRED_FIELD | EX_SENDING \<Rightarrow> REQUIRED_FIELD
   | EX_SENT \<Rightarrow> REQUIRED_FIELD | EX_FAILED \<Rightarrow> OPTIONAL_FIELD | EX_SEND_UNKNOWN \<Rightarrow> REQUIRED_FIELD)"
| "EXECUTION_FIELD_PRESENCE XF_idempotency_key s = (case s of
     EX_DRAFT \<Rightarrow> ABSENT_FIELD | EX_APPROVED \<Rightarrow> REQUIRED_FIELD | EX_SENDING \<Rightarrow> REQUIRED_FIELD
   | EX_SENT \<Rightarrow> REQUIRED_FIELD | EX_FAILED \<Rightarrow> OPTIONAL_FIELD | EX_SEND_UNKNOWN \<Rightarrow> REQUIRED_FIELD)"
| "EXECUTION_FIELD_PRESENCE XF_claim_owner_hash s = (case s of
     EX_DRAFT \<Rightarrow> ABSENT_FIELD | EX_APPROVED \<Rightarrow> ABSENT_FIELD | EX_SENDING \<Rightarrow> REQUIRED_FIELD
   | EX_SENT \<Rightarrow> REQUIRED_FIELD | EX_FAILED \<Rightarrow> OPTIONAL_FIELD | EX_SEND_UNKNOWN \<Rightarrow> REQUIRED_FIELD)"
| "EXECUTION_FIELD_PRESENCE XF_ses_request_token_hash s = (case s of
     EX_DRAFT \<Rightarrow> ABSENT_FIELD | EX_APPROVED \<Rightarrow> ABSENT_FIELD | EX_SENDING \<Rightarrow> REQUIRED_FIELD
   | EX_SENT \<Rightarrow> REQUIRED_FIELD | EX_FAILED \<Rightarrow> OPTIONAL_FIELD | EX_SEND_UNKNOWN \<Rightarrow> REQUIRED_FIELD)"
| "EXECUTION_FIELD_PRESENCE XF_rendered_message_hash s = (case s of
     EX_DRAFT \<Rightarrow> ABSENT_FIELD | EX_APPROVED \<Rightarrow> ABSENT_FIELD | EX_SENDING \<Rightarrow> REQUIRED_FIELD
   | EX_SENT \<Rightarrow> REQUIRED_FIELD | EX_FAILED \<Rightarrow> OPTIONAL_FIELD | EX_SEND_UNKNOWN \<Rightarrow> REQUIRED_FIELD)"
| "EXECUTION_FIELD_PRESENCE XF_started_at s = (case s of
     EX_DRAFT \<Rightarrow> ABSENT_FIELD | EX_APPROVED \<Rightarrow> ABSENT_FIELD | EX_SENDING \<Rightarrow> REQUIRED_FIELD
   | EX_SENT \<Rightarrow> REQUIRED_FIELD | EX_FAILED \<Rightarrow> OPTIONAL_FIELD | EX_SEND_UNKNOWN \<Rightarrow> REQUIRED_FIELD)"
| "EXECUTION_FIELD_PRESENCE XF_ses_message_id s = (case s of
     EX_DRAFT \<Rightarrow> ABSENT_FIELD | EX_APPROVED \<Rightarrow> ABSENT_FIELD | EX_SENDING \<Rightarrow> ABSENT_FIELD
   | EX_SENT \<Rightarrow> REQUIRED_FIELD | EX_FAILED \<Rightarrow> ABSENT_FIELD | EX_SEND_UNKNOWN \<Rightarrow> OPTIONAL_FIELD)"
| "EXECUTION_FIELD_PRESENCE XF_finished_at s = (case s of
     EX_DRAFT \<Rightarrow> ABSENT_FIELD | EX_APPROVED \<Rightarrow> ABSENT_FIELD | EX_SENDING \<Rightarrow> ABSENT_FIELD
   | EX_SENT \<Rightarrow> REQUIRED_FIELD | EX_FAILED \<Rightarrow> REQUIRED_FIELD | EX_SEND_UNKNOWN \<Rightarrow> REQUIRED_FIELD)"
| "EXECUTION_FIELD_PRESENCE XF_failure_code s = (case s of
     EX_DRAFT \<Rightarrow> ABSENT_FIELD | EX_APPROVED \<Rightarrow> ABSENT_FIELD | EX_SENDING \<Rightarrow> ABSENT_FIELD
   | EX_SENT \<Rightarrow> ABSENT_FIELD | EX_FAILED \<Rightarrow> REQUIRED_FIELD | EX_SEND_UNKNOWN \<Rightarrow> ABSENT_FIELD)"
| "EXECUTION_FIELD_PRESENCE XF_failure_detail_safe s = (case s of
     EX_DRAFT \<Rightarrow> ABSENT_FIELD | EX_APPROVED \<Rightarrow> ABSENT_FIELD | EX_SENDING \<Rightarrow> ABSENT_FIELD
   | EX_SENT \<Rightarrow> ABSENT_FIELD | EX_FAILED \<Rightarrow> OPTIONAL_FIELD | EX_SEND_UNKNOWN \<Rightarrow> ABSENT_FIELD)"
| "EXECUTION_FIELD_PRESENCE XF_reconciled_at s = (case s of
     EX_DRAFT \<Rightarrow> ABSENT_FIELD | EX_APPROVED \<Rightarrow> ABSENT_FIELD | EX_SENDING \<Rightarrow> ABSENT_FIELD
   | EX_SENT \<Rightarrow> OPTIONAL_FIELD | EX_FAILED \<Rightarrow> ABSENT_FIELD | EX_SEND_UNKNOWN \<Rightarrow> OPTIONAL_FIELD)"

text \<open>The rows in the order of the table.\<close>

definition execution_fields :: "execution_field list" where
  "execution_fields =
     [XF_approval_id, XF_idempotency_key, XF_claim_owner_hash, XF_ses_request_token_hash,
      XF_rendered_message_hash, XF_started_at, XF_ses_message_id, XF_finished_at,
      XF_failure_code, XF_failure_detail_safe, XF_reconciled_at]"

lemma execution_fields_all: "f \<in> set execution_fields"
  by (cases f) (simp_all add: execution_fields_def)

datatype field_content =
  VApproval approval_id | VText string | VDigest digest | VInstant datetime

fun field_value :: "execution_field \<Rightarrow> action_execution \<Rightarrow> field_content option" where
  "field_value XF_approval_id x = map_option VApproval (exec_approval_id x)"
| "field_value XF_idempotency_key x = map_option VText (exec_idempotency_key x)"
| "field_value XF_claim_owner_hash x = map_option VDigest (exec_claim_owner_hash x)"
| "field_value XF_ses_request_token_hash x = map_option VDigest (exec_ses_request_token_hash x)"
| "field_value XF_rendered_message_hash x = map_option VDigest (exec_rendered_message_hash x)"
| "field_value XF_started_at x = map_option VInstant (exec_started_at x)"
| "field_value XF_ses_message_id x = map_option VText (exec_ses_message_id x)"
| "field_value XF_finished_at x = map_option VInstant (exec_finished_at x)"
| "field_value XF_failure_code x = map_option VText (exec_failure_code x)"
| "field_value XF_failure_detail_safe x = map_option VText (exec_failure_detail_safe x)"
| "field_value XF_reconciled_at x = map_option VInstant (exec_reconciled_at x)"

definition require_state_presence :: "action_execution \<Rightarrow> (bool \<times> error) list" where
  "require_state_presence x =
     concat (map (\<lambda>f. let presence = EXECUTION_FIELD_PRESENCE f (exec_state x);
                           present = field_value f x \<noteq> None in
       [(presence = REQUIRED_FIELD \<and> \<not> present, ValueError ''field is required in this state''),
        (presence = ABSENT_FIELD \<and> present, ValueError ''field cannot be set in this state'')])
     execution_fields)"

definition action_execution_post_init :: "action_execution \<Rightarrow> unit result" where
  "action_execution_post_init x = checks
     ([(exec_attempt_number x \<noteq> 1, ValueError ''V1 permits exactly one send attempt''),
       utc_check_opt (exec_started_at x), utc_check_opt (exec_finished_at x),
       utc_check_opt (exec_reconciled_at x), positive_version (exec_version x)] @
      timestamps (exec_created_at x) (exec_updated_at x) @ require_state_presence x)"

text \<open>A constructed execution satisfies the whole table.\<close>

lemma post_init_presence:
  assumes "action_execution_post_init x = Inr ()"
  shows "EXECUTION_FIELD_PRESENCE f (exec_state x) = REQUIRED_FIELD \<Longrightarrow> field_value f x \<noteq> None"
    and "EXECUTION_FIELD_PRESENCE f (exec_state x) = ABSENT_FIELD \<Longrightarrow> field_value f x = None"
proof -
  have p: "list_all (\<lambda>c. \<not> fst c) (require_state_presence x)"
    using assms by (simp add: action_execution_post_init_def result_simps)
  then have "\<forall>g\<in>set execution_fields.
      \<not> (EXECUTION_FIELD_PRESENCE g (exec_state x) = REQUIRED_FIELD \<and> field_value g x = None) \<and>
      \<not> (EXECUTION_FIELD_PRESENCE g (exec_state x) = ABSENT_FIELD \<and> field_value g x \<noteq> None)"
    by (auto simp: require_state_presence_def list_all_iff Let_def)
  then show "EXECUTION_FIELD_PRESENCE f (exec_state x) = REQUIRED_FIELD \<Longrightarrow> field_value f x \<noteq> None"
    and "EXECUTION_FIELD_PRESENCE f (exec_state x) = ABSENT_FIELD \<Longrightarrow> field_value f x = None"
    using execution_fields_all by auto
qed

section \<open>Commitments\<close>

record commitment =
  com_id :: commitment_id
  com_case_id :: case_id
  com_action_id :: "action_id option"
  com_source_evidence_id :: evidence_item_id
  com_obligor :: string
  com_action_text :: string
  com_due_at :: datetime
  com_verification_method :: string
  com_status :: commitment_status
  com_scheduler_name :: string
  com_schedule_generation :: int
  com_due_event_id :: uuid
  com_verified_by :: "contributor_id option"
  com_verification_evidence_id :: "evidence_item_id option"
  com_outcome_note :: "string option"
  com_version :: int
  com_created_at :: datetime
  com_updated_at :: datetime

definition commitment_post_init :: "commitment \<Rightarrow> unit result" where
  "commitment_post_init c = checks
     ([bounded (com_obligor c) 1 120 ''obligor'', bounded (com_action_text c) 1 500 ''action_text'',
       bounded (com_verification_method c) 1 300 ''verification_method'', utc_check (com_due_at c),
       (com_schedule_generation c < 1, ValueError ''schedule_generation must be positive''),
       positive_version (com_version c)] @
      timestamps (com_created_at c) (com_updated_at c))"

end
