(* ===== verification/Lifecycle.thy ===== *)
theory Lifecycle
  imports Versioned Executions
begin

text \<open>
  \<open>src/chorus/domain/state.py\<close>: the edge tables, the case guards and the three transition
  services. Each service is one function of the entity and a command record that holds its keyword
  arguments; each satisfies the contract \<open>versioned\<close>.
\<close>

section \<open>Case transitions\<close>

definition CASE_EDGES :: "(case_state \<times> case_state) list" where
  "CASE_EDGES =
     [(CANDIDATE, AWAITING_MANDATES), (CANDIDATE, CLOSED_UNRESOLVED),
      (AWAITING_MANDATES, INVESTIGATING), (AWAITING_MANDATES, CLOSED_UNRESOLVED),
      (INVESTIGATING, READY_FOR_ACTION), (INVESTIGATING, CLOSED_UNRESOLVED),
      (READY_FOR_ACTION, INVESTIGATING), (READY_FOR_ACTION, ACTION_PROPOSED),
      (READY_FOR_ACTION, CLOSED_UNRESOLVED), (ACTION_PROPOSED, READY_FOR_ACTION),
      (ACTION_PROPOSED, INVESTIGATING), (ACTION_PROPOSED, ACTIONED),
      (ACTION_PROPOSED, CLOSED_UNRESOLVED), (ACTIONED, VERIFYING), (ACTIONED, READY_FOR_ACTION),
      (ACTIONED, CLOSED_UNRESOLVED), (VERIFYING, RESOLVED), (VERIFYING, READY_FOR_ACTION),
      (VERIFYING, CLOSED_UNRESOLVED), (RESOLVED, INVESTIGATING), (CLOSED_UNRESOLVED, INVESTIGATING)]"

definition AUTHORIZATION_SENSITIVE_CASE_EDGES :: "(case_state \<times> case_state) list" where
  "AUTHORIZATION_SENSITIVE_CASE_EDGES =
     [(CANDIDATE, AWAITING_MANDATES), (AWAITING_MANDATES, INVESTIGATING),
      (INVESTIGATING, READY_FOR_ACTION), (READY_FOR_ACTION, INVESTIGATING),
      (ACTION_PROPOSED, INVESTIGATING)]"

record case_transition_context =
  tc_actor_is_human :: bool
  tc_candidate_accepted :: bool
  tc_mandate_proposals_for_all :: bool
  tc_any_mandate_decision :: bool
  tc_reports_retained :: bool
  tc_validated_assessment :: bool
  tc_independent_source_count :: int
  tc_no_material_different_issue :: bool
  tc_has_compilable_purpose :: bool
  tc_readiness_lost :: bool
  tc_current_view_and_proposal_match :: bool
  tc_proposal_invalidated :: bool
  tc_readiness_remains :: bool
  tc_execution_sent :: bool
  tc_approval_consumed :: bool
  tc_commitment_or_verification_exists :: bool
  tc_another_action_needed :: bool
  tc_affected_contributor_verified :: bool
  tc_commitment_missed :: bool
  tc_fixed_close_reason :: bool
  tc_active_sending_execution :: bool
  tc_new_evidence :: bool
  tc_explicit_reopen :: bool

text \<open>The defaults of the dataclass.\<close>

definition default_context :: case_transition_context where
  "default_context =
     \<lparr>tc_actor_is_human = False, tc_candidate_accepted = False, tc_mandate_proposals_for_all = False,
      tc_any_mandate_decision = False, tc_reports_retained = False, tc_validated_assessment = False,
      tc_independent_source_count = 0, tc_no_material_different_issue = False,
      tc_has_compilable_purpose = False, tc_readiness_lost = False,
      tc_current_view_and_proposal_match = False, tc_proposal_invalidated = False,
      tc_readiness_remains = False, tc_execution_sent = False, tc_approval_consumed = False,
      tc_commitment_or_verification_exists = False, tc_another_action_needed = False,
      tc_affected_contributor_verified = False, tc_commitment_missed = False,
      tc_fixed_close_reason = False, tc_active_sending_execution = False, tc_new_evidence = False,
      tc_explicit_reopen = False\<rparr>"

definition case_guard :: "case_state \<Rightarrow> case_state \<Rightarrow> case_transition_context \<Rightarrow> bool" where
  "case_guard source target cx =
     (if target = CLOSED_UNRESOLVED
      then tc_actor_is_human cx \<and> tc_fixed_close_reason cx \<and> \<not> tc_active_sending_execution cx
      else if (source, target) = (CANDIDATE, AWAITING_MANDATES)
      then tc_candidate_accepted cx \<and> tc_mandate_proposals_for_all cx
      else if (source, target) = (AWAITING_MANDATES, INVESTIGATING)
      then tc_any_mandate_decision cx \<and> tc_reports_retained cx
      else if (source, target) = (INVESTIGATING, READY_FOR_ACTION)
      then tc_validated_assessment cx \<and> 2 \<le> tc_independent_source_count cx \<and>
           tc_no_material_different_issue cx \<and> tc_has_compilable_purpose cx
      else if target = INVESTIGATING \<and> source \<in> {READY_FOR_ACTION, ACTION_PROPOSED}
      then tc_readiness_lost cx
      else if (source, target) = (READY_FOR_ACTION, ACTION_PROPOSED)
      then tc_current_view_and_proposal_match cx
      else if (source, target) = (ACTION_PROPOSED, READY_FOR_ACTION)
      then tc_proposal_invalidated cx \<and> tc_readiness_remains cx
      else if (source, target) = (ACTION_PROPOSED, ACTIONED)
      then tc_execution_sent cx \<and> tc_approval_consumed cx
      else if (source, target) = (ACTIONED, VERIFYING)
      then tc_commitment_or_verification_exists cx
      else if (source, target) = (ACTIONED, READY_FOR_ACTION)
      then tc_another_action_needed cx
      else if (source, target) = (VERIFYING, RESOLVED)
      then tc_actor_is_human cx \<and> tc_affected_contributor_verified cx
      else if (source, target) = (VERIFYING, READY_FOR_ACTION)
      then tc_actor_is_human cx \<and> tc_commitment_missed cx
      else if source \<in> {RESOLVED, CLOSED_UNRESOLVED}
      then tc_actor_is_human cx \<and> tc_new_evidence cx \<and> tc_explicit_reopen cx
      else False)"

record case_command =
  cc_target :: case_state
  cc_expected_version :: int
  cc_reason_code :: string
  cc_now :: datetime
  cc_context :: case_transition_context

definition case_ref :: "community_case \<Rightarrow> string" where
  "case_ref c = ident_str (case_case_id c)"

definition transition_case :: "community_case \<Rightarrow> case_command \<Rightarrow> community_case result" where
  "transition_case c cmd =
     bindE (require_utc (cc_now cmd)) (\<lambda>_.
       let target = cc_target cmd; edge = (case_current_state c, target) in
       if case_version c \<noteq> cc_expected_version cmd \<or> edge \<notin> set CASE_EDGES \<or>
          \<not> case_guard (case_current_state c) target (cc_context cmd)
       then Inl (StateTransitionError (case_ref c))
       else
         let authorization_bump = (if edge \<in> set AUTHORIZATION_SENSITIVE_CASE_EDGES then 1 else 0) in
         validated community_case_post_init
           (c\<lparr>case_current_state := target,
              case_reason_code := cc_reason_code cmd,
              case_version := case_version c + 1,
              case_authorization_version := case_authorization_version c + authorization_bump,
              case_updated_at := cc_now cmd,
              case_resolved_at := (if target = RESOLVED then Some (cc_now cmd) else case_resolved_at c),
              case_closed_at := (if target = CLOSED_UNRESOLVED then Some (cc_now cmd) else case_closed_at c)\<rparr>))"

definition case_edge_bumps_authorization :: "case_state \<Rightarrow> case_state \<Rightarrow> bool" where
  "case_edge_bumps_authorization source target \<longleftrightarrow>
     (source, target) \<in> set AUTHORIZATION_SENSITIVE_CASE_EDGES"

definition MANDATE_MUTABLE_CASE_STATES :: "case_state list" where
  "MANDATE_MUTABLE_CASE_STATES =
     [CANDIDATE, AWAITING_MANDATES, INVESTIGATING, READY_FOR_ACTION, ACTION_PROPOSED, ACTIONED, VERIFYING]"

definition bump_case_authorization ::
    "community_case \<Rightarrow> int \<Rightarrow> string \<Rightarrow> datetime \<Rightarrow> community_case result" where
  "bump_case_authorization c expected_version reason_code now =
     bindE (require_utc now) (\<lambda>_.
       if case_version c \<noteq> expected_version \<or> case_current_state c \<notin> set MANDATE_MUTABLE_CASE_STATES
       then Inl (StateTransitionError (case_ref c))
       else validated community_case_post_init
         (c\<lparr>case_reason_code := reason_code, case_version := case_version c + 1,
            case_authorization_version := case_authorization_version c + 1,
            case_updated_at := now\<rparr>))"

text \<open>What a successful transition establishes; every later fact about cases uses these.\<close>

lemma transition_caseD:
  assumes "transition_case c cmd = Inr d"
  shows "case_version c = cc_expected_version cmd"
    and "(case_current_state c, cc_target cmd) \<in> set CASE_EDGES"
    and "case_guard (case_current_state c) (cc_target cmd) (cc_context cmd)"
    and "case_current_state d = cc_target cmd"
    and "case_version d = case_version c + 1"
    and "case_authorization_version d = case_authorization_version c +
           (if case_edge_bumps_authorization (case_current_state c) (cc_target cmd) then 1 else 0)"
    and "community_case_post_init d = Inr ()"
    and "is_utc (cc_now cmd)"
  using assms
  by (auto simp: transition_case_def result_simps Let_def case_edge_bumps_authorization_def split: if_splits)

lemma transition_case_frame:
  assumes "transition_case c cmd = Inr d"
  shows "case_case_id d = case_case_id c" "case_community_id d = case_community_id c"
    "case_namespace d = case_namespace c" "case_report_ids d = case_report_ids c"
    "case_fact_ids d = case_fact_ids c" "case_corroboration_count d = case_corroboration_count c"
    "case_current_view_id d = case_current_view_id c" "case_current_action_id d = case_current_action_id c"
  using assms by (auto simp: transition_case_def result_simps Let_def split: if_splits)

definition case_edge :: "case_state \<Rightarrow> case_state \<Rightarrow> bool" where
  "case_edge a b \<longleftrightarrow> (a, b) \<in> set CASE_EDGES"

interpretation case_machine: versioned
    transition_case case_version case_current_state cc_expected_version cc_target case_edge
  by unfold_locales (simp_all add: case_edge_def transition_caseD)

abbreviation case_run :: "community_case \<Rightarrow> case_command list \<Rightarrow> community_case result" where
  "case_run \<equiv> run transition_case"

lemma case_edge_cases:
  "case_edge a b \<longleftrightarrow>
     (case a of
        CANDIDATE \<Rightarrow> b \<in> {AWAITING_MANDATES, CLOSED_UNRESOLVED}
      | AWAITING_MANDATES \<Rightarrow> b \<in> {INVESTIGATING, CLOSED_UNRESOLVED}
      | INVESTIGATING \<Rightarrow> b \<in> {READY_FOR_ACTION, CLOSED_UNRESOLVED}
      | READY_FOR_ACTION \<Rightarrow> b \<in> {INVESTIGATING, ACTION_PROPOSED, CLOSED_UNRESOLVED}
      | ACTION_PROPOSED \<Rightarrow> b \<in> {READY_FOR_ACTION, INVESTIGATING, ACTIONED, CLOSED_UNRESOLVED}
      | ACTIONED \<Rightarrow> b \<in> {VERIFYING, READY_FOR_ACTION, CLOSED_UNRESOLVED}
      | VERIFYING \<Rightarrow> b \<in> {RESOLVED, READY_FOR_ACTION, CLOSED_UNRESOLVED}
      | RESOLVED \<Rightarrow> b = INVESTIGATING
      | CLOSED_UNRESOLVED \<Rightarrow> b = INVESTIGATING)"
  by (cases a) (auto simp: case_edge_def CASE_EDGES_def)

text \<open>The authorization epoch counts the sensitive edges of a run, and never passes the version.\<close>

lemma case_step_epoch:
  "transition_case c cmd = Inr d \<Longrightarrow>
     case_authorization_version c \<le> case_authorization_version d \<and>
     case_authorization_version d - case_authorization_version c \<le> case_version d - case_version c"
  by (frule transition_caseD(5), frule transition_caseD(6)) simp

lemma case_run_epoch:
  "case_run c cmds = Inr d \<Longrightarrow>
     case_authorization_version c \<le> case_authorization_version d \<and>
     case_authorization_version d - case_authorization_version c \<le> case_version d - case_version c"
proof (induction cmds arbitrary: c)
  case (Cons cmd cmds)
  then obtain e where "transition_case c cmd = Inr e" "case_run e cmds = Inr d"
    by (auto simp: result_simps)
  with Cons.IH [of e] case_step_epoch [of c cmd e] show ?case by simp
qed simp

section \<open>Action executions\<close>

definition ACTION_EXECUTION_EDGES :: "(execution_state \<times> execution_state) list" where
  "ACTION_EXECUTION_EDGES =
     [(EX_DRAFT, EX_APPROVED), (EX_DRAFT, EX_FAILED), (EX_APPROVED, EX_SENDING),
      (EX_APPROVED, EX_FAILED), (EX_SENDING, EX_SENT), (EX_SENDING, EX_FAILED),
      (EX_SENDING, EX_SEND_UNKNOWN), (EX_SEND_UNKNOWN, EX_SENT), (EX_SEND_UNKNOWN, EX_FAILED)]"

record execution_command =
  xc_target :: execution_state
  xc_expected_version :: int
  xc_now :: datetime
  xc_reconciliation_proof :: bool
  xc_approval_id :: "approval_id option"
  xc_idempotency_key :: "string option"
  xc_claim_owner_hash :: "digest option"
  xc_rendered_message_hash :: "digest option"
  xc_ses_request_token_hash :: "digest option"
  xc_ses_message_id :: "string option"
  xc_started_at :: "datetime option"
  xc_finished_at :: "datetime option"
  xc_failure_code :: "string option"
  xc_failure_detail_safe :: "string option"
  xc_reconciled_at :: "datetime option"

text \<open>\<open>None\<close> leaves a field as it was.\<close>

fun supplied :: "'a option \<Rightarrow> 'a option \<Rightarrow> 'a option" where
  "supplied None old = old"
| "supplied (Some v) old = Some v"

definition execution_ref :: "action_execution \<Rightarrow> string" where
  "execution_ref x = ident_str (exec_id x)"

definition require_monotonic_presence :: "action_execution \<Rightarrow> action_execution \<Rightarrow> unit result" where
  "require_monotonic_presence before after =
     checks (map (\<lambda>f. (field_value f before \<noteq> None \<and> field_value f after \<noteq> field_value f before,
                        StateTransitionError (execution_ref before))) execution_fields)"

definition move_execution :: "action_execution \<Rightarrow> execution_command \<Rightarrow> action_execution" where
  "move_execution x cmd =
     x\<lparr>exec_state := xc_target cmd,
       exec_version := exec_version x + 1,
       exec_updated_at := xc_now cmd,
       exec_approval_id := supplied (xc_approval_id cmd) (exec_approval_id x),
       exec_idempotency_key := supplied (xc_idempotency_key cmd) (exec_idempotency_key x),
       exec_claim_owner_hash := supplied (xc_claim_owner_hash cmd) (exec_claim_owner_hash x),
       exec_rendered_message_hash := supplied (xc_rendered_message_hash cmd) (exec_rendered_message_hash x),
       exec_ses_request_token_hash := supplied (xc_ses_request_token_hash cmd) (exec_ses_request_token_hash x),
       exec_ses_message_id := supplied (xc_ses_message_id cmd) (exec_ses_message_id x),
       exec_started_at := supplied (xc_started_at cmd) (exec_started_at x),
       exec_finished_at := supplied (xc_finished_at cmd) (exec_finished_at x),
       exec_failure_code := supplied (xc_failure_code cmd) (exec_failure_code x),
       exec_failure_detail_safe := supplied (xc_failure_detail_safe cmd) (exec_failure_detail_safe x),
       exec_reconciled_at := supplied (xc_reconciled_at cmd) (exec_reconciled_at x)\<rparr>"

definition transition_action_execution ::
    "action_execution \<Rightarrow> execution_command \<Rightarrow> action_execution result" where
  "transition_action_execution x cmd =
     bindE (require_utc (xc_now cmd)) (\<lambda>_.
       let edge = (exec_state x, xc_target cmd);
           is_reconciliation = (exec_state x = EX_SEND_UNKNOWN) in
       if exec_version x \<noteq> xc_expected_version cmd \<or> edge \<notin> set ACTION_EXECUTION_EDGES \<or>
          (is_reconciliation \<and> \<not> xc_reconciliation_proof cmd)
       then Inl (StateTransitionError (execution_ref x))
       else
         bindE (validated action_execution_post_init (move_execution x cmd)) (\<lambda>moved.
           bindE (require_monotonic_presence x moved) (\<lambda>_. Inr moved)))"

lemma require_monotonic_presence_iff:
  "require_monotonic_presence b a = Inr () \<longleftrightarrow>
     (\<forall>f. field_value f b \<noteq> None \<longrightarrow> field_value f a = field_value f b)"
proof -
  have "require_monotonic_presence b a = Inr () \<longleftrightarrow>
      (\<forall>f\<in>set execution_fields. field_value f b \<noteq> None \<longrightarrow> field_value f a = field_value f b)"
    by (auto simp: require_monotonic_presence_def result_simps list_all_iff)
  then show ?thesis using execution_fields_all by blast
qed

lemma transition_action_executionD:
  assumes "transition_action_execution x cmd = Inr y"
  shows "exec_version x = xc_expected_version cmd"
    and "(exec_state x, exec_state y) \<in> set ACTION_EXECUTION_EDGES"
    and "exec_state y = xc_target cmd"
    and "exec_version y = exec_version x + 1"
    and "action_execution_post_init y = Inr ()"
    and "exec_state x = EX_SEND_UNKNOWN \<Longrightarrow> xc_reconciliation_proof cmd"
    and "field_value f x \<noteq> None \<Longrightarrow> field_value f y = field_value f x"
    and "y = move_execution x cmd"
  using assms
  by (auto simp: transition_action_execution_def result_simps Let_def require_monotonic_presence_iff
      move_execution_def split: if_splits)

definition execution_edge :: "execution_state \<Rightarrow> execution_state \<Rightarrow> bool" where
  "execution_edge a b \<longleftrightarrow> (a, b) \<in> set ACTION_EXECUTION_EDGES"

interpretation execution_machine: versioned
    transition_action_execution exec_version exec_state xc_expected_version xc_target execution_edge
  by unfold_locales (auto simp: execution_edge_def dest: transition_action_executionD)

abbreviation execution_run :: "action_execution \<Rightarrow> execution_command list \<Rightarrow> action_execution result" where
  "execution_run \<equiv> run transition_action_execution"

fun execution_rank :: "execution_state \<Rightarrow> nat" where
  "execution_rank EX_DRAFT = 0"
| "execution_rank EX_APPROVED = 1"
| "execution_rank EX_SENDING = 2"
| "execution_rank EX_SEND_UNKNOWN = 3"
| "execution_rank EX_SENT = 4"
| "execution_rank EX_FAILED = 4"

lemma execution_edge_rank: "execution_edge a b \<Longrightarrow> execution_rank a < execution_rank b"
  by (auto simp: execution_edge_def ACTION_EXECUTION_EDGES_def)

lemma execution_run_field:
  "execution_run x cmds = Inr y \<Longrightarrow> field_value f x \<noteq> None \<Longrightarrow> field_value f y = field_value f x"
proof (induction cmds arbitrary: x)
  case (Cons cmd cmds)
  then obtain z where z: "transition_action_execution x cmd = Inr z" "execution_run z cmds = Inr y"
    by (auto simp: result_simps)
  have "field_value f z = field_value f x" by (rule transition_action_executionD(7) [OF z(1) Cons.prems(2)])
  with Cons.IH [OF z(2)] Cons.prems(2) show ?case by simp
qed simp

lemma execution_run_valid:
  "action_execution_post_init x = Inr () \<Longrightarrow> execution_run x cmds = Inr y \<Longrightarrow> action_execution_post_init y = Inr ()"
  by (rule run_invariant [where I = "\<lambda>x. action_execution_post_init x = Inr ()"])
    (auto dest: transition_action_executionD(5))

section \<open>Commitments\<close>

definition COMMITMENT_EDGES :: "(commitment_status \<times> commitment_status) list" where
  "COMMITMENT_EDGES =
     [(CM_PENDING, CM_DUE), (CM_PENDING, CM_CANCELLED), (CM_DUE, CM_FULFILLED), (CM_DUE, CM_MISSED),
      (CM_DUE, CM_CANCELLED)]"

definition HUMAN_ONLY_COMMITMENT_STATUSES :: "commitment_status list" where
  "HUMAN_ONLY_COMMITMENT_STATUSES = [CM_FULFILLED, CM_MISSED, CM_CANCELLED]"

record commitment_command =
  mc_target :: commitment_status
  mc_expected_version :: int
  mc_now :: datetime
  mc_actor_is_human :: bool
  mc_verified_by :: "contributor_id option"
  mc_verification_evidence_id :: "evidence_item_id option"
  mc_outcome_note :: "string option"

definition commitment_ref :: "commitment \<Rightarrow> string" where
  "commitment_ref c = ident_str (com_id c)"

definition transition_commitment :: "commitment \<Rightarrow> commitment_command \<Rightarrow> commitment result" where
  "transition_commitment c cmd =
     bindE (require_utc (mc_now cmd)) (\<lambda>_.
       let target = mc_target cmd; edge = (com_status c, target) in
       if com_version c \<noteq> mc_expected_version cmd \<or> edge \<notin> set COMMITMENT_EDGES \<or>
          (target \<in> set HUMAN_ONLY_COMMITMENT_STATUSES \<and> \<not> mc_actor_is_human cmd)
       then Inl (StateTransitionError (commitment_ref c))
       else validated commitment_post_init
         (c\<lparr>com_status := target, com_version := com_version c + 1, com_updated_at := mc_now cmd,
            com_verified_by := supplied (mc_verified_by cmd) (com_verified_by c),
            com_verification_evidence_id :=
              supplied (mc_verification_evidence_id cmd) (com_verification_evidence_id c),
            com_outcome_note := supplied (mc_outcome_note cmd) (com_outcome_note c)\<rparr>))"

lemma transition_commitmentD:
  assumes "transition_commitment c cmd = Inr d"
  shows "com_version c = mc_expected_version cmd"
    and "(com_status c, com_status d) \<in> set COMMITMENT_EDGES"
    and "com_status d = mc_target cmd"
    and "com_version d = com_version c + 1"
    and "mc_target cmd \<in> set HUMAN_ONLY_COMMITMENT_STATUSES \<Longrightarrow> mc_actor_is_human cmd"
    and "commitment_post_init d = Inr ()"
    and "com_due_at d = com_due_at c"
  using assms by (auto simp: transition_commitment_def result_simps Let_def split: if_splits)

definition commitment_edge :: "commitment_status \<Rightarrow> commitment_status \<Rightarrow> bool" where
  "commitment_edge a b \<longleftrightarrow> (a, b) \<in> set COMMITMENT_EDGES"

interpretation commitment_machine: versioned
    transition_commitment com_version com_status mc_expected_version mc_target commitment_edge
  by unfold_locales (auto simp: commitment_edge_def dest: transition_commitmentD)

abbreviation commitment_run :: "commitment \<Rightarrow> commitment_command list \<Rightarrow> commitment result" where
  "commitment_run \<equiv> run transition_commitment"

end
