(* ===== verification/Case_Properties.thy ===== *)
theory Case_Properties
  imports Lifecycle
begin

text \<open>
  The properties of the three lifecycle machines of \<open>src/chorus/domain/state.py\<close>, over whole runs of
  commands, each with an instance on a concrete case, execution or commitment.
\<close>

section \<open>A case and its commands\<close>

definition w_case :: community_case where
  "w_case =
     \<lparr>case_case_id = Ident 1, case_community_id = Ident 2, case_namespace = Namespace ''DEMO'',
      case_title = ''Elevator'', case_issue_type = ''ELEVATOR'', case_current_state = CANDIDATE,
      case_report_ids = [Ident 21], case_fact_ids = [Ident 31], case_assessment_id = None,
      case_current_view_id = None, case_current_action_id = None, case_corroboration_count = 2,
      case_reason_code = ''NEW'', case_version = 1, case_authorization_version = 1,
      case_created_at = utc 0, case_updated_at = utc 0, case_resolved_at = None, case_closed_at = None\<rparr>"

definition w_command :: "case_state \<Rightarrow> int \<Rightarrow> case_transition_context \<Rightarrow> case_command" where
  "w_command q v cx = \<lparr>cc_target = q, cc_expected_version = v, cc_reason_code = ''STEP'', cc_now = utc v, cc_context = cx\<rparr>"

definition w_path :: "case_command list" where
  "w_path =
     [w_command AWAITING_MANDATES 1 (default_context\<lparr>tc_candidate_accepted := True, tc_mandate_proposals_for_all := True\<rparr>),
      w_command INVESTIGATING 2 (default_context\<lparr>tc_any_mandate_decision := True, tc_reports_retained := True\<rparr>),
      w_command READY_FOR_ACTION 3 (default_context\<lparr>tc_validated_assessment := True, tc_independent_source_count := 2,
        tc_no_material_different_issue := True, tc_has_compilable_purpose := True\<rparr>),
      w_command ACTION_PROPOSED 4 (default_context\<lparr>tc_current_view_and_proposal_match := True\<rparr>),
      w_command ACTIONED 5 (default_context\<lparr>tc_execution_sent := True, tc_approval_consumed := True\<rparr>),
      w_command VERIFYING 6 (default_context\<lparr>tc_commitment_or_verification_exists := True\<rparr>),
      w_command RESOLVED 7 (default_context\<lparr>tc_actor_is_human := True, tc_affected_contributor_verified := True\<rparr>)]"

definition w_resolved :: community_case where
  "w_resolved = projr (case_run w_case w_path)"

lemma w_case_run: "case_run w_case w_path = Inr w_resolved"
  unfolding w_resolved_def by (rule returns_projr) code_simp

lemma w_resolved_state: "case_current_state w_resolved = RESOLVED" "case_version w_resolved = 8"
  by code_simp+

section \<open>The way to RESOLVED\<close>

definition corroborated :: "case_command \<Rightarrow> bool" where
  "corroborated a \<longleftrightarrow> cc_target a = READY_FOR_ACTION \<and> tc_validated_assessment (cc_context a) \<and>
     2 \<le> tc_independent_source_count (cc_context a)"

definition send_confirmed :: "case_command \<Rightarrow> bool" where
  "send_confirmed b \<longleftrightarrow> cc_target b = ACTIONED \<and> tc_execution_sent (cc_context b) \<and> tc_approval_consumed (cc_context b)"

definition human_verified :: "case_command \<Rightarrow> bool" where
  "human_verified v \<longleftrightarrow> cc_target v = RESOLVED \<and> tc_actor_is_human (cc_context v) \<and>
     tc_affected_contributor_verified (cc_context v)"

definition after_corroboration :: "case_command list \<Rightarrow> bool" where
  "after_corroboration cmds \<longleftrightarrow> (\<exists>xs a ys. cmds = xs @ a # ys \<and> corroborated a)"

definition after_send :: "case_command list \<Rightarrow> bool" where
  "after_send cmds \<longleftrightarrow> (\<exists>xs b ys. cmds = xs @ b # ys \<and> send_confirmed b \<and> after_corroboration xs)"

lemma after_corroboration_snoc: "after_corroboration cmds \<or> corroborated c \<Longrightarrow> after_corroboration (cmds @ [c])"
  unfolding after_corroboration_def
proof (elim disjE exE conjE)
  fix xs a ys
  assume "cmds = xs @ a # ys" "corroborated a"
  then have "cmds @ [c] = xs @ a # (ys @ [c]) \<and> corroborated a" by simp
  then show "\<exists>xs a ys. cmds @ [c] = xs @ a # ys \<and> corroborated a" by blast
qed blast

lemma after_send_snoc:
  "after_send cmds \<or> after_corroboration cmds \<and> send_confirmed c \<Longrightarrow> after_send (cmds @ [c])"
  unfolding after_send_def
proof (elim disjE exE conjE)
  fix xs b ys
  assume "cmds = xs @ b # ys" "send_confirmed b" "after_corroboration xs"
  then have "cmds @ [c] = xs @ b # (ys @ [c]) \<and> send_confirmed b \<and> after_corroboration xs" by simp
  then show "\<exists>xs b ys. cmds @ [c] = xs @ b # ys \<and> send_confirmed b \<and> after_corroboration xs" by blast
qed blast

lemmas after_snoc = after_corroboration_snoc [OF disjI1] after_corroboration_snoc [OF disjI2]
  after_send_snoc [OF disjI1] after_send_snoc [OF disjI2 [OF conjI]]

lemma guard_corroborated:
  "case_guard q (cc_target c) (cc_context c) \<Longrightarrow> cc_target c = READY_FOR_ACTION \<Longrightarrow> q = INVESTIGATING \<Longrightarrow> corroborated c"
  by (simp add: case_guard_def corroborated_def)

lemma guard_send:
  "case_guard q (cc_target c) (cc_context c) \<Longrightarrow> cc_target c = ACTIONED \<Longrightarrow> q = ACTION_PROPOSED \<Longrightarrow> send_confirmed c"
  by (simp add: case_guard_def send_confirmed_def)

lemma guard_verified:
  "case_guard q (cc_target c) (cc_context c) \<Longrightarrow> cc_target c = RESOLVED \<Longrightarrow> q = VERIFYING \<Longrightarrow> human_verified c"
  by (simp add: case_guard_def human_verified_def)

text \<open>Where a run from a candidate has got to, and what it must have passed.\<close>

lemma case_run_passes:
  assumes "case_current_state c = CANDIDATE"
  shows "case_run c cmds = Inr d \<Longrightarrow>
    (case_current_state d \<in> {READY_FOR_ACTION, ACTION_PROPOSED, ACTIONED, VERIFYING, RESOLVED} \<longrightarrow> after_corroboration cmds) \<and>
    (case_current_state d \<in> {ACTIONED, VERIFYING, RESOLVED} \<longrightarrow> after_send cmds)"
proof (induction cmds arbitrary: d rule: rev_induct)
  case Nil
  with assms show ?case by auto
next
  case (snoc cmd cmds)
  then obtain e where e: "case_run c cmds = Inr e" "transition_case e cmd = Inr d"
    by (auto simp: run_snoc_Inr_iff)
  have edge: "case_edge (case_current_state e) (case_current_state d)" and t: "cc_target cmd = case_current_state d"
    using case_machine.step_edge [OF e(2)] case_machine.step_target [OF e(2)] by simp_all
  note guard = transition_caseD(3) [OF e(2)]
  have "case_current_state e = INVESTIGATING \<Longrightarrow> case_current_state d = READY_FOR_ACTION \<Longrightarrow> corroborated cmd"
    "case_current_state e = ACTION_PROPOSED \<Longrightarrow> case_current_state d = ACTIONED \<Longrightarrow> send_confirmed cmd"
    using guard_corroborated [OF guard] guard_send [OF guard] t by simp_all
  with snoc.IH [OF e(1)] edge show ?case
    by (cases "case_current_state e"; cases "case_current_state d")
      (auto simp: case_edge_cases intro: after_snoc)
qed

text \<open>
  C9. A case that started as a candidate is RESOLVED only by a human who records the affected
  contributor's verification, after a command that moved it to ACTIONED with a sent execution and a
  consumed approval, after a command that made it READY_FOR_ACTION on a validated assessment with
  at least two independent sources.
\<close>

theorem resolved_case_path:
  assumes "case_current_state c = CANDIDATE" "case_run c cmds = Inr d" "case_current_state d = RESOLVED"
  shows "\<exists>xs a ys b zs v. cmds = xs @ a # ys @ b # zs @ [v] \<and>
    cc_target a = READY_FOR_ACTION \<and> tc_validated_assessment (cc_context a) \<and>
      2 \<le> tc_independent_source_count (cc_context a) \<and>
    cc_target b = ACTIONED \<and> tc_execution_sent (cc_context b) \<and> tc_approval_consumed (cc_context b) \<and>
    cc_target v = RESOLVED \<and> tc_actor_is_human (cc_context v) \<and> tc_affected_contributor_verified (cc_context v)"
proof -
  from assms have "cmds \<noteq> []" by auto
  then obtain cs v where cmds: "cmds = cs @ [v]" using rev_exhaust by blast
  with assms(2) obtain e where e: "case_run c cs = Inr e" "transition_case e v = Inr d"
    by (auto simp: run_snoc_Inr_iff)
  have t: "cc_target v = RESOLVED" using case_machine.step_target [OF e(2)] assms(3) by simp
  with case_machine.step_edge [OF e(2)] assms(3) have q: "case_current_state e = VERIFYING"
    by (cases "case_current_state e") (auto simp: case_edge_cases)
  have "human_verified v" by (rule guard_verified [OF transition_caseD(3) [OF e(2)] t q])
  moreover have "after_send cs" using case_run_passes [OF assms(1) e(1)] q by simp
  then obtain us b zs where us: "cs = us @ b # zs" "send_confirmed b" "after_corroboration us"
    by (auto simp: after_send_def)
  moreover from us(3) obtain xs a ys where "us = xs @ a # ys" "corroborated a"
    by (auto simp: after_corroboration_def)
  ultimately have "cmds = xs @ a # ys @ b # zs @ [v] \<and> corroborated a \<and> send_confirmed b \<and> human_verified v"
    using cmds by simp
  then show ?thesis unfolding corroborated_def send_confirmed_def human_verified_def by blast
qed

theorem resolved_case_path_witness: "\<exists>xs a ys b zs v. w_path = xs @ a # ys @ b # zs @ [v] \<and>
    cc_target a = READY_FOR_ACTION \<and> tc_validated_assessment (cc_context a) \<and>
      2 \<le> tc_independent_source_count (cc_context a) \<and>
    cc_target b = ACTIONED \<and> tc_execution_sent (cc_context b) \<and> tc_approval_consumed (cc_context b) \<and>
    cc_target v = RESOLVED \<and> tc_actor_is_human (cc_context v) \<and> tc_affected_contributor_verified (cc_context v)"
  by (rule resolved_case_path [of w_case w_path w_resolved])
    (use w_case_run w_resolved_state in \<open>simp_all add: w_case_def\<close>)

section \<open>Versions and the authorization epoch\<close>

text \<open>The authorization-sensitive edges a list of commands takes from a state.\<close>

fun sensitive_steps :: "case_state \<Rightarrow> case_command list \<Rightarrow> nat" where
  "sensitive_steps q [] = 0"
| "sensitive_steps q (c # cs) =
     (if case_edge_bumps_authorization q (cc_target c) then 1 else 0) + sensitive_steps (cc_target c) cs"

text \<open>
  Over any run of a case the version counts the transitions and the authorization version counts
  exactly the authorization-sensitive ones; identity, community, namespace and membership never change.
\<close>

theorem case_run_counts:
  assumes "case_run c cmds = Inr d"
  shows "case_version d = case_version c + int (length cmds) \<and>
    case_authorization_version d = case_authorization_version c + int (sensitive_steps (case_current_state c) cmds) \<and>
    case_case_id d = case_case_id c \<and> case_community_id d = case_community_id c \<and>
    case_namespace d = case_namespace c \<and> case_fact_ids d = case_fact_ids c"
  using assms
proof (induction cmds arbitrary: c)
  case (Cons cmd cmds)
  then obtain e where e: "transition_case c cmd = Inr e" "case_run e cmds = Inr d"
    by (auto simp: result_simps)
  note D = transition_caseD [OF e(1)] transition_case_frame [OF e(1)]
  from Cons.IH [OF e(2)] show ?case by (simp add: D)
qed simp

theorem case_run_counts_witness:
  "case_version w_resolved = 8 \<and> case_authorization_version w_resolved = 4"
proof -
  have "sensitive_steps (case_current_state w_case) w_path = 3" by code_simp
  with case_run_counts [OF w_case_run] show ?thesis by (simp add: w_case_def w_path_def)
qed

text \<open>
  On a valid case a transition returns exactly when its instant is UTC and not before the creation,
  the expected version is the current one, the edge is in the table, its guard holds and the reason
  code has 1 to 80 characters; every other command is refused with an error.
\<close>

theorem transition_case_enabled:
  assumes "community_case_post_init c = Inr ()"
  shows "returns (transition_case c cmd) \<longleftrightarrow>
    is_utc (cc_now cmd) \<and> instant (case_created_at c) \<le> instant (cc_now cmd) \<and>
    case_version c = cc_expected_version cmd \<and> (case_current_state c, cc_target cmd) \<in> set CASE_EDGES \<and>
    case_guard (case_current_state c) (cc_target cmd) (cc_context cmd) \<and>
    1 \<le> length (cc_reason_code cmd) \<and> length (cc_reason_code cmd) \<le> 80"
proof -
  have v: "utc_check_opt (Some d) = utc_check d" for d by simp
  from assms show ?thesis
    unfolding returns_iff transition_case_def community_case_post_init_def
    by (auto simp: result_simps Let_def check_defs)
qed

theorem transition_case_enabled_witness:
  "returns (transition_case w_case (hd w_path)) \<longleftrightarrow> True"
  by (subst transition_case_enabled)
    (simp_all add: w_case_def w_path_def w_command_def default_context_def community_case_post_init_def
      check_defs checks.simps CASE_EDGES_def case_guard_def)

section \<open>Executions\<close>

definition w_digest :: digest where "w_digest = Sha256Digest ''sha256:1''"

definition w_draft :: action_execution where
  "w_draft =
     \<lparr>exec_id = Ident 1, exec_action_id = Ident 2, exec_case_id = Ident 3, exec_approval_id = None,
      exec_proposal_hash = w_digest, exec_view_hash = w_digest, exec_idempotency_key = None,
      exec_state = EX_DRAFT, exec_claim_owner_hash = None, exec_rendered_message_hash = None,
      exec_ses_request_token_hash = None, exec_ses_message_id = None, exec_started_at = None,
      exec_finished_at = None, exec_failure_code = None, exec_failure_detail_safe = None,
      exec_reconciled_at = None, exec_version = 1, exec_created_at = utc 0, exec_updated_at = utc 0,
      exec_attempt_number = 1\<rparr>"

definition w_exec_command :: "execution_state \<Rightarrow> int \<Rightarrow> execution_command" where
  "w_exec_command q v =
     \<lparr>xc_target = q, xc_expected_version = v, xc_now = utc v, xc_reconciliation_proof = False,
      xc_approval_id = None, xc_idempotency_key = None, xc_claim_owner_hash = None,
      xc_rendered_message_hash = None, xc_ses_request_token_hash = None, xc_ses_message_id = None,
      xc_started_at = None, xc_finished_at = None, xc_failure_code = None,
      xc_failure_detail_safe = None, xc_reconciled_at = None\<rparr>"

definition w_approve :: execution_command where
  "w_approve = (w_exec_command EX_APPROVED 1)\<lparr>xc_approval_id := Some (Ident 4), xc_idempotency_key := Some ''key''\<rparr>"

definition w_claim :: execution_command where
  "w_claim = (w_exec_command EX_SENDING 2)\<lparr>xc_claim_owner_hash := Some w_digest,
     xc_rendered_message_hash := Some w_digest, xc_ses_request_token_hash := Some w_digest,
     xc_started_at := Some (utc 2)\<rparr>"

definition w_unknown :: execution_command where
  "w_unknown = (w_exec_command EX_SEND_UNKNOWN 3)\<lparr>xc_finished_at := Some (utc 3), xc_reconciled_at := Some (utc 3)\<rparr>"

definition w_reconcile :: execution_command where
  "w_reconcile = (w_exec_command EX_SENT 4)\<lparr>xc_reconciliation_proof := True, xc_ses_message_id := Some ''ses''\<rparr>"

definition w_sent :: action_execution where
  "w_sent = projr (execution_run w_draft [w_approve, w_claim, w_unknown, w_reconcile])"

lemma w_sent_run: "execution_run w_draft [w_approve, w_claim, w_unknown, w_reconcile] = Inr w_sent"
  unfolding w_sent_def by (rule returns_projr) code_simp

lemma w_draft_valid: "action_execution_post_init w_draft = Inr ()"
  by code_simp

text \<open>
  C13. Along any run of an execution at most one command enters SENDING, and no run has more than four
  commands: a message is claimed for sending at most once and every execution comes to an end.
\<close>

theorem execution_sends_once:
  assumes "execution_run x cmds = Inr y"
  shows "length (filter (\<lambda>c. xc_target c = EX_SENDING) cmds) \<le> 1 \<and> length cmds \<le> 4"
proof
  have "length (filter (\<lambda>c. xc_target c = EX_SENDING) cmds) \<le>
      (if execution_rank (exec_state x) < execution_rank EX_SENDING then 1 else 0)"
    by (rule execution_machine.enters_once [OF _ _ assms]) (auto dest!: execution_edge_rank)
  then show "length (filter (\<lambda>c. xc_target c = EX_SENDING) cmds) \<le> 1" by (auto split: if_splits)
  have "execution_rank (exec_state x) + length cmds \<le> execution_rank (exec_state y)"
    using assms
  proof (induction cmds arbitrary: x)
    case (Cons c cmds)
    then obtain z where z: "transition_action_execution x c = Inr z" "execution_run z cmds = Inr y"
      by (auto simp: result_simps)
    from execution_edge_rank [OF execution_machine.step_edge [OF z(1)]] Cons.IH [OF z(2)] show ?case by simp
  qed simp
  moreover have "execution_rank (exec_state y) \<le> 4" by (cases "exec_state y") auto
  ultimately show "length cmds \<le> 4" by simp
qed

theorem execution_sends_once_witness:
  "length (filter (\<lambda>c. xc_target c = EX_SENDING) [w_approve, w_claim, w_unknown, w_reconcile]) \<le> 1"
  using execution_sends_once [OF w_sent_run] by blast

text \<open>
  Of two commands built on the same version of an execution, the second is refused once the first
  has been applied: two workers cannot both claim one send.
\<close>

theorem execution_one_winner:
  assumes "transition_action_execution x c = Inr y" "xc_expected_version d = xc_expected_version c"
  shows "\<exists>e. transition_action_execution y d = Inl e"
  using assms by (rule execution_machine.one_winner)

theorem execution_one_winner_witness:
  "\<exists>e. transition_action_execution (projr (transition_action_execution w_draft w_approve)) w_approve = Inl e"
proof (rule execution_one_winner)
  show "transition_action_execution w_draft w_approve = Inr (projr (transition_action_execution w_draft w_approve))"
    by (rule returns_projr) code_simp
qed simp

text \<open>
  C25. From a valid execution every run ends in a valid one, keeps every send field that was recorded,
  and, where it ends SENT, the message id, the claim, the token, the start and the finish are recorded
  and no failure is.
\<close>

theorem execution_run_presence:
  assumes "action_execution_post_init x = Inr ()" "execution_run x cmds = Inr y"
  shows "action_execution_post_init y = Inr () \<and>
    (field_value f x \<noteq> None \<longrightarrow> field_value f y = field_value f x) \<and>
    (exec_state y = EX_SENT \<longrightarrow>
       exec_ses_message_id y \<noteq> None \<and> exec_claim_owner_hash y \<noteq> None \<and> exec_ses_request_token_hash y \<noteq> None \<and>
       exec_approval_id y \<noteq> None \<and> exec_started_at y \<noteq> None \<and> exec_finished_at y \<noteq> None \<and> exec_failure_code y = None)"
proof -
  note valid = execution_run_valid [OF assms]
  note req = post_init_presence(1) [OF valid] and abs = post_init_presence(2) [OF valid]
  have "exec_state y = EX_SENT \<Longrightarrow>
      exec_ses_message_id y \<noteq> None \<and> exec_claim_owner_hash y \<noteq> None \<and> exec_ses_request_token_hash y \<noteq> None \<and>
      exec_approval_id y \<noteq> None \<and> exec_started_at y \<noteq> None \<and> exec_finished_at y \<noteq> None \<and> exec_failure_code y = None"
    using req [of XF_ses_message_id] req [of XF_claim_owner_hash] req [of XF_ses_request_token_hash]
      req [of XF_approval_id] req [of XF_started_at] req [of XF_finished_at] abs [of XF_failure_code]
    by simp
  with valid execution_run_field [OF assms(2)] show ?thesis by blast
qed

theorem execution_run_presence_witness:
  "action_execution_post_init w_sent = Inr () \<and> exec_ses_message_id w_sent \<noteq> None"
proof -
  have "exec_state w_sent = EX_SENT" by code_simp
  with execution_run_presence [OF w_draft_valid w_sent_run] show ?thesis by blast
qed

text \<open>
  C39. An execution in SEND_UNKNOWN that has a provider message id or a reconciliation instant can
  never be moved to FAILED, whatever the command supplies: the table calls both fields absent in
  FAILED and the monotonicity check forbids clearing them.
\<close>

theorem reconciled_unknown_never_fails:
  assumes "exec_ses_message_id x \<noteq> None \<or> exec_reconciled_at x \<noteq> None" "xc_target cmd = EX_FAILED"
  shows "\<exists>e. transition_action_execution x cmd = Inl e"
proof (cases "transition_action_execution x cmd")
  case (Inr y)
  note D = transition_action_executionD [OF Inr]
  have s: "exec_state y = EX_FAILED" using D(3) assms(2) by simp
  have "field_value XF_ses_message_id y = None" "field_value XF_reconciled_at y = None"
    using post_init_presence(2) [OF D(5), of XF_ses_message_id] post_init_presence(2) [OF D(5), of XF_reconciled_at] s
    by simp_all
  with D(7) [of XF_ses_message_id] D(7) [of XF_reconciled_at] assms(1) show ?thesis by auto
qed simp

theorem reconciled_unknown_never_fails_witness:
  "\<exists>e. transition_action_execution (projr (execution_run w_draft [w_approve, w_claim, w_unknown]))
     ((w_exec_command EX_FAILED 4)\<lparr>xc_reconciliation_proof := True, xc_failure_code := Some ''BOUNCED''\<rparr>) = Inl e"
proof (rule reconciled_unknown_never_fails)
  have "exec_reconciled_at (projr (execution_run w_draft [w_approve, w_claim, w_unknown])) = Some (utc 3)" by code_simp
  then show "exec_ses_message_id (projr (execution_run w_draft [w_approve, w_claim, w_unknown])) \<noteq> None \<or>
      exec_reconciled_at (projr (execution_run w_draft [w_approve, w_claim, w_unknown])) \<noteq> None" by simp
qed (simp add: w_exec_command_def)

section \<open>Commitments\<close>

definition w_commitment :: commitment where
  "w_commitment =
     \<lparr>com_id = Ident 1, com_case_id = Ident 2, com_action_id = None, com_source_evidence_id = Ident 3,
      com_obligor = ''Manager'', com_action_text = ''repair'', com_due_at = utc 9,
      com_verification_method = ''ask'', com_status = CM_PENDING, com_scheduler_name = ''s'',
      com_schedule_generation = 1, com_due_event_id = 5, com_verified_by = None,
      com_verification_evidence_id = None, com_outcome_note = None, com_version = 1,
      com_created_at = utc 0, com_updated_at = utc 0\<rparr>"

definition w_commitment_command :: "commitment_status \<Rightarrow> int \<Rightarrow> bool \<Rightarrow> commitment_command" where
  "w_commitment_command q v human =
     \<lparr>mc_target = q, mc_expected_version = v, mc_now = utc v, mc_actor_is_human = human,
      mc_verified_by = None, mc_verification_evidence_id = None, mc_outcome_note = None\<rparr>"

definition w_fulfilled :: commitment where
  "w_fulfilled = projr (commitment_run w_commitment [w_commitment_command CM_DUE 1 False, w_commitment_command CM_FULFILLED 2 True])"

lemma w_commitment_run:
  "commitment_run w_commitment [w_commitment_command CM_DUE 1 False, w_commitment_command CM_FULFILLED 2 True] = Inr w_fulfilled"
  unfolding w_fulfilled_def by (rule returns_projr) code_simp

lemma commitment_edge_iff:
  "commitment_edge a b \<longleftrightarrow> (a = CM_PENDING \<and> b \<in> {CM_DUE, CM_CANCELLED}) \<or> (a = CM_DUE \<and> b \<in> {CM_FULFILLED, CM_MISSED, CM_CANCELLED})"
  by (auto simp: commitment_edge_def COMMITMENT_EDGES_def)

lemma commitment_ended: "com_status c \<notin> {CM_PENDING, CM_DUE} \<Longrightarrow> commitment_run c cmds = Inr d \<Longrightarrow> cmds = [] \<and> d = c"
  by (rule commitment_machine.terminal_run [of c]) (auto simp: commitment_edge_iff)

text \<open>
  Every run of a pending commitment is one of five: nothing, due, cancelled, due then an outcome;
  and every outcome (fulfilled, missed, cancelled) is recorded by a human.
\<close>

theorem commitment_runs:
  assumes "com_status c = CM_PENDING" "commitment_run c cmds = Inr d"
  shows "map mc_target cmds \<in> {[], [CM_DUE], [CM_CANCELLED], [CM_DUE, CM_FULFILLED], [CM_DUE, CM_MISSED], [CM_DUE, CM_CANCELLED]}
    \<and> (\<forall>m\<in>set cmds. mc_target m \<noteq> CM_DUE \<longrightarrow> mc_actor_is_human m) \<and> com_due_at d = com_due_at c"
proof (cases cmds)
  case (Cons m ms)
  with assms(2) obtain e where e: "transition_commitment c m = Inr e" "commitment_run e ms = Inr d"
    by (auto simp: result_simps)
  note M = transition_commitmentD [OF e(1)]
  have m: "mc_target m \<in> {CM_DUE, CM_CANCELLED}" "mc_target m \<noteq> CM_DUE \<longrightarrow> mc_actor_is_human m"
    using M(2,3,5) assms(1) by (auto simp: COMMITMENT_EDGES_def HUMAN_ONLY_COMMITMENT_STATUSES_def)
  show ?thesis
  proof (cases ms)
    case Nil
    with Cons e M m show ?thesis by auto
  next
    case (Cons n ns)
    with e(2) obtain f where f: "transition_commitment e n = Inr f" "commitment_run f ns = Inr d"
      by (auto simp: result_simps)
    note N = transition_commitmentD [OF f(1)]
    have n: "mc_target m = CM_DUE" "mc_target n \<in> {CM_FULFILLED, CM_MISSED, CM_CANCELLED}" "mc_actor_is_human n"
      using N(2,3,5) M(3) m(1) by (auto simp: COMMITMENT_EDGES_def HUMAN_ONLY_COMMITMENT_STATUSES_def)
    have "com_status f \<notin> {CM_PENDING, CM_DUE}" using N(3) n(2) by auto
    then have "ns = []" "d = f" using commitment_ended f(2) by auto
    with \<open>cmds = m # ms\<close> Cons n M(7) N(7) show ?thesis by auto
  qed
qed (use assms in auto)

theorem commitment_runs_witness:
  "map mc_target [w_commitment_command CM_DUE 1 False, w_commitment_command CM_FULFILLED 2 True]
     \<in> {[], [CM_DUE], [CM_CANCELLED], [CM_DUE, CM_FULFILLED], [CM_DUE, CM_MISSED], [CM_DUE, CM_CANCELLED]}"
proof -
  have "com_status w_commitment = CM_PENDING" by (simp add: w_commitment_def)
  then show ?thesis using w_commitment_run by (rule commitment_runs [THEN conjunct1])
qed

end
