(* ===== verification/Facts.thy ===== *)
theory Facts
  imports Entities
begin

text \<open>
  \<open>src/chorus/domain/facts.py\<close>: the closed union of fact values, reports, facts and the
  evidence-root ancestry. \<open>collapse_evidence_root\<close> walks \<open>parent_root_id\<close> until a root without
  a parent; the roots it has visited bound the walk.
\<close>

section \<open>Fact values\<close>

datatype fact_value =
    IncidentOccurrence (occurred_at: datetime) (failure_mode_of: failure_mode) (equipment: string)
  | ServiceImpact (impact_code_of: impact_code) (impact_summary: string)
  | LocationArea (area_of: location_area_code)
  | IdentityAttribute (display_name: string)
  | UnitLocation (unit_label: string)
  | HealthDetail (subject_of: subject_relation) (detail: string)
  | ManagementStatement (statement: string) (speaker_org: string) (stated_at: datetime)
  | Contradiction (statement_fact_ids: "fact_id list") (contradiction_summary: string)
  | CommitmentTerm (obligor: string) (action_text: string) (due_at: datetime) (verification_method: string)
  | EvidenceDescription (description: string) (media_kind_of: media_kind)

fun fact_value_checks :: "fact_value \<Rightarrow> (bool \<times> error) list" where
  "fact_value_checks (IncidentOccurrence at m eq) =
     [utc_check at, (eq \<noteq> ''ELEVATOR'', ValueError ''V1 supports elevator incidents only'')]"
| "fact_value_checks (ServiceImpact c s) = [bounded s 1 500 ''summary'']"
| "fact_value_checks (LocationArea a) = []"
| "fact_value_checks (IdentityAttribute n) = [bounded n 1 120 ''display_name'']"
| "fact_value_checks (UnitLocation u) = [bounded u 1 40 ''unit_label'']"
| "fact_value_checks (HealthDetail r d) = [bounded d 1 500 ''detail'']"
| "fact_value_checks (ManagementStatement s org at) =
     [bounded s 1 1000 ''statement'', bounded org 1 120 ''speaker_org'', utc_check at]"
| "fact_value_checks (Contradiction ids s) =
     [(\<not> (2 \<le> length ids \<and> length ids \<le> 10), ValueError ''contradiction requires 2 to 10 cited facts''),
      (\<not> distinct ids, ValueError ''contradiction fact IDs must be unique''),
      bounded s 1 500 ''summary'']"
| "fact_value_checks (CommitmentTerm o' a d v) =
     [bounded o' 1 120 ''obligor'', bounded a 1 500 ''action_text'',
      bounded v 1 300 ''verification_method'', utc_check d]"
| "fact_value_checks (EvidenceDescription d k) = [bounded d 1 500 ''description'']"

definition fact_value_post_init :: "fact_value \<Rightarrow> unit result" where
  "fact_value_post_init v = checks (fact_value_checks v)"

fun FACT_VALUE_TYPES :: "fact_value \<Rightarrow> fact_type" where
  "FACT_VALUE_TYPES (IncidentOccurrence _ _ _) = INCIDENT_OCCURRENCE"
| "FACT_VALUE_TYPES (ServiceImpact _ _) = SERVICE_IMPACT"
| "FACT_VALUE_TYPES (LocationArea _) = LOCATION_AREA"
| "FACT_VALUE_TYPES (IdentityAttribute _) = IDENTITY_ATTRIBUTE"
| "FACT_VALUE_TYPES (UnitLocation _) = UNIT_LOCATION"
| "FACT_VALUE_TYPES (HealthDetail _ _) = HEALTH_DETAIL"
| "FACT_VALUE_TYPES (ManagementStatement _ _ _) = MANAGEMENT_STATEMENT"
| "FACT_VALUE_TYPES (Contradiction _ _) = CONTRADICTION"
| "FACT_VALUE_TYPES (CommitmentTerm _ _ _ _) = COMMITMENT_TERM"
| "FACT_VALUE_TYPES (EvidenceDescription _ _) = EVIDENCE_DESCRIPTION"

fun REQUIRED_SENSITIVITY :: "fact_type \<Rightarrow> sensitivity option" where
  "REQUIRED_SENSITIVITY IDENTITY_ATTRIBUTE = Some SC_IDENTITY"
| "REQUIRED_SENSITIVITY UNIT_LOCATION = Some SC_UNIT_LOCATION"
| "REQUIRED_SENSITIVITY HEALTH_DETAIL = Some SC_HEALTH"
| "REQUIRED_SENSITIVITY _ = None"

section \<open>Reports and facts\<close>

record report =
  report_id :: report_id
  report_case_id :: "case_id option"
  report_community_id :: community_id
  report_contributor_id :: contributor_id
  report_namespace :: namespace
  report_source_message_ids :: "message_id list"
  report_issue_type :: string
  report_private_summary :: sensitive_str
  report_occurred_at :: "datetime option"
  report_location_area :: "location_area_code option"
  report_evidence_ids :: "evidence_item_id list"
  report_status :: report_status
  report_duplicate_of :: "report_id option"
  report_version :: int
  report_created_at :: datetime
  report_updated_at :: datetime

definition report_post_init :: "report \<Rightarrow> unit result" where
  "report_post_init r = checks
     [(report_source_message_ids r = [], ValueError ''report requires source messages''),
      unique (report_source_message_ids r) ''source_message_ids'',
      bounded (report_issue_type r) 1 80 ''issue_type'',
      bounded (reveal (report_private_summary r)) 1 1000 ''private_summary'',
      utc_check_opt (report_occurred_at r),
      unique (report_evidence_ids r) ''evidence_ids'',
      (report_status r = RS_DUPLICATE \<and> report_duplicate_of r = None,
       ValueError ''duplicate reports require duplicate_of_report_id''),
      (report_status r \<noteq> RS_DUPLICATE \<and> report_duplicate_of r \<noteq> None,
       ValueError ''only duplicate reports may point at an original''),
      positive_version (report_version r),
      utc_check (report_created_at r), utc_check (report_updated_at r)]"

record fact =
  fact_id :: fact_id
  fact_case_id :: case_id
  fact_report_id :: report_id
  fact_community_id :: community_id
  fact_contributor_id :: contributor_id
  fact_namespace :: namespace
  fact_type :: fact_type
  fact_value :: fact_value
  fact_sensitivity :: sensitivity
  fact_evidence_ids :: "evidence_item_id list"
  fact_evidence_status :: evidence_status
  fact_source_message_ids :: "message_id list"
  fact_supersedes :: "fact_id option"
  fact_status :: fact_status
  fact_version :: int
  fact_created_at :: datetime
  fact_updated_at :: datetime

definition fact_post_init :: "fact \<Rightarrow> unit result" where
  "fact_post_init f = checks
     [(FACT_VALUE_TYPES (fact_value f) \<noteq> fact_type f,
       ValueError ''fact discriminator does not match value type''),
      (case REQUIRED_SENSITIVITY (fact_type f) of None \<Rightarrow> False | Some s \<Rightarrow> fact_sensitivity f \<noteq> s,
       ValueError ''fact sensitivity does not match protected fact type''),
      (fact_source_message_ids f = [], ValueError ''fact requires source message lineage''),
      unique (fact_source_message_ids f) ''source message IDs'',
      unique (fact_evidence_ids f) ''evidence IDs'',
      positive_version (fact_version f),
      utc_check (fact_created_at f), utc_check (fact_updated_at f)]"

lemma fact_post_init_type: "fact_post_init f = Inr () \<Longrightarrow> FACT_VALUE_TYPES (fact_value f) = fact_type f"
  by (simp add: fact_post_init_def result_simps)

section \<open>Evidence-root ancestry\<close>

text \<open>
  The loop of \<open>collapse_evidence_root\<close>: \<open>community\<close> and \<open>ns\<close> are those of the starting root.
  Every iteration that goes on visits a further identifier of the supplied roots.
\<close>

function climb ::
    "evidence_root list \<Rightarrow> community_id \<Rightarrow> namespace \<Rightarrow> evidence_root_id list \<Rightarrow> evidence_root_id \<Rightarrow>
     evidence_root_id result" where
  "climb roots community ns visited current =
     (if current \<in> set visited then Inl (ValueError ''evidence root cycle'')
      else case index_by root_id roots current of
        None \<Rightarrow> Inl (ValueError ''evidence root is missing'')
      | Some root \<Rightarrow>
          if root_community_id root \<noteq> community \<or> root_namespace root \<noteq> ns
          then Inl (ValueError ''evidence root ancestry crosses community or namespace'')
          else case root_parent_root_id root of
            None \<Rightarrow> Inr current
          | Some parent \<Rightarrow> climb roots community ns (current # visited) parent)"
  by pat_completeness auto
termination
proof (relation "measure (\<lambda>(roots, _, _, visited, _). card (root_id ` set roots - set visited))")
  fix roots community ns visited current root parent
  assume "current \<notin> set visited" "index_by root_id roots current = Some root"
  then have "current \<in> root_id ` set roots - set visited"
    by (auto dest!: index_by_SomeD)
  then have "root_id ` set roots - set (current # visited) \<subset> root_id ` set roots - set visited" by auto
  then have "card (root_id ` set roots - set (current # visited)) < card (root_id ` set roots - set visited)"
    by (intro psubset_card_mono) auto
  then show "((roots, community, ns, current # visited, parent), (roots, community, ns, visited, current))
      \<in> measure (\<lambda>(roots, _, _, visited, _). card (root_id ` set roots - set visited))"
    by simp
qed simp

declare climb.simps [simp del]

definition collapse_evidence_root ::
    "evidence_root_id \<Rightarrow> evidence_root list \<Rightarrow> evidence_root_id result" where
  "collapse_evidence_root rid roots =
     (if \<not> distinct (map root_id roots) then Inl (ValueError ''evidence root IDs must be unique'')
      else case index_by root_id roots rid of
        None \<Rightarrow> Inl (ValueError ''evidence root is missing'')
      | Some starting \<Rightarrow>
          climb roots (root_community_id starting) (root_namespace starting) [] rid)"

text \<open>\<open>b\<close> is the recorded parent of \<open>a\<close>.\<close>

inductive parent_of :: "evidence_root list \<Rightarrow> evidence_root_id \<Rightarrow> evidence_root_id \<Rightarrow> bool" for roots where
  parent: "index_by root_id roots a = Some root \<Longrightarrow> root_parent_root_id root = Some b \<Longrightarrow> parent_of roots a b"

inductive_simps parent_of_iff: "parent_of roots a b"

definition origin_root :: "evidence_root list \<Rightarrow> evidence_root_id \<Rightarrow> bool" where
  "origin_root roots r \<longleftrightarrow> (\<exists>root. index_by root_id roots r = Some root \<and> root_parent_root_id root = None)"

lemma climb_reaches:
  "climb roots community ns visited current = Inr r \<Longrightarrow>
     (parent_of roots)\<^sup>*\<^sup>* current r \<and> origin_root roots r \<and>
     (\<exists>root. index_by root_id roots r = Some root \<and> root_community_id root = community \<and> root_namespace root = ns)"
proof (induction roots community ns visited current rule: climb.induct)
  case (1 roots community ns visited current)
  from "1.prems" obtain root where root: "current \<notin> set visited" "index_by root_id roots current = Some root"
    "root_community_id root = community" "root_namespace root = ns"
    by (subst (asm) climb.simps) (auto split: if_splits option.splits)
  show ?case
  proof (cases "root_parent_root_id root")
    case None
    with root "1.prems" show ?thesis
      by (subst (asm) climb.simps) (auto simp: origin_root_def)
  next
    case (Some parent)
    with root "1.prems" have step: "climb roots community ns (current # visited) parent = Inr r"
      by (subst (asm) climb.simps) auto
    have "parent_of roots current parent" using root(2) Some by (rule parent_of.parent)
    with "1.IH" [OF root(1,2) _ Some step] root(3,4) show ?thesis
      by (auto intro: converse_rtranclp_into_rtranclp)
  qed
qed

text \<open>The walk from a root does not depend on what was visited, where it returns.\<close>

lemma climb_visited:
  "climb roots community ns visited current = Inr r \<Longrightarrow> set visited' \<subseteq> set visited \<Longrightarrow>
     climb roots community ns visited' current = Inr r"
proof (induction roots community ns visited current arbitrary: visited' rule: climb.induct)
  case (1 roots community ns visited current)
  from "1.prems" obtain root where root: "current \<notin> set visited" "index_by root_id roots current = Some root"
    "root_community_id root = community" "root_namespace root = ns"
    by (subst (asm) climb.simps) (auto split: if_splits option.splits)
  show ?case
  proof (cases "root_parent_root_id root")
    case None
    with root "1.prems" show ?thesis by (auto simp: climb.simps)
  next
    case (Some parent)
    with root "1.prems" have step: "climb roots community ns (current # visited) parent = Inr r"
      by (subst (asm) climb.simps) auto
    have "climb roots community ns (current # visited') parent = Inr r"
      by (rule "1.IH" [OF root(1,2) _ Some step]) (use root "1.prems"(2) in auto)
    with root Some "1.prems"(2) show ?thesis by (subst climb.simps) auto
  qed
qed

lemma collapse_evidence_root_Inr:
  assumes "collapse_evidence_root rid roots = Inr r"
  shows "distinct (map root_id roots)" "(parent_of roots)\<^sup>*\<^sup>* rid r" "origin_root roots r"
  using assms climb_reaches [of roots _ _ "[]" rid r]
  by (auto simp: collapse_evidence_root_def split: if_splits option.splits)

text \<open>Along a chain of copies the answer does not change.\<close>

lemma collapse_parent:
  assumes c: "collapse_evidence_root a roots = Inr r" and p: "parent_of roots a b"
  shows "collapse_evidence_root b roots = Inr r"
proof -
  from p obtain root where root: "index_by root_id roots a = Some root" "root_parent_root_id root = Some b"
    by (auto simp: parent_of_iff)
  from c root have d: "distinct (map root_id roots)"
    and walk: "climb roots (root_community_id root) (root_namespace root) [] a = Inr r"
    by (auto simp: collapse_evidence_root_def split: if_splits)
  from walk root have step: "climb roots (root_community_id root) (root_namespace root) [a] b = Inr r"
    by (subst (asm) climb.simps) simp
  then obtain proot where proot: "index_by root_id roots b = Some proot"
    "root_community_id proot = root_community_id root" "root_namespace proot = root_namespace root"
    by (subst (asm) climb.simps) (auto split: if_splits option.splits)
  from climb_visited [OF step, of "[]"] proot d show ?thesis
    by (simp add: collapse_evidence_root_def)
qed

lemma collapse_ancestor:
  "(parent_of roots)\<^sup>*\<^sup>* a b \<Longrightarrow> collapse_evidence_root a roots = Inr r \<Longrightarrow> collapse_evidence_root b roots = Inr r"
  by (induction rule: rtranclp_induct) (auto intro: collapse_parent)

end
