(* ===== verification/Matching.thy ===== *)
theory Matching
  imports Prelude
begin

text \<open>
  The augmenting-path assignment inside \<open>independent_sources\<close> of \<open>src/chorus/domain/facts.py\<close>:
  the nested function \<open>assign\<close> with its shared \<open>seen\<close> set and the shared dictionary from
  sources to contributors, both threaded explicitly. \<open>try_sources\<close> is the loop of \<open>assign\<close> over
  the contributor's sources. The recursion depth is bounded by fuel; a call that needs more
  returns \<open>None\<close>, and \<open>try_sources_total\<close> shows that as much fuel as there are unseen sources
  is always enough. The second half proves that the loop over all contributors ends with an
  assignment of maximum size.
\<close>

type_synonym ('c, 's) assignment = "'s \<rightharpoonup> 'c"

fun try_sources ::
    "('c \<Rightarrow> 's list) \<Rightarrow> nat \<Rightarrow> 'c \<Rightarrow> 's list \<Rightarrow> 's list \<Rightarrow> ('c, 's) assignment \<Rightarrow>
     (bool \<times> 's list \<times> ('c, 's) assignment) option" where
  "try_sources adj fuel c [] seen m = Some (False, seen, m)"
| "try_sources adj fuel c (s # ss) seen m =
     (if s \<in> set seen then try_sources adj fuel c ss seen m
      else case m s of
        None \<Rightarrow> Some (True, s # seen, m(s \<mapsto> c))
      | Some current \<Rightarrow>
          (case fuel of 0 \<Rightarrow> None
           | Suc n \<Rightarrow>
               (case try_sources adj n current (adj current) (s # seen) m of
                  None \<Rightarrow> None
                | Some (True, seen', m') \<Rightarrow> Some (True, seen', m'(s \<mapsto> c))
                | Some (False, seen', m') \<Rightarrow> try_sources adj fuel c ss seen' m')))"

definition assign ::
    "('c \<Rightarrow> 's list) \<Rightarrow> nat \<Rightarrow> 'c \<Rightarrow> 's list \<Rightarrow> ('c, 's) assignment \<Rightarrow>
     (bool \<times> 's list \<times> ('c, 's) assignment) option" where
  "assign adj fuel c seen m = try_sources adj fuel c (adj c) seen m"

text \<open>\<open>for contributor in sorted(sources): if assign(contributor, set()): matched += 1\<close>.\<close>

fun assign_all ::
    "('c \<Rightarrow> 's list) \<Rightarrow> nat \<Rightarrow> 'c list \<Rightarrow> ('c, 's) assignment \<Rightarrow> nat \<Rightarrow>
     (nat \<times> ('c, 's) assignment) option" where
  "assign_all adj fuel [] m matched = Some (matched, m)"
| "assign_all adj fuel (c # cs) m matched =
     (case assign adj fuel c [] m of
        None \<Rightarrow> None
      | Some (ok, _, m') \<Rightarrow> assign_all adj fuel cs m' (if ok then matched + 1 else matched))"

section \<open>Enough fuel\<close>

lemma try_sources_seen:
  "try_sources adj fuel c ss seen m = Some (ok, seen', m') \<Longrightarrow> set seen \<subseteq> set seen'"
proof (induction adj fuel c ss seen m arbitrary: ok seen' m' rule: try_sources.induct)
  case (2 adj fuel c s ss seen m)
  show ?case
  proof (cases "s \<in> set seen")
    case True
    with 2 show ?thesis by simp
  next
    case new: False
    show ?thesis
    proof (cases "m s")
      case None
      with new "2.prems" show ?thesis by auto
    next
      case (Some d)
      with new "2.prems" obtain n ok1 seen1 m1 where n: "fuel = Suc n"
        and rec: "try_sources adj n d (adj d) (s # seen) m = Some (ok1, seen1, m1)"
        by (auto split: option.splits nat.splits prod.splits)
      have sub: "set (s # seen) \<subseteq> set seen1" by (rule "2.IH"(2) [OF new Some n rec])
      show ?thesis
      proof (cases ok1)
        case True
        with "2.prems" new Some n rec sub show ?thesis by auto
      next
        case False
        with "2.prems" new Some n rec have rest: "try_sources adj fuel c ss seen1 m1 = Some (ok, seen', m')"
          by simp
        have "set seen1 \<subseteq> set seen'" by (rule "2.IH"(3) [OF new Some n rec refl _ refl rest]) (use False in simp)
        with sub show ?thesis by auto
      qed
    qed
  qed
qed simp

lemma try_sources_total:
  assumes "finite U" "\<And>c. set (adj c) \<subseteq> U"
  shows "set ss \<subseteq> U \<Longrightarrow> card (U - set seen) \<le> fuel \<Longrightarrow> try_sources adj fuel c ss seen m \<noteq> None"
  using assms(2)
proof (induction adj fuel c ss seen m rule: try_sources.induct)
  case (2 adj fuel c s ss seen m)
  show ?case
  proof (cases "s \<in> set seen")
    case True
    with 2 show ?thesis by simp
  next
    case new: False
    show ?thesis
    proof (cases "m s")
      case None
      with new show ?thesis by simp
    next
      case (Some d)
      have "s \<in> U - set seen" using new "2.prems"(1) by simp
      then have less: "card (U - set (s # seen)) < card (U - set seen)"
        using assms(1) by (intro psubset_card_mono) auto
      then obtain n where n: "fuel = Suc n" using "2.prems"(2) by (cases fuel) auto
      with less "2.prems"(2) have "card (U - set (s # seen)) \<le> n" by simp
      with "2.IH"(2) [OF new Some n _ _ "2.prems"(3)] "2.prems"(3)
      obtain ok seen' m' where rec: "try_sources adj n d (adj d) (s # seen) m = Some (ok, seen', m')"
        by auto
      then have sub: "set (s # seen) \<subseteq> set seen'" by (rule try_sources_seen)
      then have "card (U - set seen') \<le> card (U - set seen)"
        using assms(1) by (intro card_mono) auto
      with "2.prems" have "\<not> ok \<Longrightarrow> try_sources adj fuel c ss seen' m' \<noteq> None"
        by (intro "2.IH"(3) [OF new Some n rec]) auto
      with rec new Some n show ?thesis by (cases ok) auto
    qed
  qed
qed simp

lemma assign_all_total:
  assumes "finite U" "\<And>c. set (adj c) \<subseteq> U" "card U \<le> fuel"
  shows "assign_all adj fuel cs m k \<noteq> None"
proof (induction cs arbitrary: m k)
  case (Cons c cs)
  have "assign adj fuel c [] m \<noteq> None"
    unfolding assign_def using assms by (intro try_sources_total [of U]) auto
  with Cons show ?case by (auto split: option.splits)
qed simp

section \<open>Valid assignments\<close>

text \<open>Each contributor holds at most one source, and only a source of its own.\<close>

definition valid_assignment :: "('c \<Rightarrow> 's list) \<Rightarrow> ('c, 's) assignment \<Rightarrow> bool" where
  "valid_assignment adj m \<longleftrightarrow>
     (\<forall>s c. m s = Some c \<longrightarrow> s \<in> set (adj c)) \<and>
     (\<forall>s t c. m s = Some c \<longrightarrow> m t = Some c \<longrightarrow> s = t)"

definition assignment_for :: "('c \<Rightarrow> 's list) \<Rightarrow> 'c set \<Rightarrow> ('c, 's) assignment \<Rightarrow> bool" where
  "assignment_for adj C m \<longleftrightarrow> valid_assignment adj m \<and> ran m \<subseteq> C"

lemma valid_adj: "valid_assignment adj m \<Longrightarrow> m s = Some c \<Longrightarrow> s \<in> set (adj c)"
  by (simp add: valid_assignment_def)

lemma valid_inj: "valid_assignment adj m \<Longrightarrow> m s = Some c \<Longrightarrow> m t = Some c \<Longrightarrow> s = t"
  unfolding valid_assignment_def by blast

text \<open>
  What a failed call leaves: nothing moved, and the sources it saw are closed: each is held by a
  contributor all of whose sources were seen.
\<close>

lemma try_sources_fails:
  "try_sources adj fuel c ss seen m = Some (False, seen', m') \<Longrightarrow>
     m' = m \<and> set ss \<subseteq> set seen' \<and>
     (\<forall>u\<in>set seen' - set seen. \<exists>x. m u = Some x \<and> set (adj x) \<subseteq> set seen')"
proof (induction adj fuel c ss seen m arbitrary: seen' m' rule: try_sources.induct)
  case (2 adj fuel c s ss seen m)
  show ?case
  proof (cases "s \<in> set seen")
    case True
    with "2.IH"(1) "2.prems" show ?thesis
      using try_sources_seen [of adj fuel c ss seen m False seen' m'] by auto
  next
    case new: False
    with "2.prems" obtain d n seen1 m1 where d: "m s = Some d" "fuel = Suc n"
      "try_sources adj n d (adj d) (s # seen) m = Some (False, seen1, m1)"
      "try_sources adj fuel c ss seen1 m1 = Some (False, seen', m')"
      by (auto split: option.splits nat.splits bool.splits prod.splits)
    have f1: "m1 = m" "set (adj d) \<subseteq> set seen1"
      "\<forall>u\<in>set seen1 - set (s # seen). \<exists>x. m u = Some x \<and> set (adj x) \<subseteq> set seen1"
      using "2.IH"(2) [OF new d(1,2,3)] by auto
    have f2: "m' = m" "set ss \<subseteq> set seen'"
      "\<forall>u\<in>set seen' - set seen1. \<exists>x. m u = Some x \<and> set (adj x) \<subseteq> set seen'"
      using "2.IH"(3) [OF new d(1,2,3) refl refl refl d(4)] f1(1) by auto
    have sub: "set (s # seen) \<subseteq> set seen1" "set seen1 \<subseteq> set seen'"
      using try_sources_seen d(3,4) by fast+
    have "\<exists>x. m u = Some x \<and> set (adj x) \<subseteq> set seen'" if "u \<in> set seen' - set seen" for u
    proof (cases "u \<in> set seen1")
      case True
      with that have "u = s \<or> u \<in> set seen1 - set (s # seen)" by auto
      then show ?thesis using f1 d(1) sub by blast
    next
      case False
      with that f2(3) show ?thesis by blast
    qed
    with f2 sub show ?thesis by auto
  qed
qed simp

text \<open>
  What a successful call does: exactly one source is newly held by the caller, every other
  contributor holds a source iff it did before, and sources seen before the call do not move.
\<close>

definition augments :: "('c \<Rightarrow> 's list) \<Rightarrow> 'c \<Rightarrow> 's set \<Rightarrow> ('c, 's) assignment \<Rightarrow> ('c, 's) assignment \<Rightarrow> bool" where
  "augments adj c seen m m' \<longleftrightarrow>
     (\<exists>t. t \<notin> seen \<and> t \<in> set (adj c) \<and> (\<forall>u. m' u = Some c \<longleftrightarrow> u = t \<or> m u = Some c)) \<and>
     (\<forall>u\<in>seen. m' u = m u) \<and>
     (\<forall>x. x \<noteq> c \<longrightarrow> (x \<in> ran m' \<longleftrightarrow> x \<in> ran m)) \<and>
     (\<forall>x u v. x \<noteq> c \<longrightarrow> m' u = Some x \<longrightarrow> m' v = Some x \<longrightarrow> u = v) \<and>
     (\<forall>x u. m' u = Some x \<longrightarrow> u \<in> set (adj x)) \<and>
     dom m \<subseteq> dom m' \<and> (\<exists>t. t \<notin> dom m \<and> dom m' = insert t (dom m))"

lemma augments_free:
  assumes "valid_assignment adj m" "s \<in> set (adj c)" "s \<notin> seen" "m s = None"
  shows "augments adj c seen m (m(s \<mapsto> c))"
proof -
  have ran: "ran (m(s \<mapsto> c)) = insert c (ran m)" using assms(4) by (simp add: ran_map_upd)
  show ?thesis
    unfolding augments_def ran using assms
    by (auto simp: valid_adj dom_def intro!: exI [of _ s] dest: valid_inj split: if_splits)
qed

lemma augments_displace:
  assumes v: "valid_assignment adj m" and s: "s \<in> set (adj c)" "s \<notin> seen" "m s = Some d"
    and own: "\<forall>u. m u = Some c \<longrightarrow> u \<in> seen"
    and a: "augments adj d (insert s seen) m m'"
  shows "augments adj c seen m (m'(s \<mapsto> c))"
proof -
  have dc: "d \<noteq> c" using s own by auto
  from a obtain t where t: "t \<notin> insert s seen" "t \<in> set (adj d)" "\<And>u. m' u = Some d \<longleftrightarrow> u = t \<or> m u = Some d"
    by (auto simp: augments_def)
  from a have same: "\<And>u. u \<in> insert s seen \<Longrightarrow> m' u = m u"
    and ranx: "\<And>x. x \<noteq> d \<Longrightarrow> x \<in> ran m' \<longleftrightarrow> x \<in> ran m"
    and inj: "\<And>x u w. x \<noteq> d \<Longrightarrow> m' u = Some x \<Longrightarrow> m' w = Some x \<Longrightarrow> u = w"
    and edges: "\<And>x u. m' u = Some x \<Longrightarrow> u \<in> set (adj x)"
    and dm: "dom m \<subseteq> dom m'" "\<exists>t. t \<notin> dom m \<and> dom m' = insert t (dom m)"
    by (auto simp: augments_def)
  have m'd: "m' u = Some d \<longleftrightarrow> u = t \<or> u = s" for u
    using t(3) s(3) valid_inj [OF v] by blast
  have m'c: "m' u = Some c \<longleftrightarrow> m u = Some c" for u
  proof
    assume u: "m' u = Some c"
    then have "c \<in> ran m" using ranx [of c] dc by (auto simp: ran_def)
    then obtain w where w: "m w = Some c" by (auto simp: ran_def)
    then have "m' w = Some c" using own same by auto
    with u inj dc w show "m u = Some c" by metis
  qed (use own same in auto)
  have s': "m' s = Some d" using same s(3) by simp
  have rn: "x \<in> ran (m'(s \<mapsto> c)) \<longleftrightarrow> x \<in> ran m" if "x \<noteq> c" for x
  proof (cases "x = d")
    case True
    have "t \<noteq> s" "m' t = Some d" using m'd t(1) by auto
    then have "(m'(s \<mapsto> c)) t = Some d" by simp
    with s(3) True have "x \<in> ran (m'(s \<mapsto> c))" "x \<in> ran m" by (metis ranI)+
    then show ?thesis by simp
  next
    case False
    then have "x \<in> ran (m'(s \<mapsto> c)) \<longleftrightarrow> x \<in> ran m'"
      using that s' unfolding ran_def by (simp, metis option.inject)
    with ranx False show ?thesis by simp
  qed
  have one: "\<exists>t. t \<notin> seen \<and> t \<in> set (adj c) \<and> (\<forall>u. (m'(s \<mapsto> c)) u = Some c \<longleftrightarrow> u = t \<or> m u = Some c)"
    by (rule exI [of _ s]) (use s m'c in auto)
  have ij: "u = w" if "x \<noteq> c" "(m'(s \<mapsto> c)) u = Some x" "(m'(s \<mapsto> c)) w = Some x" for x u w
  proof -
    from that have "u \<noteq> s" "w \<noteq> s" "m' u = Some x" "m' w = Some x" by (auto split: if_splits)
    then show ?thesis using inj m'd by (cases "x = d") auto
  qed
  have dom: "dom (m'(s \<mapsto> c)) = dom m'" using s' by auto
  have sm: "\<forall>u\<in>seen. (m'(s \<mapsto> c)) u = m u" using same s(2) by auto
  have ed: "u \<in> set (adj x)" if "(m'(s \<mapsto> c)) u = Some x" for x u
    using that edges s(1) by (auto split: if_splits)
  show ?thesis
    unfolding augments_def dom using one rn sm dm ij ed by blast
qed

lemma augments_mono:
  assumes a: "augments adj c S m m'" and sub: "S' \<subseteq> S"
  shows "augments adj c S' m m'"
proof -
  from a obtain t where t: "t \<notin> S" "t \<in> set (adj c)" "\<forall>u. m' u = Some c \<longleftrightarrow> u = t \<or> m u = Some c"
    by (auto simp: augments_def)
  have "\<exists>t. t \<notin> S' \<and> t \<in> set (adj c) \<and> (\<forall>u. m' u = Some c \<longleftrightarrow> u = t \<or> m u = Some c)"
    by (rule exI [of _ t]) (use t sub in auto)
  moreover have "\<forall>u\<in>S'. m' u = m u" using a sub by (auto simp: augments_def)
  ultimately show ?thesis using a by (simp add: augments_def)
qed

lemma try_sources_succeeds:
  "try_sources adj fuel c ss seen m = Some (True, seen', m') \<Longrightarrow> valid_assignment adj m \<Longrightarrow>
     set ss \<subseteq> set (adj c) \<Longrightarrow> (\<forall>u. m u = Some c \<longrightarrow> u \<in> set seen) \<Longrightarrow> augments adj c (set seen) m m'"
proof (induction adj fuel c ss seen m arbitrary: seen' m' rule: try_sources.induct)
  case (2 adj fuel c s ss seen m)
  show ?case
  proof (cases "s \<in> set seen")
    case True
    with 2 show ?thesis by simp
  next
    case new: False
    show ?thesis
    proof (cases "m s")
      case None
      with new "2.prems" show ?thesis using augments_free [of adj m s c "set seen"] by simp
    next
      case (Some d)
      with new "2.prems"(1) obtain n ok seen1 m1 where n: "fuel = Suc n"
        and rec: "try_sources adj n d (adj d) (s # seen) m = Some (ok, seen1, m1)"
        by (auto split: option.splits nat.splits prod.splits)
      show ?thesis
      proof (cases ok)
        case True
        with rec have "augments adj d (set (s # seen)) m m1"
          by (intro "2.IH"(2) [OF new Some n]) (use "2.prems"(2) Some in \<open>auto dest: valid_inj\<close>)
        then have "augments adj d (insert s (set seen)) m m1" by simp
        then have "augments adj c (set seen) m (m1(s \<mapsto> c))"
          using augments_displace [OF "2.prems"(2) _ new Some "2.prems"(4)] "2.prems"(3) by simp
        moreover have "m' = m1(s \<mapsto> c)" using "2.prems"(1) new Some n rec True by simp
        ultimately show ?thesis by metis
      next
        case False
        then have rec': "try_sources adj n d (adj d) (s # seen) m = Some (False, seen1, m1)" using rec by simp
        have m1: "m1 = m" "set (s # seen) \<subseteq> set seen1"
          using try_sources_fails [OF rec'] try_sources_seen [OF rec'] by simp_all
        have rest: "try_sources adj fuel c ss seen1 m1 = Some (True, seen', m')"
          using "2.prems"(1) new Some n rec False by simp
        have "augments adj c (set seen1) m1 m'"
          by (rule "2.IH"(3) [OF new Some n rec refl _ refl rest]) (use False m1 "2.prems" in auto)
        then have "augments adj c (set seen1) m m'" using m1(1) by simp
        then show ?thesis by (rule augments_mono) (use m1(2) in auto)
      qed
    qed
  qed
qed simp

lemma augments_valid:
  assumes "augments adj c seen m m'" "valid_assignment adj m" "c \<notin> ran m"
  shows "valid_assignment adj m'" "ran m' = insert c (ran m)"
    "finite (dom m) \<Longrightarrow> finite (dom m') \<and> card (dom m') = Suc (card (dom m))"
proof -
  from assms(3) have nc: "m u \<noteq> Some c" for u by (auto simp: ran_def)
  from assms(1) nc obtain t where t: "\<And>u. m' u = Some c \<longleftrightarrow> u = t" by (auto simp: augments_def)
  from assms(1) have inj: "\<And>x u w. x \<noteq> c \<Longrightarrow> m' u = Some x \<Longrightarrow> m' w = Some x \<Longrightarrow> u = w"
    and e: "\<And>x u. m' u = Some x \<Longrightarrow> u \<in> set (adj x)"
    and r: "\<And>x. x \<noteq> c \<Longrightarrow> x \<in> ran m' \<longleftrightarrow> x \<in> ran m"
    and dm: "\<exists>t. t \<notin> dom m \<and> dom m' = insert t (dom m)"
    by (auto simp: augments_def)
  show "valid_assignment adj m'"
    unfolding valid_assignment_def using inj e t by metis
  have "c \<in> ran m'" using t by (auto simp: ran_def)
  with r show "ran m' = insert c (ran m)" by (intro set_eqI) (metis insert_iff)
  show "finite (dom m) \<Longrightarrow> finite (dom m') \<and> card (dom m') = Suc (card (dom m))"
    using dm by (metis card_insert_disjoint finite_insert)
qed

section \<open>Maximality\<close>

text \<open>
  A set of sources is closed when every one of them is held by a contributor whose sources all lie
  in the set. No augmenting path leaves a closed set, so a later success cannot change it.
\<close>

definition closed_under :: "('c \<Rightarrow> 's list) \<Rightarrow> ('c, 's) assignment \<Rightarrow> 's set \<Rightarrow> bool" where
  "closed_under adj m K \<longleftrightarrow> (\<forall>u\<in>K. \<exists>x. m u = Some x \<and> set (adj x) \<subseteq> K)"

lemma closed_underD: "closed_under adj m K \<Longrightarrow> u \<in> K \<Longrightarrow> m u = Some x \<Longrightarrow> set (adj x) \<subseteq> K"
  unfolding closed_under_def by (metis option.inject)

lemma closed_blocks:
  "try_sources adj fuel c ss seen m = Some (ok, seen', m') \<Longrightarrow> closed_under adj m K \<Longrightarrow> set ss \<subseteq> K \<Longrightarrow> \<not> ok"
proof (induction adj fuel c ss seen m arbitrary: ok seen' m' rule: try_sources.induct)
  case (2 adj fuel c s ss seen m)
  show ?case
  proof (cases "s \<in> set seen")
    case True
    with 2 show ?thesis by simp
  next
    case new: False
    from "2.prems"(2,3) obtain d where d: "m s = Some d" "set (adj d) \<subseteq> K" by (auto simp: closed_under_def)
    with new "2.prems"(1) obtain n ok1 seen1 m1 where n: "fuel = Suc n"
      and rec: "try_sources adj n d (adj d) (s # seen) m = Some (ok1, seen1, m1)"
      by (auto split: option.splits nat.splits prod.splits)
    have "\<not> ok1" by (rule "2.IH"(2) [OF new d(1) n rec "2.prems"(2) d(2)])
    then have "try_sources adj n d (adj d) (s # seen) m = Some (False, seen1, m1)" using rec by simp
    then have "m1 = m" using try_sources_fails by fast
    have rest: "try_sources adj fuel c ss seen1 m1 = Some (ok, seen', m')"
      using "2.prems"(1) new d n rec \<open>\<not> ok1\<close> by simp
    show ?thesis
      by (rule "2.IH"(3) [OF new d(1) n rec refl _ refl rest]) (use \<open>\<not> ok1\<close> \<open>m1 = m\<close> "2.prems" in auto)
  qed
qed simp

lemma closed_untouched:
  "try_sources adj fuel c ss seen m = Some (True, seen', m') \<Longrightarrow> closed_under adj m K \<Longrightarrow> u \<in> K \<Longrightarrow> m' u = m u"
proof (induction adj fuel c ss seen m arbitrary: seen' m' rule: try_sources.induct)
  case (2 adj fuel c s ss seen m)
  show ?case
  proof (cases "s \<in> set seen")
    case True
    with 2 show ?thesis by simp
  next
    case new: False
    show ?thesis
    proof (cases "m s")
      case None
      then have "s \<notin> K" using "2.prems"(2) by (auto simp: closed_under_def)
      with None new "2.prems" show ?thesis by auto
    next
      case (Some d)
      with new "2.prems"(1) obtain n ok seen1 m1 where n: "fuel = Suc n"
        and rec: "try_sources adj n d (adj d) (s # seen) m = Some (ok, seen1, m1)"
        by (auto split: option.splits nat.splits prod.splits)
      show ?thesis
      proof (cases ok)
        case True
        have "s \<notin> K"
        proof
          assume "s \<in> K"
          from closed_underD [OF "2.prems"(2) this Some] have "set (adj d) \<subseteq> K" .
          with closed_blocks [OF rec "2.prems"(2)] True show False by simp
        qed
        moreover have "m1 u = m u"
          by (rule "2.IH"(2) [OF new Some n rec [unfolded eqTrueI [OF True]] "2.prems"(2,3)])
        moreover have "m' = m1(s \<mapsto> c)" using "2.prems"(1) new Some n rec True by simp
        ultimately show ?thesis using "2.prems"(3) by auto
      next
        case False
        with rec have m1: "m1 = m" using try_sources_fails [of adj n d "adj d" "s # seen" m seen1 m1] by simp
        have rest: "try_sources adj fuel c ss seen1 m1 = Some (True, seen', m')"
          using "2.prems"(1) new Some n rec False by simp
        have "m' u = m1 u"
          by (rule "2.IH"(3) [OF new Some n rec refl _ refl rest]) (use False m1 "2.prems" in auto)
        with m1 show ?thesis by simp
      qed
    qed
  qed
qed simp

text \<open>The invariant of the loop over contributors: \<open>K\<close> collects the closed sets of the failures.\<close>

definition loop_inv :: "('c \<Rightarrow> 's list) \<Rightarrow> 'c set \<Rightarrow> 's set \<Rightarrow> ('c, 's) assignment \<Rightarrow> nat \<Rightarrow> bool" where
  "loop_inv adj done K m k \<longleftrightarrow>
     valid_assignment adj m \<and> ran m \<subseteq> done \<and> closed_under adj m K \<and> finite (dom m) \<and> card (dom m) = k \<and>
     (\<forall>c\<in>done. c \<notin> ran m \<longrightarrow> set (adj c) \<subseteq> K)"

lemma assign_loop_inv:
  assumes inv: "loop_inv adj done K m k" and new: "c \<notin> done"
    and step: "assign adj fuel c [] m = Some (ok, seen', m')"
  shows "\<exists>K'. loop_inv adj (insert c done) K' m' (if ok then k + 1 else k)"
proof (cases ok)
  case True
  have v: "valid_assignment adj m" "closed_under adj m K" "c \<notin> ran m"
    using inv new by (auto simp: loop_inv_def)
  from step True have t: "try_sources adj fuel c (adj c) [] m = Some (True, seen', m')"
    by (simp add: assign_def)
  have a: "augments adj c (set []) m m'"
    by (rule try_sources_succeeds [OF t]) (use v in \<open>auto simp: ran_def\<close>)
  have "closed_under adj m' K"
    using v(2) closed_untouched [OF t v(2)] unfolding closed_under_def by metis
  with augments_valid [OF a v(1,3)] inv True have "loop_inv adj (insert c done) K m' (k + 1)"
    unfolding loop_inv_def by auto
  with True show ?thesis by auto
next
  case False
  from step False have t: "try_sources adj fuel c (adj c) [] m = Some (False, seen', m')"
    by (simp add: assign_def)
  have f: "m' = m" "set (adj c) \<subseteq> set seen'"
    "\<forall>u\<in>set seen'. \<exists>x. m u = Some x \<and> set (adj x) \<subseteq> set seen'"
    using try_sources_fails [OF t] by auto
  have "closed_under adj m (K \<union> set seen')"
    using f(3) inv unfolding closed_under_def loop_inv_def by (meson UnE le_supI1 le_supI2)
  with f inv have "loop_inv adj (insert c done) (K \<union> set seen') m' k"
    unfolding loop_inv_def by auto
  with False show ?thesis by auto
qed

lemma assign_all_inv:
  "assign_all adj fuel cs m k = Some (n, m') \<Longrightarrow> loop_inv adj done K m k \<Longrightarrow> distinct cs \<Longrightarrow>
     set cs \<inter> done = {} \<Longrightarrow> \<exists>K'. loop_inv adj (done \<union> set cs) K' m' n"
proof (induction cs arbitrary: m k "done" K)
  case Nil
  then show ?case by auto
next
  case (Cons c cs)
  from Cons.prems(1) obtain ok seen' m1 where step: "assign adj fuel c [] m = Some (ok, seen', m1)"
    and rest: "assign_all adj fuel cs m1 (if ok then k + 1 else k) = Some (n, m')"
    by (auto split: option.splits prod.splits)
  obtain K1 where "loop_inv adj (insert c done) K1 m1 (if ok then k + 1 else k)"
    using assign_loop_inv [OF Cons.prems(2) _ step] Cons.prems(4) by auto
  from Cons.IH [OF rest this] Cons.prems(3,4) show ?case by auto
qed

text \<open>Any assignment for the same contributors fits into the one the loop found.\<close>

lemma loop_inv_max:
  assumes inv: "loop_inv adj C K m n" and m0: "assignment_for adj C m0"
  shows "finite (dom m0) \<and> card (dom m0) \<le> n"
proof -
  from inv have v: "valid_assignment adj m" and cl: "closed_under adj m K" and fin: "finite (dom m)"
    and cd: "card (dom m) = n" and fl: "\<And>c. c \<in> C \<Longrightarrow> c \<notin> ran m \<Longrightarrow> set (adj c) \<subseteq> K"
    by (auto simp: loop_inv_def)
  from m0 have v0: "valid_assignment adj m0" and r0: "ran m0 \<subseteq> C" by (auto simp: assignment_for_def)
  define held where "held u = (if u \<in> K then u else (SOME t. m t = m0 u))" for u
  have out: "m (held u) = m0 u \<and> held u \<notin> K" if "u \<in> dom m0" "u \<notin> K" for u
  proof -
    from that(1) obtain x where x: "m0 u = Some x" by auto
    with r0 have "x \<in> C" by (auto simp: ran_def)
    have nk: "\<not> set (adj x) \<subseteq> K" using valid_adj [OF v0 x] that(2) by auto
    with fl \<open>x \<in> C\<close> have "x \<in> ran m" by blast
    then obtain t where "m t = m0 u" using x by (auto simp: ran_def)
    then have "m (held u) = m0 u" unfolding held_def using that(2) by (auto intro: someI)
    moreover have "held u \<notin> K" using closed_underD [OF cl] calculation x nk by metis
    ultimately show ?thesis by simp
  qed
  have "held ` dom m0 \<subseteq> dom m"
  proof
    fix t assume "t \<in> held ` dom m0"
    then obtain u where u: "u \<in> dom m0" "t = held u" by auto
    show "t \<in> dom m"
    proof (cases "u \<in> K")
      case True
      with cl u show ?thesis by (auto simp: held_def closed_under_def)
    next
      case False
      with out u show ?thesis by fastforce
    qed
  qed
  moreover have "inj_on held (dom m0)"
  proof (rule inj_onI)
    fix u w assume uw: "u \<in> dom m0" "w \<in> dom m0" "held u = held w"
    have K: "held x \<in> K \<longleftrightarrow> x \<in> K" if "x \<in> dom m0" for x
      using out [OF that] by (auto simp: held_def)
    show "u = w"
    proof (cases "u \<in> K")
      case True
      with uw K have "w \<in> K" by metis
      with True uw(3) show ?thesis by (simp add: held_def)
    next
      case False
      with uw K have "w \<notin> K" by metis
      with False uw out have "m0 u = m0 w" by metis
      with uw(1) v0 show ?thesis by (metis domD valid_inj)
    qed
  qed
  ultimately show ?thesis using fin cd by (metis card_image card_mono finite_imageD rev_finite_subset)
qed

lemma assign_all_maximum:
  assumes "assign_all adj fuel cs Map.empty 0 = Some (n, m)" "distinct cs"
  shows "assignment_for adj (set cs) m" "card (dom m) = n"
    "assignment_for adj (set cs) m0 \<Longrightarrow> card (dom m0) \<le> n"
proof -
  have "loop_inv adj {} {} Map.empty 0"
    by (simp add: loop_inv_def valid_assignment_def closed_under_def)
  from assign_all_inv [OF assms(1) this assms(2)] obtain K where inv: "loop_inv adj (set cs) K m n" by auto
  then show "assignment_for adj (set cs) m" "card (dom m) = n"
    by (auto simp: loop_inv_def assignment_for_def)
  show "assignment_for adj (set cs) m0 \<Longrightarrow> card (dom m0) \<le> n"
    using loop_inv_max [OF inv] by blast
qed

end
