(* ===== verification/Independence.thy ===== *)
theory Independence
  imports Facts Matching
begin

text \<open>
  \<open>src/chorus/domain/facts.py\<close>: \<open>IndependentSource\<close>, \<open>_source_sort_key\<close>, \<open>IndependenceResult\<close>,
  \<open>independent_sources\<close> and \<open>independent_source_count\<close>. The count is proved to be the size of a
  largest assignment of distinct origins to distinct contributors (\<open>independent_sources_maximum\<close>),
  stated over the supplied facts and not over the code's intermediate dictionary.
\<close>

section \<open>Independent sources\<close>

text \<open>The constructors in the order of their sort keys: \<open>"evidence-root" < "reporter"\<close>.\<close>

datatype independent_source =
    EvidenceRootSource evidence_root_id
  | ReporterSource contributor_id

text \<open>The order of \<open>_source_sort_key\<close>.\<close>

fun source_at_most :: "independent_source \<Rightarrow> independent_source \<Rightarrow> bool" where
  "source_at_most (EvidenceRootSource r) (EvidenceRootSource s) \<longleftrightarrow> r \<le> s"
| "source_at_most (EvidenceRootSource r) (ReporterSource c) \<longleftrightarrow> True"
| "source_at_most (ReporterSource c) (EvidenceRootSource r) \<longleftrightarrow> False"
| "source_at_most (ReporterSource c) (ReporterSource d) \<longleftrightarrow> c \<le> d"

instantiation independent_source :: linorder
begin

definition less_eq_independent_source :: "independent_source \<Rightarrow> independent_source \<Rightarrow> bool" where
  [simp]: "less_eq_independent_source a b \<longleftrightarrow> source_at_most a b"

definition less_independent_source :: "independent_source \<Rightarrow> independent_source \<Rightarrow> bool" where
  "less_independent_source a b \<longleftrightarrow> a \<le> b \<and> \<not> b \<le> a"

instance
proof
  fix x y z :: independent_source
  show "x < y \<longleftrightarrow> x \<le> y \<and> \<not> y \<le> x" by (simp add: less_independent_source_def)
  show "x \<le> x" by (cases x) auto
  show "x \<le> y \<Longrightarrow> y \<le> z \<Longrightarrow> x \<le> z" by (cases x; cases y; cases z) auto
  show "x \<le> y \<Longrightarrow> y \<le> x \<Longrightarrow> x = y" by (cases x; cases y) auto
  show "x \<le> y \<or> y \<le> x" by (cases x; cases y) auto
qed

end

record independence_result =
  count :: nat
  sources_by_contributor :: "(contributor_id \<times> independent_source list) list"

section \<open>What one fact contributes\<close>

text \<open>The body of the loop over \<open>fact.evidence_ids\<close>.\<close>

definition evidence_source ::
    "evidence_item list \<Rightarrow> evidence_root list \<Rightarrow> fact \<Rightarrow> evidence_item_id \<Rightarrow> independent_source result" where
  "evidence_source items roots f eid =
     (case index_by item_id items eid of
        None \<Rightarrow> Inl (ValueError ''fact evidence item is missing'')
      | Some item \<Rightarrow>
          if item_case_id item \<noteq> fact_case_id f \<or> item_community_id item \<noteq> fact_community_id f
             \<or> item_namespace item \<noteq> fact_namespace f
          then Inl (ValueError ''fact evidence crosses case, community, or namespace'')
          else case index_by root_id roots (item_root_id item) of
            None \<Rightarrow> Inl (ValueError ''fact evidence root crosses community or namespace'')
          | Some root \<Rightarrow>
              if root_community_id root \<noteq> fact_community_id f \<or> root_namespace root \<noteq> fact_namespace f
              then Inl (ValueError ''fact evidence root crosses community or namespace'')
              else bindE (collapse_evidence_root (item_root_id item) roots)
                     (\<lambda>r. Inr (EvidenceRootSource r)))"

text \<open>The checks on the original of a duplicate report.\<close>

definition duplicate_origin_check :: "report list \<Rightarrow> report \<Rightarrow> unit result" where
  "duplicate_origin_check reports r =
     (case report_duplicate_of r of
        None \<Rightarrow> Inl (ValueError ''duplicate report origin is missing'')
      | Some oid \<Rightarrow>
          (case index_by report_id reports oid of
             None \<Rightarrow> Inl (ValueError ''duplicate report origin is invalid'')
           | Some original \<Rightarrow>
               checks [(report_case_id original \<noteq> report_case_id r
                        \<or> report_community_id original \<noteq> report_community_id r
                        \<or> report_namespace original \<noteq> report_namespace r,
                        ValueError ''duplicate report origin is invalid'')]))"

text \<open>
  The body of the loop over \<open>facts\<close>: \<open>None\<close> where it reaches \<open>continue\<close> before the
  contributor's entry is made.
\<close>

definition fact_contribution ::
    "report list \<Rightarrow> evidence_item list \<Rightarrow> evidence_root list \<Rightarrow> fact \<Rightarrow>
     (contributor_id \<times> independent_source list) option result" where
  "fact_contribution reports items roots f =
     (if fact_status f \<noteq> FS_ACTIVE then Inr None
      else case index_by report_id reports (fact_report_id f) of
        None \<Rightarrow> Inl (ValueError ''fact report lineage is invalid'')
      | Some r \<Rightarrow>
          if report_case_id r \<noteq> Some (fact_case_id f) \<or> report_community_id r \<noteq> fact_community_id f
             \<or> report_contributor_id r \<noteq> fact_contributor_id f \<or> report_namespace r \<noteq> fact_namespace f
          then Inl (ValueError ''fact report lineage is invalid'')
          else bindE (map_result (evidence_source items roots f) (fact_evidence_ids f)) (\<lambda>found.
            if report_status r = RS_DUPLICATE
            then bindE (duplicate_origin_check reports r) (\<lambda>_. Inr None)
            else if report_status r = RS_RETRACTED then Inr None
            else Inr (Some (fact_contributor_id f,
                   if found = [] then [ReporterSource (fact_contributor_id f)] else found))))"

definition sources_of ::
    "(contributor_id \<times> independent_source list) option list \<Rightarrow>
     (contributor_id \<times> independent_source list) list" where
  "sources_of contributions =
     map (\<lambda>(c, found). (c, sort (fromkeys (concat found))))
       (group_all fst snd (List.map_filter id contributions))"

definition sources_for :: "(contributor_id \<times> independent_source list) list \<Rightarrow> contributor_id \<Rightarrow> independent_source list" where
  "sources_for groups c = (case map_of groups c of None \<Rightarrow> [] | Some ss \<Rightarrow> ss)"

definition recursion_error :: error where
  "recursion_error = IntegrityError ''maximum recursion depth exceeded''"

definition independent_sources ::
    "fact list \<Rightarrow> report list \<Rightarrow> evidence_item list \<Rightarrow> evidence_root list \<Rightarrow> independence_result result" where
  "independent_sources facts reports items roots =
     bindE (checks
       [(\<not> distinct (map report_id reports), ValueError ''report IDs must be unique''),
        (\<not> distinct (map item_id items), ValueError ''evidence item IDs must be unique''),
        (\<not> distinct (map root_id roots), ValueError ''evidence root IDs must be unique''),
        (\<not> distinct (map (\<lambda>r. (root_community_id r, root_sha256 r)) roots),
         ValueError ''evidence roots must be content-address unique within a community'')])
       (\<lambda>_. bindE (map_result (fact_contribution reports items roots) facts) (\<lambda>contributions.
          let groups = sources_of contributions in
          (case assign_all (sources_for groups) (length (concat (map snd groups)))
                  (sort (map fst groups)) Map.empty 0 of
             None \<Rightarrow> Inl recursion_error
           | Some (matched, _) \<Rightarrow> Inr \<lparr>count = matched, sources_by_contributor = groups\<rparr>)))"

definition independent_source_count ::
    "fact list \<Rightarrow> report list \<Rightarrow> evidence_item list \<Rightarrow> evidence_root list \<Rightarrow> nat result" where
  "independent_source_count facts reports items roots =
     bindE (independent_sources facts reports items roots) (\<lambda>r. Inr (count r))"

section \<open>The specification\<close>

text \<open>\<open>f\<close> gives its contributor the source \<open>s\<close>.\<close>

definition contributes ::
    "report list \<Rightarrow> evidence_item list \<Rightarrow> evidence_root list \<Rightarrow> fact \<Rightarrow> independent_source \<Rightarrow> bool" where
  "contributes reports items roots f s \<longleftrightarrow>
     fact_status f = FS_ACTIVE \<and>
     (\<exists>r. index_by report_id reports (fact_report_id f) = Some r \<and>
          report_status r \<noteq> RS_DUPLICATE \<and> report_status r \<noteq> RS_RETRACTED) \<and>
     (if fact_evidence_ids f = [] then s = ReporterSource (fact_contributor_id f)
      else \<exists>eid item root. eid \<in> set (fact_evidence_ids f) \<and> index_by item_id items eid = Some item \<and>
             collapse_evidence_root (item_root_id item) roots = Inr root \<and> s = EvidenceRootSource root)"

text \<open>An assignment of sources to contributors: at most one source each, each held by one of its own.\<close>

definition independent_assignment ::
    "fact list \<Rightarrow> report list \<Rightarrow> evidence_item list \<Rightarrow> evidence_root list \<Rightarrow>
     (contributor_id, independent_source) assignment \<Rightarrow> bool" where
  "independent_assignment facts reports items roots m \<longleftrightarrow>
     (\<forall>s c. m s = Some c \<longrightarrow> (\<exists>f\<in>set facts. fact_contributor_id f = c \<and> contributes reports items roots f s)) \<and>
     (\<forall>s t c. m s = Some c \<longrightarrow> m t = Some c \<longrightarrow> s = t)"

lemma evidence_source_Inr:
  "evidence_source items roots f eid = Inr s \<Longrightarrow>
     \<exists>item root. index_by item_id items eid = Some item \<and>
       collapse_evidence_root (item_root_id item) roots = Inr root \<and> s = EvidenceRootSource root"
  by (auto simp: evidence_source_def result_simps split: option.splits if_splits)

lemma evidence_sources_set:
  assumes "map_result (evidence_source items roots f) eids = Inr found"
  shows "s \<in> set found \<longleftrightarrow> (\<exists>eid item root. eid \<in> set eids \<and> index_by item_id items eid = Some item \<and>
           collapse_evidence_root (item_root_id item) roots = Inr root \<and> s = EvidenceRootSource root)"
  using assms unfolding map_result_Inr_iff
proof (induction rule: list_all2_induct)
  case (Cons eid eids t found)
  from evidence_source_Inr [OF Cons.hyps(1)] obtain item root where
    "index_by item_id items eid = Some item" "collapse_evidence_root (item_root_id item) roots = Inr root"
    "t = EvidenceRootSource root" by blast
  with Cons.IH show ?case by (simp, metis option.inject sum.inject(2))
qed simp

lemma fact_contribution_set:
  assumes "fact_contribution reports items roots f = Inr out"
  shows "contributes reports items roots f s \<longleftrightarrow>
           (\<exists>found. out = Some (fact_contributor_id f, found) \<and> s \<in> set found)"
proof (cases "fact_status f = FS_ACTIVE")
  case True
  with assms obtain r found where r: "index_by report_id reports (fact_report_id f) = Some r"
    and found: "map_result (evidence_source items roots f) (fact_evidence_ids f) = Inr found"
    and out: "out = (if report_status r = RS_DUPLICATE \<or> report_status r = RS_RETRACTED then None
              else Some (fact_contributor_id f,
                     if found = [] then [ReporterSource (fact_contributor_id f)] else found))"
    by (auto simp: fact_contribution_def result_simps split: option.splits if_splits)
  have "found = [] \<longleftrightarrow> fact_evidence_ids f = []"
    using found by (auto simp: map_result_Inr_iff)
  then show ?thesis
    using evidence_sources_set [OF found, of s] True r out by (auto simp: contributes_def)
next
  case False
  with assms show ?thesis by (auto simp: fact_contribution_def contributes_def)
qed

lemma map_of_sources_of:
  "map_of (sources_of contributions) c =
     (let vs = map snd (filter (\<lambda>x. fst x = c) (List.map_filter id contributions)) in
      if vs = [] then None else Some (sort (fromkeys (concat vs))))"
  unfolding sources_of_def by (simp add: map_of_map map_of_group_all Let_def)

lemma sources_for_set:
  "s \<in> set (sources_for (sources_of contributions) c) \<longleftrightarrow>
     (\<exists>found. Some (c, found) \<in> set contributions \<and> s \<in> set found)"
proof -
  have mem: "x \<in> set (List.map_filter id contributions) \<longleftrightarrow> Some x \<in> set contributions" for x
    by (force simp: List.map_filter_def)
  have "sources_for (sources_of contributions) c =
      sort (fromkeys (concat (map snd (filter (\<lambda>x. fst x = c) (List.map_filter id contributions)))))"
    by (auto simp: sources_for_def map_of_sources_of Let_def)
  then show ?thesis by (auto simp: mem)
qed

lemma distinct_sources_of: "distinct (map fst (sources_of contributions))"
  using distinct_group_all [of fst snd "List.map_filter id contributions"]
  by (simp add: sources_of_def comp_def case_prod_beta)

lemma contribution_sources:
  assumes "map_result (fact_contribution reports items roots) facts = Inr contributions"
  shows "s \<in> set (sources_for (sources_of contributions) c) \<longleftrightarrow>
           (\<exists>f\<in>set facts. fact_contributor_id f = c \<and> contributes reports items roots f s)"
proof -
  have "(\<exists>found. Some (c, found) \<in> set contributions \<and> s \<in> set found) \<longleftrightarrow>
          (\<exists>f\<in>set facts. fact_contributor_id f = c \<and> contributes reports items roots f s)"
    using assms unfolding map_result_Inr_iff
  proof (induction rule: list_all2_induct)
    case (Cons f fs out outs)
    have "contributes reports items roots f s \<longleftrightarrow>
            (\<exists>found. out = Some (fact_contributor_id f, found) \<and> s \<in> set found)"
      by (rule fact_contribution_set [OF Cons.hyps(1)])
    moreover have "out = Some (c', found) \<Longrightarrow> c' = fact_contributor_id f" for c' found
      using Cons.hyps(1)
      by (auto simp: fact_contribution_def result_simps split: option.splits if_splits)
    ultimately show ?case using Cons.IH by auto
  qed simp
  then show ?thesis by (simp add: sources_for_set)
qed

lemma sources_for_subset: "set (sources_for groups c) \<subseteq> set (concat (map snd groups))"
proof (cases "map_of groups c")
  case (Some ss)
  then have "ss \<in> set (map snd groups)" by (force dest: map_of_SomeD)
  with Some show ?thesis by (auto simp: sources_for_def)
qed (simp add: sources_for_def)

lemma sources_for_key: "s \<in> set (sources_for groups c) \<Longrightarrow> c \<in> fst ` set groups"
proof (cases "map_of groups c")
  case (Some ss)
  then show ?thesis by (force dest: map_of_SomeD)
qed (simp add: sources_for_def)

text \<open>The recursion always has enough fuel: every call in a chain has seen a further source.\<close>

lemma independent_sources_total:
  "assign_all (sources_for groups) (length (concat (map snd groups))) cs m k \<noteq> None"
  by (rule assign_all_total [of "set (concat (map snd groups))"])
    (use sources_for_subset in \<open>auto simp: card_length simp del: set_concat\<close>)

lemma independent_sources_InrE:
  assumes "independent_sources facts reports items roots = Inr res"
  obtains contributions m where
    "map_result (fact_contribution reports items roots) facts = Inr contributions"
    "sources_by_contributor res = sources_of contributions"
    "assign_all (sources_for (sources_of contributions)) (length (concat (map snd (sources_of contributions))))
       (sort (map fst (sources_of contributions))) Map.empty 0 = Some (count res, m)"
  using assms
  by (auto simp: independent_sources_def result_simps Let_def split: option.splits)

lemma independent_assignment_iff:
  assumes "map_result (fact_contribution reports items roots) facts = Inr contributions"
  shows "independent_assignment facts reports items roots m \<longleftrightarrow>
           assignment_for (sources_for (sources_of contributions)) (set (map fst (sources_of contributions))) m"
proof -
  have "c \<in> fst ` set (sources_of contributions)" if "s \<in> set (sources_for (sources_of contributions) c)" for s c
    using that sources_for_key by fast
  then show ?thesis
    unfolding independent_assignment_def assignment_for_def valid_assignment_def
    by (auto simp: contribution_sources [OF assms, symmetric] ran_def image_iff) (metis image_iff)+
qed

lemma independent_sources_maximum_exists:
  assumes "independent_sources facts reports items roots = Inr res"
  shows "\<exists>m. independent_assignment facts reports items roots m \<and> card (dom m) = count res"
proof -
  from assms obtain contributions m where c: "map_result (fact_contribution reports items roots) facts = Inr contributions"
    and a: "assign_all (sources_for (sources_of contributions)) (length (concat (map snd (sources_of contributions))))
       (sort (map fst (sources_of contributions))) Map.empty 0 = Some (count res, m)"
    by (rule independent_sources_InrE)
  from assign_all_maximum(1,2) [OF a] distinct_sources_of show ?thesis
    by (auto simp: independent_assignment_iff [OF c])
qed

lemma independent_sources_maximum_bound:
  assumes "independent_sources facts reports items roots = Inr res"
    and "independent_assignment facts reports items roots m0"
  shows "card (dom m0) \<le> count res"
proof -
  from assms(1) obtain contributions m where c: "map_result (fact_contribution reports items roots) facts = Inr contributions"
    and a: "assign_all (sources_for (sources_of contributions)) (length (concat (map snd (sources_of contributions))))
       (sort (map fst (sources_of contributions))) Map.empty 0 = Some (count res, m)"
    by (rule independent_sources_InrE)
  from assign_all_maximum(3) [OF a] distinct_sources_of assms(2) show ?thesis
    by (auto simp: independent_assignment_iff [OF c])
qed

text \<open>Adding facts never lowers the count.\<close>

lemma independent_sources_mono:
  assumes "independent_sources facts reports items roots = Inr r1"
    and "independent_sources facts' reports items roots = Inr r2" and "set facts \<subseteq> set facts'"
  shows "count r1 \<le> count r2"
proof -
  from independent_sources_maximum_exists [OF assms(1)] obtain m where
    m: "independent_assignment facts reports items roots m" "card (dom m) = count r1" by blast
  from m(1) assms(3) have "independent_assignment facts' reports items roots m"
    unfolding independent_assignment_def by blast
  from independent_sources_maximum_bound [OF assms(2) this] m(2) show ?thesis by simp
qed

text \<open>The count is at most the number of contributors, and at most the number of origins.\<close>

lemma independent_assignment_card:
  assumes "independent_assignment facts reports items roots m"
  shows "card (dom m) \<le> card (fact_contributor_id ` set facts)"
proof -
  have "inj_on m (dom m)"
    using assms unfolding independent_assignment_def by (intro inj_onI) (metis domD)
  moreover have "m ` dom m \<subseteq> Some ` fact_contributor_id ` set facts"
    using assms unfolding independent_assignment_def by force
  ultimately have "card (dom m) \<le> card (Some ` fact_contributor_id ` set facts)"
    by (intro card_inj_on_le [of m]) auto
  then show ?thesis by (simp add: card_image)
qed

lemma independent_count_contributors:
  assumes "independent_sources facts reports items roots = Inr res"
  shows "count res \<le> card (fact_contributor_id ` set facts)"
  using independent_sources_maximum_exists [OF assms] independent_assignment_card by metis

end
