(* ===== verification/Evidence_Properties.thy ===== *)
theory Evidence_Properties
  imports Independence
begin

text \<open>
  The properties of identifiers, instants, the evidence-root ancestry and the independence rule of
  \<open>src/chorus/domain\<close> (\<open>ids.py\<close>, \<open>time.py\<close>, \<open>facts.py\<close>).
\<close>

section \<open>Identifiers and instants\<close>

text \<open>
  The text of an identifier parses back to it, only that text does, and the text order the code
  sorts by is the order of the values.
\<close>

theorem identifier_text_roundtrip:
  fixes i j :: "'k ident"
  assumes "uuid_of i < 2 ^ 128" "uuid_of j < 2 ^ 128"
  shows "ident_parse (ident_str i) = Inr i \<and> (ident_parse s = Inr i \<longrightarrow> s = ident_str i) \<and>
    (ident_str i < ident_str j \<longleftrightarrow> i < j)"
  using assms ident_parse_str ident_parse_canonical [of s i] uuid_text_less_iff [of "uuid_of i" "uuid_of j"]
  by (auto simp: ident_str_def less_ident_def)

theorem identifier_text_roundtrip_witness:
  "ident_parse (ident_str (Ident 5 :: case_id)) = Inr (Ident 5 :: case_id) \<and> ident_str (Ident 5 :: case_id) < ident_str (Ident 7 :: case_id)"
  using identifier_text_roundtrip [of "Ident 5 :: case_id" "Ident 7 :: case_id"] by simp

text \<open>
  On a UTC instant \<open>epoch_micros\<close> is exact and \<open>epoch_seconds_ceiling\<close> is the least number of
  whole seconds that is not before it, also before the epoch; a naive or offset datetime is refused.
\<close>

theorem epoch_seconds_ceiling_least:
  "(is_utc d \<longrightarrow> epoch_micros d = Inr (instant d) \<and>
     (\<exists>n. epoch_seconds_ceiling d = Inr n \<and> instant d \<le> n * 1000000 \<and> (\<forall>k. instant d \<le> k * 1000000 \<longrightarrow> n \<le> k))) \<and>
   (\<not> is_utc d \<longrightarrow> epoch_seconds_ceiling d = Inl utc_error)"
proof (intro conjI impI)
  assume d: "is_utc d"
  show m: "epoch_micros d = Inr (instant d)" using d by (rule epoch_micros_exact)
  let ?n = "- ((- instant d) div 1000000)"
  have "n \<le> k" if "n = ?n" "instant d \<le> k * 1000000" for n k :: int
    using ceiling_bounds(2) [of "instant d"] that by linarith
  moreover have "instant d \<le> ?n * 1000000" by (rule ceiling_bounds)
  moreover have "epoch_seconds_ceiling d = Inr ?n" by (simp add: epoch_seconds_ceiling_def m)
  ultimately show "\<exists>n. epoch_seconds_ceiling d = Inr n \<and> instant d \<le> n * 1000000 \<and>
      (\<forall>k. instant d \<le> k * 1000000 \<longrightarrow> n \<le> k)" by blast
next
  assume "\<not> is_utc d"
  then show "epoch_seconds_ceiling d = Inl utc_error"
    by (simp add: epoch_seconds_ceiling_def epoch_micros_def require_utc_def)
qed

theorem epoch_seconds_ceiling_least_witness:
  "\<exists>n. epoch_seconds_ceiling (utc (- 1500000)) = Inr n \<and> - 1500000 \<le> n * 1000000"
  using epoch_seconds_ceiling_least [of "utc (- 1500000)"] by auto

section \<open>Evidence roots\<close>

lemma parent_of_functional: "parent_of roots a b \<Longrightarrow> parent_of roots a c \<Longrightarrow> b = c"
  by (auto simp: parent_of_iff)

lemma origin_no_parent: "origin_root roots r \<Longrightarrow> \<not> parent_of roots r b"
  by (auto simp: origin_root_def parent_of_iff)

text \<open>From a root that reaches an origin there is no way back to itself.\<close>

lemma no_cycle:
  assumes "(parent_of roots)\<^sup>*\<^sup>* a r" "origin_root roots r"
  shows "\<not> (parent_of roots)\<^sup>+\<^sup>+ a a"
  using assms
proof (induction rule: converse_rtranclp_induct)
  case base
  then show ?case by (metis origin_no_parent tranclpD)
next
  case (step a b)
  show ?case
  proof
    assume "(parent_of roots)\<^sup>+\<^sup>+ a a"
    with step.hyps(1) have "(parent_of roots)\<^sup>*\<^sup>* b a" by (metis parent_of_functional tranclpD)
    with step.hyps(1) have "(parent_of roots)\<^sup>+\<^sup>+ b b" by (rule rtranclp_into_tranclp1 [rotated])
    with step.IH step.prems show False by blast
  qed
qed

text \<open>The walk succeeds from wherever nothing it will visit has been visited.\<close>

lemma climb_complete:
  assumes "(parent_of roots)\<^sup>*\<^sup>* a r" "origin_root roots r"
    and scope: "\<And>x. (parent_of roots)\<^sup>*\<^sup>* a x \<Longrightarrow>
      \<exists>root. index_by root_id roots x = Some root \<and> root_community_id root = community \<and> root_namespace root = ns"
    and fresh: "\<And>x. (parent_of roots)\<^sup>*\<^sup>* a x \<Longrightarrow> x \<notin> set visited"
  shows "climb roots community ns visited a = Inr r"
  using assms
proof (induction arbitrary: visited rule: converse_rtranclp_induct)
  case base
  then obtain root where "index_by root_id roots r = Some root" "root_community_id root = community"
    "root_namespace root = ns" by blast
  with base.prems show ?case by (subst climb.simps) (auto simp: origin_root_def)
next
  case (step a b)
  from step.hyps(1) obtain root where root: "index_by root_id roots a = Some root" "root_parent_root_id root = Some b"
    by (auto simp: parent_of_iff)
  with step.prems(2) [of a] have "root_community_id root = community" "root_namespace root = ns" by auto
  moreover have "climb roots community ns (a # visited) b = Inr r"
  proof (rule step.IH)
    fix x assume x: "(parent_of roots)\<^sup>*\<^sup>* b x"
    with step.hyps(1) have ax: "(parent_of roots)\<^sup>*\<^sup>* a x" by (rule converse_rtranclp_into_rtranclp)
    with step.prems(2) show "\<exists>root. index_by root_id roots x = Some root \<and> root_community_id root = community \<and> root_namespace root = ns" .
    have "x \<noteq> a"
    proof
      assume "x = a"
      with x step.hyps(1) have "(parent_of roots)\<^sup>+\<^sup>+ a a" by (auto intro: rtranclp_into_tranclp2)
      moreover have "(parent_of roots)\<^sup>*\<^sup>* a r" using step.hyps by (rule converse_rtranclp_into_rtranclp)
      ultimately show False using no_cycle step.prems(1) by blast
    qed
    with step.prems(3) [OF ax] show "x \<notin> set (a # visited)" by simp
  qed (rule step.prems(1))
  ultimately show ?case using root step.prems(3) [of a] by (subst climb.simps) simp
qed

definition same_scope :: "evidence_root list \<Rightarrow> evidence_root_id \<Rightarrow> evidence_root_id \<Rightarrow> bool" where
  "same_scope roots a x \<longleftrightarrow> (\<exists>ra rx. index_by root_id roots a = Some ra \<and> index_by root_id roots x = Some rx \<and>
     root_community_id rx = root_community_id ra \<and> root_namespace rx = root_namespace ra)"

lemma climb_scope:
  "climb roots community ns visited a = Inr r \<Longrightarrow> (parent_of roots)\<^sup>*\<^sup>* a x \<Longrightarrow>
     \<exists>root. index_by root_id roots x = Some root \<and> root_community_id root = community \<and> root_namespace root = ns"
proof (induction roots community ns visited a rule: climb.induct)
  case (1 roots community ns visited current)
  from "1.prems"(1) obtain root where root: "current \<notin> set visited" "index_by root_id roots current = Some root"
    "root_community_id root = community" "root_namespace root = ns"
    by (subst (asm) climb.simps) (auto split: if_splits option.splits)
  from "1.prems"(2) show ?case
  proof (cases rule: converse_rtranclpE)
    case base
    with root show ?thesis by blast
  next
    case (step b)
    from step(1) root(2) have p: "root_parent_root_id root = Some b" by (auto simp: parent_of_iff)
    with root "1.prems"(1) have "climb roots community ns (current # visited) b = Inr r"
      by (subst (asm) climb.simps) auto
    with root p step(2) show ?thesis by (intro "1.IH" [OF root(1,2) _ p]) auto
  qed
qed

text \<open>
  \<open>collapse_evidence_root\<close> returns a root exactly when the supplied roots have unique identifiers,
  the root is the parentless end of the recorded ancestry, and the whole ancestry lies in the community
  and namespace of the start; a cycle, a missing parent or a crossing is an error.
\<close>

theorem collapse_evidence_root_iff:
  "collapse_evidence_root a roots = Inr r \<longleftrightarrow>
     distinct (map root_id roots) \<and> (parent_of roots)\<^sup>*\<^sup>* a r \<and> origin_root roots r \<and>
     (\<forall>x. (parent_of roots)\<^sup>*\<^sup>* a x \<longrightarrow> same_scope roots a x)"
proof
  assume c: "collapse_evidence_root a roots = Inr r"
  then obtain start where start: "index_by root_id roots a = Some start"
    and walk: "climb roots (root_community_id start) (root_namespace start) [] a = Inr r"
    by (auto simp: collapse_evidence_root_def split: if_splits option.splits)
  from climb_scope [OF walk] start have "\<forall>x. (parent_of roots)\<^sup>*\<^sup>* a x \<longrightarrow> same_scope roots a x"
    by (auto simp: same_scope_def)
  with collapse_evidence_root_Inr [OF c] show "distinct (map root_id roots) \<and> (parent_of roots)\<^sup>*\<^sup>* a r \<and>
      origin_root roots r \<and> (\<forall>x. (parent_of roots)\<^sup>*\<^sup>* a x \<longrightarrow> same_scope roots a x)" by blast
next
  assume h: "distinct (map root_id roots) \<and> (parent_of roots)\<^sup>*\<^sup>* a r \<and> origin_root roots r \<and>
    (\<forall>x. (parent_of roots)\<^sup>*\<^sup>* a x \<longrightarrow> same_scope roots a x)"
  then obtain start where start: "index_by root_id roots a = Some start" by (auto simp: same_scope_def)
  have "climb roots (root_community_id start) (root_namespace start) [] a = Inr r"
    using h start by (intro climb_complete) (auto simp: same_scope_def)
  with h start show "collapse_evidence_root a roots = Inr r" by (simp add: collapse_evidence_root_def)
qed

definition w_root :: "nat \<Rightarrow> nat option \<Rightarrow> evidence_root" where
  "w_root n parent =
     \<lparr>root_id = Ident n, root_community_id = Ident 2, root_namespace = Namespace ''DEMO'',
      root_sha256 = Sha256Digest (replicate n CHR ''a''), root_media_type = ''image/png'',
      root_first_observed_at = utc 0,
      root_derivation_kind = (if parent = None then DK_ORIGINAL else DK_TRANSFORMED),
      root_parent_root_id = map_option Ident parent, root_created_at = utc 0, root_updated_at = utc 0,
      root_version = 1\<rparr>"

definition w_roots :: "evidence_root list" where
  "w_roots = [w_root 1 None, w_root 2 (Some 1), w_root 3 (Some 2), w_root 4 (Some 1), w_root 5 (Some 5)]"

theorem collapse_evidence_root_iff_witness:
  "origin_root w_roots (Ident 1) \<and> (parent_of w_roots)\<^sup>*\<^sup>* (Ident 3) (Ident 1)"
proof -
  have "collapse_evidence_root (Ident 3) w_roots = Inr (Ident 1)" by code_simp
  then show ?thesis unfolding collapse_evidence_root_iff by blast
qed

text \<open>
  Two pieces of evidence collapse to one origin exactly when their ancestries meet: copies of one
  file are one source however they were derived, and unrelated files never are.
\<close>

theorem collapse_same_origin_iff:
  assumes "collapse_evidence_root a roots = Inr r" "collapse_evidence_root b roots = Inr s"
  shows "r = s \<longleftrightarrow> (\<exists>x. (parent_of roots)\<^sup>*\<^sup>* a x \<and> (parent_of roots)\<^sup>*\<^sup>* b x)"
proof
  assume "r = s"
  with collapse_evidence_root_Inr(2) assms show "\<exists>x. (parent_of roots)\<^sup>*\<^sup>* a x \<and> (parent_of roots)\<^sup>*\<^sup>* b x" by metis
next
  assume "\<exists>x. (parent_of roots)\<^sup>*\<^sup>* a x \<and> (parent_of roots)\<^sup>*\<^sup>* b x"
  then obtain x where "(parent_of roots)\<^sup>*\<^sup>* a x" "(parent_of roots)\<^sup>*\<^sup>* b x" by blast
  with assms collapse_ancestor have "collapse_evidence_root x roots = Inr r" "collapse_evidence_root x roots = Inr s" by blast+
  then show "r = s" by simp
qed

theorem collapse_same_origin_iff_witness:
  "\<exists>x. (parent_of w_roots)\<^sup>*\<^sup>* (Ident 3) x \<and> (parent_of w_roots)\<^sup>*\<^sup>* (Ident 4) x"
proof -
  have "collapse_evidence_root (Ident 3) w_roots = Inr (Ident 1)" "collapse_evidence_root (Ident 4) w_roots = Inr (Ident 1)"
    by code_simp+
  from collapse_same_origin_iff [OF this] show ?thesis by simp
qed

section \<open>Independent sources\<close>

definition w_report :: "nat \<Rightarrow> report" where
  "w_report n =
     \<lparr>report_id = Ident (20 + n), report_case_id = Some (Ident 1), report_community_id = Ident 2,
      report_contributor_id = Ident (10 + n), report_namespace = Namespace ''DEMO'',
      report_source_message_ids = [Ident (40 + n)], report_issue_type = ''ELEVATOR'',
      report_private_summary = SensitiveStr ''stuck'', report_occurred_at = None,
      report_location_area = None, report_evidence_ids = [], report_status = RS_ACTIVE,
      report_duplicate_of = None, report_version = 1, report_created_at = utc 0, report_updated_at = utc 0\<rparr>"

definition w_fact :: "nat \<Rightarrow> evidence_item_id list \<Rightarrow> fact" where
  "w_fact n evidence =
     \<lparr>fact_id = Ident (30 + n), fact_case_id = Ident 1, fact_report_id = Ident (20 + n),
      fact_community_id = Ident 2, fact_contributor_id = Ident (10 + n), fact_namespace = Namespace ''DEMO'',
      fact_type = LOCATION_AREA, fact_value = LocationArea LA_LOBBY, fact_sensitivity = SC_GENERAL,
      fact_evidence_ids = evidence, fact_evidence_status = ES_REPORTED,
      fact_source_message_ids = [Ident (40 + n)], fact_supersedes = None, fact_status = FS_ACTIVE,
      fact_version = 1, fact_created_at = utc 0, fact_updated_at = utc 0\<rparr>"

definition w_item :: "nat \<Rightarrow> nat \<Rightarrow> nat \<Rightarrow> evidence_item" where
  "w_item n root owner =
     \<lparr>item_id = Ident (50 + n), item_root_id = Ident root, item_community_id = Ident 2, item_case_id = Ident 1,
      item_namespace = Namespace ''DEMO'', item_submitted_by = Some (Ident (10 + owner)),
      item_source_message_id = None, item_private_object_key = SensitiveStr ''key'',
      item_media_type = ''image/png'', item_byte_length = 10, item_sha256 = Sha256Digest ''sha256:1'',
      item_captured_at = None, item_uploaded_at = utc 0, item_derived_from = None,
      item_malware_scan_status = MW_CLEAN, item_extraction_status = XT_NOT_NEEDED,
      item_extracted_text = None, item_version = 1, item_created_at = utc 0, item_updated_at = utc 0,
      item_external_binding = None, item_schema_version = ''evidence-item/v1''\<rparr>"

text \<open>Three contributors; the photographs of the first two are copies of one file.\<close>

definition w_facts :: "fact list" where
  "w_facts = [w_fact 1 [Ident 51], w_fact 2 [Ident 52], w_fact 3 []]"

definition w_items :: "evidence_item list" where
  "w_items = [w_item 1 3 1, w_item 2 4 2]"

definition w_reports :: "report list" where
  "w_reports = [w_report 1, w_report 2, w_report 3]"

definition w_result :: independence_result where
  "w_result = projr (independent_sources w_facts w_reports w_items w_roots)"

lemma w_independence: "independent_sources w_facts w_reports w_items w_roots = Inr w_result"
  unfolding w_result_def by (rule returns_projr) code_simp

lemma w_count: "count w_result = 2"
  by code_simp

text \<open>
  C11. The count is the size of a largest assignment that gives each contributor at most one origin of
  its own active, non-duplicate facts and no origin to two contributors: such an assignment exists and
  none is larger.
\<close>

theorem independence_is_maximum_matching:
  assumes "independent_sources facts reports items roots = Inr res"
  shows "(\<exists>m. independent_assignment facts reports items roots m \<and> card (dom m) = count res) \<and>
    (\<forall>m. independent_assignment facts reports items roots m \<longrightarrow> card (dom m) \<le> count res)"
  using independent_sources_maximum_exists [OF assms] independent_sources_maximum_bound [OF assms] by blast

theorem independence_is_maximum_matching_witness:
  "\<exists>m. independent_assignment w_facts w_reports w_items w_roots m \<and> card (dom m) = 2"
  using independence_is_maximum_matching [OF w_independence] by (simp add: w_count)

lemma two_sources_assignment:
  assumes "f \<in> set facts" "g \<in> set facts" "fact_contributor_id f \<noteq> fact_contributor_id g"
    "contributes reports items roots f s" "contributes reports items roots g t" "s \<noteq> t"
  shows "independent_assignment facts reports items roots [s \<mapsto> fact_contributor_id f, t \<mapsto> fact_contributor_id g]"
  using assms unfolding independent_assignment_def by (auto split: if_splits)

lemma two_sources_iff:
  assumes "independent_sources facts reports items roots = Inr res"
  shows "2 \<le> count res \<longleftrightarrow>
    (\<exists>f\<in>set facts. \<exists>g\<in>set facts. \<exists>s t. fact_contributor_id f \<noteq> fact_contributor_id g \<and> s \<noteq> t \<and>
       contributes reports items roots f s \<and> contributes reports items roots g t)"
proof
  assume two: "2 \<le> count res"
  from independent_sources_maximum_exists [OF assms] obtain m where
    m: "independent_assignment facts reports items roots m" "card (dom m) = count res" by blast
  with two have "\<not> card (dom m) \<le> 1" "finite (dom m)" by (simp_all add: card_ge_0_finite)
  then obtain s t where st: "s \<in> dom m" "t \<in> dom m" "s \<noteq> t" by (metis One_nat_def card_le_Suc0_iff_eq)
  then obtain c d where cd: "m s = Some c" "m t = Some d" by blast
  with m(1) st(3) have "c \<noteq> d" unfolding independent_assignment_def by blast
  moreover from m(1) cd obtain f g where "f \<in> set facts" "fact_contributor_id f = c" "contributes reports items roots f s"
    "g \<in> set facts" "fact_contributor_id g = d" "contributes reports items roots g t"
    unfolding independent_assignment_def by blast
  ultimately show "\<exists>f\<in>set facts. \<exists>g\<in>set facts. \<exists>s t. fact_contributor_id f \<noteq> fact_contributor_id g \<and> s \<noteq> t \<and>
      contributes reports items roots f s \<and> contributes reports items roots g t"
    using st(3) by blast
next
  assume "\<exists>f\<in>set facts. \<exists>g\<in>set facts. \<exists>s t. fact_contributor_id f \<noteq> fact_contributor_id g \<and> s \<noteq> t \<and>
      contributes reports items roots f s \<and> contributes reports items roots g t"
  then obtain f g s t where fg: "f \<in> set facts" "g \<in> set facts" "fact_contributor_id f \<noteq> fact_contributor_id g"
    "contributes reports items roots f s" "contributes reports items roots g t" "s \<noteq> t" by blast
  from independent_sources_maximum_bound [OF assms two_sources_assignment [OF fg]] fg(6)
  show "2 \<le> count res" by simp
qed

text \<open>
  C10. The corroboration rule, without the matching: the count reaches two exactly when two facts of
  different contributors have different origins.
\<close>

theorem corroboration_iff_two_sources:
  assumes "independent_sources facts reports items roots = Inr res"
  shows "2 \<le> count res \<longleftrightarrow>
    (\<exists>f\<in>set facts. \<exists>g\<in>set facts. \<exists>s t. fact_contributor_id f \<noteq> fact_contributor_id g \<and> s \<noteq> t \<and>
       contributes reports items roots f s \<and> contributes reports items roots g t)"
  by (rule two_sources_iff [OF assms])

theorem corroboration_iff_two_sources_witness:
  "\<exists>f\<in>set w_facts. \<exists>g\<in>set w_facts. \<exists>s t. fact_contributor_id f \<noteq> fact_contributor_id g \<and> s \<noteq> t \<and>
     contributes w_reports w_items w_roots f s \<and> contributes w_reports w_items w_roots g t"
  using corroboration_iff_two_sources [OF w_independence] by (simp add: w_count)

text \<open>
  Adding facts never lowers the count, and the count never passes the number of contributors.
\<close>

theorem independence_monotone:
  assumes "independent_sources facts reports items roots = Inr r1"
    and "independent_sources facts' reports items roots = Inr r2" "set facts \<subseteq> set facts'"
  shows "count r1 \<le> count r2 \<and> count r2 \<le> card (fact_contributor_id ` set facts')"
  using independent_sources_mono [OF assms] independent_count_contributors [OF assms(2)] by blast

theorem independence_monotone_witness:
  "count (projr (independent_sources [w_fact 1 [Ident 51]] w_reports w_items w_roots)) \<le> count w_result"
proof -
  have "independent_sources [w_fact 1 [Ident 51]] w_reports w_items w_roots =
      Inr (projr (independent_sources [w_fact 1 [Ident 51]] w_reports w_items w_roots))"
    by (rule returns_projr) code_simp
  from independence_monotone [OF this w_independence] show ?thesis by (simp add: w_facts_def)
qed

lemma checks_ValueError: "checks cs = Inl e \<Longrightarrow> \<forall>c\<in>set cs. \<exists>m. snd c = ValueError m \<Longrightarrow> \<exists>m. e = ValueError m"
  by (drule checks_Inl_mem) force

lemma climb_ValueError: "climb roots community ns visited a = Inl e \<Longrightarrow> \<exists>m. e = ValueError m"
proof (induction roots community ns visited a rule: climb.induct)
  case (1 roots community ns visited current)
  show ?case
  proof (cases "climb roots community ns (current # visited) (the (root_parent_root_id (the (index_by root_id roots current)))) = Inl e")
    case True
    then show ?thesis
      using "1.prems" by (subst (asm) (2) climb.simps) (auto split: if_splits option.splits dest: "1.IH")
  next
    case False
    then show ?thesis using "1.prems" by (subst (asm) (2) climb.simps) (auto split: if_splits option.splits)
  qed
qed

lemma evidence_source_ValueError: "evidence_source items roots f eid = Inl e \<Longrightarrow> \<exists>m. e = ValueError m"
  by (auto simp: evidence_source_def collapse_evidence_root_def result_simps dest!: climb_ValueError
      split: option.splits if_splits)

lemma duplicate_origin_ValueError: "duplicate_origin_check reports r = Inl e \<Longrightarrow> \<exists>m. e = ValueError m"
  by (auto simp: duplicate_origin_check_def dest!: checks_ValueError split: option.splits)

lemma fact_contribution_ValueError: "fact_contribution reports items roots f = Inl e \<Longrightarrow> \<exists>m. e = ValueError m"
  by (auto simp: fact_contribution_def result_simps dest!: map_result_Inl evidence_source_ValueError
      duplicate_origin_ValueError split: option.splits if_splits)

text \<open>
  C37. \<open>independent_sources\<close> always ends, on any input: with a result or with a \<open>ValueError\<close>. The
  search for augmenting paths never exhausts its recursion bound, the sum of all the sources offered.
\<close>

theorem independence_ends:
  "(\<exists>res. independent_sources facts reports items roots = Inr res) \<or>
   (\<exists>m. independent_sources facts reports items roots = Inl (ValueError m))"
proof (cases "independent_sources facts reports items roots")
  case (Inl e)
  let ?search = "\<lambda>contributions. assign_all (sources_for (sources_of contributions))
      (length (concat (map snd (sources_of contributions)))) (sort (map fst (sources_of contributions))) Map.empty 0"
  let ?cs = "[(\<not> distinct (map report_id reports), ValueError ''report IDs must be unique''),
        (\<not> distinct (map item_id items), ValueError ''evidence item IDs must be unique''),
        (\<not> distinct (map root_id roots), ValueError ''evidence root IDs must be unique''),
        (\<not> distinct (map (\<lambda>r. (root_community_id r, root_sha256 r)) roots),
         ValueError ''evidence roots must be content-address unique within a community'')]"
  from Inl have "\<exists>m. e = ValueError m"
    unfolding independent_sources_def bindE_Inl_iff Let_def
  proof (elim disjE exE conjE)
    assume "checks ?cs = Inl e"
    then show ?thesis by (rule checks_ValueError) simp
  next
    fix u
    assume "map_result (fact_contribution reports items roots) facts = Inl e"
    from map_result_Inl [OF this] show ?thesis by (auto dest: fact_contribution_ValueError)
  next
    fix u contributions
    assume "(case ?search contributions of None \<Rightarrow> Inl recursion_error
      | Some (matched, _) \<Rightarrow> Inr \<lparr>count = matched, sources_by_contributor = sources_of contributions\<rparr>) = Inl e"
    moreover have "?search contributions \<noteq> None" by (rule independent_sources_total)
    ultimately show ?thesis by (cases "?search contributions") (simp_all only: option.case prod.case_eq_if sum.distinct simp_thms)
  qed
  with Inl show ?thesis by blast
qed simp

end
