(* ===== verification/Mandates.thy ===== *)
theory Mandates
  imports Facts
begin

text \<open>
  \<open>src/chorus/domain/mandates.py\<close>: the immutable mandate versions, the decision table and the
  construction of the next version by \<open>decide_mandate\<close>. A mandate's history is a run of decisions;
  the lemmas say who can make one, what each carries, and that refusals and revocations are final.
\<close>

section \<open>Grants and mandate versions\<close>

record fact_grant =
  grant_fact_id :: fact_id
  grant_max_scope :: disclosure_scope
  grant_allow_safe_transformation :: bool

record identity_grant =
  identity_externally_shareable :: bool
  identity_max_scope :: disclosure_scope

definition identity_grant_post_init :: "identity_grant \<Rightarrow> unit result" where
  "identity_grant_post_init g = checks
     [(identity_max_scope g \<notin> {ANONYMOUS_CASE, NAMED_CASE, EXTERNAL_ACTION},
       ValueError ''identity grant has an unsupported maximum scope''),
      (\<not> identity_externally_shareable g \<and> identity_max_scope g \<noteq> ANONYMOUS_CASE,
       ValueError ''non-shareable identity must remain anonymous'')]"

record disclosure_mandate =
  mandate_id :: mandate_id
  mandate_version :: int
  mandate_case_id :: case_id
  mandate_community_id :: community_id
  mandate_contributor_id :: contributor_id
  mandate_namespace :: namespace
  mandate_status :: mandate_status
  mandate_fact_grants :: "fact_grant list"
  mandate_identity_grant :: identity_grant
  mandate_allowed_destination_ids :: "destination_id list"
  mandate_allowed_purposes :: "purpose list"
  mandate_valid_from :: datetime
  mandate_expires_at :: "datetime option"
  mandate_proposed_at :: datetime
  mandate_decided_at :: "datetime option"
  mandate_revoked_at :: "datetime option"
  mandate_decision_actor_id :: "contributor_id option"
  mandate_supersedes_version :: "int option"
  mandate_terms_hash :: digest
  mandate_created_at :: datetime
  mandate_updated_at :: datetime

fun opt_test :: "('a \<Rightarrow> bool) \<Rightarrow> 'a option \<Rightarrow> bool" where
  "opt_test P None = False"
| "opt_test P (Some x) = P x"

definition disclosure_mandate_post_init :: "disclosure_mandate \<Rightarrow> unit result" where
  "disclosure_mandate_post_init m = checks
     [(mandate_version m < 1, ValueError ''mandate version must be positive''),
      (opt_test (\<lambda>v. v \<noteq> mandate_version m - 1) (mandate_supersedes_version m),
       ValueError ''mandate versions must supersede the immediately previous version''),
      (\<not> distinct (map grant_fact_id (mandate_fact_grants m)), ValueError ''fact grants must be unique''),
      (mandate_allowed_destination_ids m = [] \<or> mandate_allowed_purposes m = [],
       ValueError ''mandate destination and purpose sets cannot be empty''),
      unique (mandate_allowed_destination_ids m) ''allowed destination IDs'',
      unique (mandate_allowed_purposes m) ''allowed purposes'',
      utc_check (mandate_valid_from m), utc_check (mandate_proposed_at m),
      utc_check (mandate_created_at m), utc_check (mandate_updated_at m),
      utc_check_opt (mandate_expires_at m), utc_check_opt (mandate_decided_at m),
      utc_check_opt (mandate_revoked_at m),
      (opt_test (\<lambda>e. instant e \<le> instant (mandate_valid_from m)) (mandate_expires_at m),
       ValueError ''mandate expiry must be after valid_from''),
      (mandate_status m = MS_PROPOSED
         \<and> (mandate_decided_at m \<noteq> None \<or> mandate_decision_actor_id m \<noteq> None),
       ValueError ''proposed mandate cannot have a decision''),
      (mandate_status m \<noteq> MS_PROPOSED
         \<and> (mandate_decided_at m = None
             \<or> mandate_decision_actor_id m \<noteq> Some (mandate_contributor_id m)),
       ValueError ''mandate decision must be made by its contributor''),
      (mandate_status m = MS_APPROVED
         \<and> opt_test (\<lambda>d. instant d < instant (mandate_valid_from m)) (mandate_decided_at m),
       ValueError ''approval predates mandate validity''),
      (mandate_status m = MS_APPROVED
         \<and> opt_test (\<lambda>d. opt_test (\<lambda>e. instant d \<ge> instant e) (mandate_expires_at m)) (mandate_decided_at m),
       ValueError ''approval occurred after mandate expiry''),
      (mandate_status m = MS_REVOKED \<and> mandate_revoked_at m = None,
       ValueError ''revoked mandate requires revoked_at''),
      (mandate_status m \<noteq> MS_REVOKED \<and> mandate_revoked_at m \<noteq> None,
       ValueError ''only revoked mandate versions may have revoked_at'')]"

record current_mandate_pointer =
  pointer_mandate_id :: mandate_id
  pointer_version :: int
  pointer_case_id :: case_id
  pointer_contributor_id :: contributor_id
  pointer_terms_hash :: digest

definition current_mandate_pointer_post_init :: "current_mandate_pointer \<Rightarrow> unit result" where
  "current_mandate_pointer_post_init p = checks
     [(pointer_version p < 1, ValueError ''current mandate version must be positive'')]"

section \<open>Decisions\<close>

datatype mandate_decision = MD_APPROVE | MD_ADJUST | MD_REFUSE | MD_REVOKE

fun MANDATE_DECISION_EDGES :: "mandate_status \<Rightarrow> mandate_decision \<Rightarrow> mandate_status option" where
  "MANDATE_DECISION_EDGES MS_PROPOSED MD_APPROVE = Some MS_APPROVED"
| "MANDATE_DECISION_EDGES MS_PROPOSED MD_ADJUST = Some MS_APPROVED"
| "MANDATE_DECISION_EDGES MS_PROPOSED MD_REFUSE = Some MS_REFUSED"
| "MANDATE_DECISION_EDGES MS_APPROVED MD_ADJUST = Some MS_APPROVED"
| "MANDATE_DECISION_EDGES MS_APPROVED MD_REVOKE = Some MS_REVOKED"
| "MANDATE_DECISION_EDGES _ _ = None"

definition NO_IDENTITY_GRANT :: identity_grant where
  "NO_IDENTITY_GRANT = \<lparr>identity_externally_shareable = False, identity_max_scope = ANONYMOUS_CASE\<rparr>"

abbreviation mandate_refused :: error where
  "mandate_refused \<equiv> StateTransitionError ''DISCLOSURE_MANDATE''"

definition next_mandate_status :: "mandate_status \<Rightarrow> mandate_decision \<Rightarrow> mandate_status result" where
  "next_mandate_status s d =
     (case MANDATE_DECISION_EDGES s d of None \<Rightarrow> Inl mandate_refused | Some t \<Rightarrow> Inr t)"

definition mandate_is_expired :: "disclosure_mandate \<Rightarrow> datetime \<Rightarrow> bool result" where
  "mandate_is_expired m now =
     bindE (require_utc now) (\<lambda>_.
       Inr (opt_test (\<lambda>e. instant now \<ge> instant e) (mandate_expires_at m)))"

definition decision_is_within_validity :: "disclosure_mandate \<Rightarrow> datetime \<Rightarrow> bool result" where
  "decision_is_within_validity m now =
     bindE (require_utc now) (\<lambda>_.
       if instant (mandate_valid_from m) \<le> instant now
       then bindE (mandate_is_expired m now) (\<lambda>expired. Inr (\<not> expired))
       else Inr False)"

definition is_superseded :: "disclosure_mandate \<Rightarrow> int \<Rightarrow> bool" where
  "is_superseded m current_version \<longleftrightarrow>
     mandate_version m < current_version \<and> mandate_status m \<in> {MS_PROPOSED, MS_APPROVED}"

definition derived_status :: "disclosure_mandate \<Rightarrow> int \<Rightarrow> datetime \<Rightarrow> mandate_status result" where
  "derived_status m current_version now =
     (if is_superseded m current_version then Inr MS_SUPERSEDED
      else if mandate_status m = MS_APPROVED
      then bindE (mandate_is_expired m now) (\<lambda>expired. Inr (if expired then MS_EXPIRED else mandate_status m))
      else Inr (mandate_status m))"

definition terms_are_identical ::
    "disclosure_mandate \<Rightarrow> fact_grant list \<Rightarrow> identity_grant \<Rightarrow> datetime option \<Rightarrow> bool" where
  "terms_are_identical m grants ident expires_at \<longleftrightarrow>
     set (mandate_fact_grants m) = set grants \<and> mandate_identity_grant m = ident
     \<and> datetime_opt_eq (mandate_expires_at m) expires_at"

definition withdraws_authorization ::
    "mandate_decision \<Rightarrow> fact_grant list \<Rightarrow> fact_grant list \<Rightarrow> bool" where
  "withdraws_authorization decision previous requested =
     (if decision \<in> {MD_REFUSE, MD_REVOKE} then True
      else if decision \<noteq> MD_ADJUST then False
      else \<exists>grant\<in>set previous. index_by grant_fact_id requested (grant_fact_id grant) \<noteq> Some grant)"

text \<open>The keyword arguments of the \<open>DisclosureMandate(...)\<close> the function ends with.\<close>

definition next_mandate ::
    "disclosure_mandate \<Rightarrow> mandate_status \<Rightarrow> fact_grant list \<Rightarrow> identity_grant \<Rightarrow>
     datetime option \<Rightarrow> contributor_id \<Rightarrow> datetime \<Rightarrow> digest \<Rightarrow> disclosure_mandate" where
  "next_mandate current status granted granted_identity effective_expiry actor now terms_hash = current
     \<lparr>mandate_version := mandate_version current + 1,
      mandate_status := status,
      mandate_fact_grants := granted,
      mandate_identity_grant := granted_identity,
      mandate_expires_at := effective_expiry,
      mandate_decided_at := Some now,
      mandate_revoked_at := (if status = MS_REVOKED then Some now else None),
      mandate_decision_actor_id := Some actor,
      mandate_supersedes_version := Some (mandate_version current),
      mandate_terms_hash := terms_hash,
      mandate_created_at := now,
      mandate_updated_at := now\<rparr>"

text \<open>\<open>except ValueError as error: raise ValidationError("DISCLOSURE_MANDATE")\<close>.\<close>

fun value_error_as_validation :: "'a result \<Rightarrow> 'a result" where
  "value_error_as_validation (Inl (ValueError _)) = Inl (ValidationError ''DISCLOSURE_MANDATE'')"
| "value_error_as_validation r = r"

definition decide_mandate ::
    "disclosure_mandate \<Rightarrow> mandate_decision \<Rightarrow> fact_grant list \<Rightarrow> identity_grant \<Rightarrow>
     datetime option \<Rightarrow> contributor_id \<Rightarrow> datetime \<Rightarrow> digest \<Rightarrow> disclosure_mandate result" where
  "decide_mandate current decision grants ident expires_at actor now terms_hash =
     bindE (require_utc now) (\<lambda>_.
     if actor \<noteq> mandate_contributor_id current then Inl mandate_refused
     else bindE (decision_is_within_validity current now) (\<lambda>valid.
     if \<not> valid then Inl mandate_refused
     else bindE (next_mandate_status (mandate_status current) decision) (\<lambda>status.
     if decision = MD_APPROVE \<and> \<not> terms_are_identical current grants ident expires_at
     then Inl mandate_refused
     else if decision \<in> {MD_REFUSE, MD_REVOKE} \<and> (grants \<noteq> [] \<or> ident \<noteq> NO_IDENTITY_GRANT)
     then Inl mandate_refused
     else
       let narrowing = decision \<in> {MD_REFUSE, MD_REVOKE};
           granted = (if narrowing then [] else sort_key grant_fact_id grants);
           granted_identity = (if narrowing then NO_IDENTITY_GRANT else ident);
           effective_expiry = (if narrowing then mandate_expires_at current else expires_at)
       in value_error_as_validation (validated disclosure_mandate_post_init
            (next_mandate current status granted granted_identity effective_expiry actor now terms_hash)))))"

section \<open>What a decision does\<close>

lemma next_mandate_status_Inr [result_simps]:
  "next_mandate_status s d = Inr t \<longleftrightarrow> MANDATE_DECISION_EDGES s d = Some t"
  by (auto simp: next_mandate_status_def split: option.splits)

lemma decision_is_within_validity_Inr [result_simps]:
  "decision_is_within_validity m now = Inr b \<longleftrightarrow> is_utc now \<and>
     (b \<longleftrightarrow> instant (mandate_valid_from m) \<le> instant now \<and>
        \<not> opt_test (\<lambda>e. instant now \<ge> instant e) (mandate_expires_at m))"
  by (auto simp: decision_is_within_validity_def mandate_is_expired_def result_simps)

lemma decision_edge_cases:
  "MANDATE_DECISION_EDGES s d = Some t \<Longrightarrow>
     (s = MS_PROPOSED \<or> s = MS_APPROVED) \<and>
     (t = MS_APPROVED \<and> (d = MD_APPROVE \<or> d = MD_ADJUST) \<or>
      t = MS_REFUSED \<and> d = MD_REFUSE \<and> s = MS_PROPOSED \<or>
      t = MS_REVOKED \<and> d = MD_REVOKE \<and> s = MS_APPROVED)"
  by (cases s; cases d) auto

lemma value_error_as_validation_Inr [result_simps]: "value_error_as_validation r = Inr x \<longleftrightarrow> r = Inr x"
  by (cases r rule: value_error_as_validation.cases) auto

lemma next_mandate_status_field [simp]:
  "mandate_status (next_mandate current status granted gi ee actor now h) = status"
  by (simp add: next_mandate_def)

lemma decide_mandateD:
  assumes "decide_mandate current decision grants ident expires_at actor now terms_hash = Inr m"
  shows "is_utc now" "actor = mandate_contributor_id current"
    "instant (mandate_valid_from current) \<le> instant now"
    "\<not> opt_test (\<lambda>e. instant now \<ge> instant e) (mandate_expires_at current)"
    "MANDATE_DECISION_EDGES (mandate_status current) decision = Some (mandate_status m)"
    "decision = MD_APPROVE \<Longrightarrow> terms_are_identical current grants ident expires_at"
    "decision \<in> {MD_REFUSE, MD_REVOKE} \<Longrightarrow> grants = [] \<and> ident = NO_IDENTITY_GRANT"
    "disclosure_mandate_post_init m = Inr ()"
    "m = next_mandate current (mandate_status m) (sort_key grant_fact_id grants) ident
           (if decision \<in> {MD_REFUSE, MD_REVOKE} then mandate_expires_at current else expires_at)
           actor now terms_hash"
  using assms unfolding decide_mandate_def Let_def by (auto simp: result_simps split: if_splits)

lemma decide_mandate_revokes:
  assumes "decide_mandate current decision grants ident expires_at actor now terms_hash = Inr m"
    "decision \<in> {MD_REFUSE, MD_REVOKE}"
  shows "mandate_fact_grants m = []" "mandate_identity_grant m = NO_IDENTITY_GRANT"
    "mandate_status m \<in> {MS_REFUSED, MS_REVOKED}"
proof -
  have none: "grants = []" "ident = NO_IDENTITY_GRANT" using decide_mandateD(7) [OF assms] by auto
  show "mandate_fact_grants m = []" "mandate_identity_grant m = NO_IDENTITY_GRANT"
    by (subst decide_mandateD(9) [OF assms(1)], simp add: next_mandate_def none)+
  show "mandate_status m \<in> {MS_REFUSED, MS_REVOKED}"
    using decision_edge_cases [OF decide_mandateD(5) [OF assms(1)]] assms(2) by auto
qed

lemma decide_mandate_terminal:
  assumes "mandate_status current \<notin> {MS_PROPOSED, MS_APPROVED}"
  shows "\<exists>e. decide_mandate current decision grants ident expires_at actor now terms_hash = Inl e"
  using decide_mandateD(5) decision_edge_cases assms
  by (metis insert_iff obj_sumE)

lemma withdraws_authorization_iff:
  assumes "distinct (map grant_fact_id requested)"
  shows "withdraws_authorization MD_ADJUST previous requested \<longleftrightarrow> \<not> set previous \<subseteq> set requested"
  using index_by_Some_iff [OF assms] by (auto simp: withdraws_authorization_def)

section \<open>A mandate's history\<close>

text \<open>One decision, as the caller submits it, and the versions a list of them appends.\<close>

record decision_request =
  dr_decision :: mandate_decision
  dr_fact_grants :: "fact_grant list"
  dr_identity_grant :: identity_grant
  dr_expires_at :: "datetime option"
  dr_actor :: contributor_id
  dr_now :: datetime
  dr_terms_hash :: digest

definition decide :: "disclosure_mandate \<Rightarrow> decision_request \<Rightarrow> disclosure_mandate result" where
  "decide m r = decide_mandate m (dr_decision r) (dr_fact_grants r) (dr_identity_grant r)
     (dr_expires_at r) (dr_actor r) (dr_now r) (dr_terms_hash r)"

text \<open>The stored versions after each decision; a refused decision appends nothing.\<close>

fun history :: "disclosure_mandate list \<Rightarrow> disclosure_mandate \<Rightarrow> decision_request list \<Rightarrow> disclosure_mandate list" where
  "history past m [] = past @ [m]"
| "history past m (r # rs) =
     (case decide m r of Inl _ \<Rightarrow> history past m rs | Inr m' \<Rightarrow> history (past @ [m]) m' rs)"

lemmas decideD = decide_mandateD [OF trans [OF decide_def [symmetric]]]

lemma decide_frame:
  assumes "decide m r = Inr m'"
  shows "mandate_version m' = mandate_version m + 1" "mandate_id m' = mandate_id m"
    "mandate_case_id m' = mandate_case_id m" "mandate_community_id m' = mandate_community_id m"
    "mandate_contributor_id m' = mandate_contributor_id m" "mandate_namespace m' = mandate_namespace m"
    "mandate_allowed_destination_ids m' = mandate_allowed_destination_ids m"
    "mandate_allowed_purposes m' = mandate_allowed_purposes m" "mandate_valid_from m' = mandate_valid_from m"
    "mandate_supersedes_version m' = Some (mandate_version m)"
    "mandate_decision_actor_id m' = Some (mandate_contributor_id m)"
    "mandate_status m \<in> {MS_PROPOSED, MS_APPROVED}" "mandate_status m' \<noteq> MS_PROPOSED"
proof -
  note eq = decideD(9) [OF assms]
  note edge = decision_edge_cases [OF decideD(5) [OF assms]]
  show "mandate_version m' = mandate_version m + 1" "mandate_id m' = mandate_id m"
    "mandate_case_id m' = mandate_case_id m" "mandate_community_id m' = mandate_community_id m"
    "mandate_contributor_id m' = mandate_contributor_id m" "mandate_namespace m' = mandate_namespace m"
    "mandate_allowed_destination_ids m' = mandate_allowed_destination_ids m"
    "mandate_allowed_purposes m' = mandate_allowed_purposes m" "mandate_valid_from m' = mandate_valid_from m"
    "mandate_supersedes_version m' = Some (mandate_version m)"
    by (subst eq, simp add: next_mandate_def)+
  show "mandate_decision_actor_id m' = Some (mandate_contributor_id m)"
    using decideD(2) [OF assms] by (subst eq) (simp add: next_mandate_def)
  show "mandate_status m \<in> {MS_PROPOSED, MS_APPROVED}" "mandate_status m' \<noteq> MS_PROPOSED" using edge by auto
qed

text \<open>Consecutive versions of one history: each is a decision on the one before.\<close>

definition successor :: "disclosure_mandate \<Rightarrow> disclosure_mandate \<Rightarrow> bool" where
  "successor m m' \<longleftrightarrow> (\<exists>r. decide m r = Inr m')"

lemma history_chain:
  "successively successor (past @ [m]) \<Longrightarrow> successively successor (history past m rs)"
proof (induction past m rs rule: history.induct)
  case (2 past m r rs)
  show ?case
  proof (cases "decide m r")
    case (Inr m')
    then have "successor m m'" by (auto simp: successor_def)
    with 2 Inr show ?thesis by (simp add: successively_append_iff)
  qed (use 2 in simp)
qed simp

lemma history_hd: "hd (history past m rs) = hd (past @ [m])"
  by (induction past m rs rule: history.induct) (auto simp: hd_append split: sum.splits)

lemma history_version:
  "\<forall>i < length (past @ [m]). mandate_version ((past @ [m]) ! i) = v + int i \<Longrightarrow>
     \<forall>i < length (history past m rs). mandate_version (history past m rs ! i) = v + int i"
proof (induction past m rs rule: history.induct)
  case (2 past m r rs)
  show ?case
  proof (cases "decide m r")
    case (Inr m')
    have last: "mandate_version m = v + int (length past)"
      using "2.prems" [rule_format, of "length past"] by simp
    have "mandate_version (((past @ [m]) @ [m']) ! i) = v + int i" if "i < length ((past @ [m]) @ [m'])" for i
    proof (cases "i < length (past @ [m])")
      case True
      then have "((past @ [m]) @ [m']) ! i = (past @ [m]) ! i" by (auto simp: nth_append less_Suc_eq)
      with "2.prems" True show ?thesis by metis
    next
      case False
      with that have "i = length (past @ [m])" by simp
      then show ?thesis using last decide_frame(1) [OF Inr] by (simp add: nth_append)
    qed
    with "2.IH"(2) [OF Inr] Inr show ?thesis by simp
  qed (use 2 in simp)
qed simp

lemma history_terminal:
  "mandate_status m \<notin> {MS_PROPOSED, MS_APPROVED} \<Longrightarrow> history past m rs = past @ [m]"
proof (induction rs)
  case (Cons r rs)
  from Cons.prems have "\<exists>e. decide m r = Inl e"
    unfolding decide_def by (rule decide_mandate_terminal)
  with Cons show ?case by auto
qed simp

end
