(* ===== verification/Policy.thy ===== *)
theory Policy
  imports Mandates
begin

text \<open>
  \<open>src/chorus/privacy/policy.py\<close>: the closed policy/v1 contracts (requests, gates, reason codes,
  audit entries) and the content and identity ceilings. The lemmas relate the ceilings, the
  scopes a proposal offers and the explicit permission table.
\<close>

section \<open>Contracts\<close>

definition POLICY_VERSION :: string where "POLICY_VERSION = ''policy/v1''"
definition COMPILER_CONTRACT_VERSION :: string where "COMPILER_CONTRACT_VERSION = ''compiler/v1''"
definition COMPILER_VERSION :: string where "COMPILER_VERSION = ''compiler/1.1.0''"
definition AGGREGATE_PRIVACY_MIN :: nat where "AGGREGATE_PRIVACY_MIN = 3"
definition CORROBORATION_MIN :: nat where "CORROBORATION_MIN = 2"
definition VIEW_LIFETIME_SECONDS :: int where "VIEW_LIFETIME_SECONDS = 15 * 60"
definition MAX_REQUESTED_FACTS :: nat where "MAX_REQUESTED_FACTS = 100"
definition MAX_REQUESTED_EVIDENCE :: nat where "MAX_REQUESTED_EVIDENCE = 20"

lemmas policy_constants = POLICY_VERSION_def COMPILER_CONTRACT_VERSION_def COMPILER_VERSION_def
  AGGREGATE_PRIVACY_MIN_def CORROBORATION_MIN_def VIEW_LIFETIME_SECONDS_def
  MAX_REQUESTED_FACTS_def MAX_REQUESTED_EVIDENCE_def

datatype necessity = NC_REQUIRED | NC_OPTIONAL

datatype intended_usage = US_CLAIM | US_AGGREGATION_INPUT | US_EVIDENCE

datatype transformation_kind = TK_DIRECT | TK_ANONYMIZED | TK_AGGREGATED | TK_GENERALIZED

datatype gate_outcome = GO_PASSED | GO_EXCLUDED | GO_DENIED

datatype compiler_gate =
    REQUEST_SCHEMA | NAMESPACE_COMMUNITY | CASE_IDENTITY_VERSION | CROSS_CASE_REFERENCES
  | EXISTENCE | OWNERSHIP | CURRENT_MANDATE_SELECTION | MANDATE_VERSION_INTEGRITY
  | MANDATE_APPROVAL | REVOCATION | EXPIRATION | DESTINATION | PURPOSE | DISCLOSURE_SCOPE
  | IDENTITY | AGGREGATION_THRESHOLD | INDEPENDENCE | REIDENTIFICATION | MINIMUM_NECESSITY
  | EVIDENCE_SAFETY | TRANSFORMATION | AUDIT_HASH

definition compiler_gates :: "compiler_gate list" where
  "compiler_gates =
     [REQUEST_SCHEMA, NAMESPACE_COMMUNITY, CASE_IDENTITY_VERSION, CROSS_CASE_REFERENCES,
      EXISTENCE, OWNERSHIP, CURRENT_MANDATE_SELECTION, MANDATE_VERSION_INTEGRITY,
      MANDATE_APPROVAL, REVOCATION, EXPIRATION, DESTINATION, PURPOSE, DISCLOSURE_SCOPE,
      IDENTITY, AGGREGATION_THRESHOLD, INDEPENDENCE, REIDENTIFICATION, MINIMUM_NECESSITY,
      EVIDENCE_SAFETY, TRANSFORMATION, AUDIT_HASH]"

datatype compile_reason_code =
    CR_INVALID_REQUEST | CR_CASE_NOT_FOUND_OR_FORBIDDEN | CR_STALE_CASE_VERSION
  | CR_CROSS_CASE_REFERENCE | CR_FACT_NOT_FOUND | CR_EVIDENCE_NOT_FOUND
  | CR_OWNERSHIP_INTEGRITY_ERROR | CR_MANDATE_NOT_FOUND | CR_MANDATE_INTEGRITY_ERROR
  | CR_MANDATE_NOT_APPROVED | CR_MANDATE_REVOKED | CR_MANDATE_EXPIRED
  | CR_DESTINATION_NOT_ALLOWED | CR_PURPOSE_NOT_ALLOWED | CR_INTERNAL_ONLY
  | CR_SCOPE_NOT_ALLOWED | CR_IDENTITY_NOT_ALLOWED | CR_AGGREGATE_PRIVACY_MIN_NOT_MET
  | CR_CORROBORATION_MIN_NOT_MET | CR_REIDENTIFICATION_RISK | CR_NOT_MINIMUM_NECESSARY
  | CR_UNSAFE_EVIDENCE | CR_TRANSFORMATION_ERROR | CR_UNSAFE_OUTPUT | CR_NO_SHAREABLE_FACTS

fun reason_text :: "compile_reason_code \<Rightarrow> string" where
  "reason_text CR_INVALID_REQUEST = ''INVALID_REQUEST''"
| "reason_text CR_CASE_NOT_FOUND_OR_FORBIDDEN = ''CASE_NOT_FOUND_OR_FORBIDDEN''"
| "reason_text CR_STALE_CASE_VERSION = ''STALE_CASE_VERSION''"
| "reason_text CR_CROSS_CASE_REFERENCE = ''CROSS_CASE_REFERENCE''"
| "reason_text CR_FACT_NOT_FOUND = ''FACT_NOT_FOUND''"
| "reason_text CR_EVIDENCE_NOT_FOUND = ''EVIDENCE_NOT_FOUND''"
| "reason_text CR_OWNERSHIP_INTEGRITY_ERROR = ''OWNERSHIP_INTEGRITY_ERROR''"
| "reason_text CR_MANDATE_NOT_FOUND = ''MANDATE_NOT_FOUND''"
| "reason_text CR_MANDATE_INTEGRITY_ERROR = ''MANDATE_INTEGRITY_ERROR''"
| "reason_text CR_MANDATE_NOT_APPROVED = ''MANDATE_NOT_APPROVED''"
| "reason_text CR_MANDATE_REVOKED = ''MANDATE_REVOKED''"
| "reason_text CR_MANDATE_EXPIRED = ''MANDATE_EXPIRED''"
| "reason_text CR_DESTINATION_NOT_ALLOWED = ''DESTINATION_NOT_ALLOWED''"
| "reason_text CR_PURPOSE_NOT_ALLOWED = ''PURPOSE_NOT_ALLOWED''"
| "reason_text CR_INTERNAL_ONLY = ''INTERNAL_ONLY''"
| "reason_text CR_SCOPE_NOT_ALLOWED = ''SCOPE_NOT_ALLOWED''"
| "reason_text CR_IDENTITY_NOT_ALLOWED = ''IDENTITY_NOT_ALLOWED''"
| "reason_text CR_AGGREGATE_PRIVACY_MIN_NOT_MET = ''AGGREGATE_PRIVACY_MIN_NOT_MET''"
| "reason_text CR_CORROBORATION_MIN_NOT_MET = ''CORROBORATION_MIN_NOT_MET''"
| "reason_text CR_REIDENTIFICATION_RISK = ''REIDENTIFICATION_RISK''"
| "reason_text CR_NOT_MINIMUM_NECESSARY = ''NOT_MINIMUM_NECESSARY''"
| "reason_text CR_UNSAFE_EVIDENCE = ''UNSAFE_EVIDENCE''"
| "reason_text CR_TRANSFORMATION_ERROR = ''TRANSFORMATION_ERROR''"
| "reason_text CR_UNSAFE_OUTPUT = ''UNSAFE_OUTPUT''"
| "reason_text CR_NO_SHAREABLE_FACTS = ''NO_SHAREABLE_FACTS''"

record requested_fact =
  rf_fact_id :: fact_id
  rf_necessity :: necessity
  rf_intended_usage :: intended_usage

record safe_destination =
  sd_destination_id :: destination_id
  sd_kind :: destination_kind
  sd_registry_version :: int
  sd_routing_token :: uuid
  sd_display_label :: string

definition HTTP_LOCATOR :: re where
  "HTTP_LOCATOR = re_cat [re_lit_i ''http'', re_opt (re_char_i CHR ''s''), re_lit ''://'']"

definition safe_destination_post_init :: "safe_destination \<Rightarrow> unit result" where
  "safe_destination_post_init d = checks
     [(sd_registry_version d < 1, ValueError ''destination registry version must be positive''),
      bounded (sd_display_label d) 1 120 ''destination display label'',
      (CHR ''@'' \<in> set (sd_display_label d) \<or> search HTTP_LOCATOR (sd_display_label d),
       ValueError ''destination metadata cannot contain contact data'')]"

record compile_command =
  cmd_compile_id :: uuid
  cmd_namespace :: namespace
  cmd_case_id :: case_id
  cmd_expected_case_version :: int
  cmd_requested_facts :: "requested_fact list"
  cmd_requested_evidence_ids :: "evidence_item_id list"
  cmd_destination :: safe_destination
  cmd_purpose :: purpose
  cmd_requested_at :: datetime
  cmd_policy_version :: string
  cmd_compiler_contract_version :: string

record safe_evidence_candidate =
  se_source_evidence_id :: evidence_item_id
  se_export_handle_id :: uuid
  se_derivative_sha256 :: digest
  se_caption :: string
  se_human_reviewed :: bool
  se_transformation_rule_id :: string

definition EVIDENCE_LOCATOR :: re where
  "EVIDENCE_LOCATOR =
     re_cat [re_alt [Cat (re_lit_i ''http'') (re_opt (re_char_i CHR ''s'')), re_lit_i ''s3''], re_lit ''://'']"

definition safe_evidence_candidate_post_init :: "safe_evidence_candidate \<Rightarrow> unit result" where
  "safe_evidence_candidate_post_init c = checks
     [bounded (se_caption c) 1 300 ''safe evidence caption'',
      (CHR ''@'' \<in> set (se_caption c) \<or> search EVIDENCE_LOCATOR (se_caption c),
       ValueError ''safe evidence caption contains a forbidden locator'')]"

record compile_reason =
  reason_code :: compile_reason_code
  reason_subject_ref :: "string option"
  reason_retryable :: bool

record audit_decision =
  audit_gate :: compiler_gate
  audit_outcome :: gate_outcome
  audit_reason_codes :: "compile_reason_code list"

record included_fact =
  inc_fact_id :: fact_id
  inc_export_fact_ids :: "uuid list"

record excluded_fact =
  exc_fact_id :: fact_id
  exc_reason_codes :: "compile_reason_code list"

definition ALLOWED_PURPOSES :: "purpose set" where
  "ALLOWED_PURPOSES = {REQUEST_ELEVATOR_REPAIR_AND_RESPONSE}"

definition ALLOWED_DESTINATION_KINDS :: "destination_kind set" where
  "ALLOWED_DESTINATION_KINDS = {PROPERTY_MANAGER}"

section \<open>Scopes and ceilings\<close>

fun SCOPE_PERMITS :: "disclosure_scope \<Rightarrow> disclosure_scope set" where
  "SCOPE_PERMITS INTERNAL_ONLY = {INTERNAL_ONLY}"
| "SCOPE_PERMITS AGGREGATE_ONLY = {INTERNAL_ONLY, AGGREGATE_ONLY}"
| "SCOPE_PERMITS ANONYMOUS_CASE = {INTERNAL_ONLY, AGGREGATE_ONLY, ANONYMOUS_CASE}"
| "SCOPE_PERMITS NAMED_CASE = {INTERNAL_ONLY, AGGREGATE_ONLY, ANONYMOUS_CASE, NAMED_CASE}"
| "SCOPE_PERMITS EXTERNAL_ACTION =
     {INTERNAL_ONLY, AGGREGATE_ONLY, ANONYMOUS_CASE, NAMED_CASE, EXTERNAL_ACTION}"

definition scope_permits :: "disclosure_scope \<Rightarrow> disclosure_scope \<Rightarrow> bool" where
  "scope_permits ceiling requested \<longleftrightarrow> requested \<in> SCOPE_PERMITS ceiling"

fun FACT_TYPE_CEILING :: "fact_type \<Rightarrow> disclosure_scope" where
  "FACT_TYPE_CEILING INCIDENT_OCCURRENCE = EXTERNAL_ACTION"
| "FACT_TYPE_CEILING SERVICE_IMPACT = EXTERNAL_ACTION"
| "FACT_TYPE_CEILING LOCATION_AREA = EXTERNAL_ACTION"
| "FACT_TYPE_CEILING CONTRADICTION = EXTERNAL_ACTION"
| "FACT_TYPE_CEILING EVIDENCE_DESCRIPTION = EXTERNAL_ACTION"
| "FACT_TYPE_CEILING IDENTITY_ATTRIBUTE = NAMED_CASE"
| "FACT_TYPE_CEILING UNIT_LOCATION = INTERNAL_ONLY"
| "FACT_TYPE_CEILING HEALTH_DETAIL = INTERNAL_ONLY"
| "FACT_TYPE_CEILING MANAGEMENT_STATEMENT = INTERNAL_ONLY"
| "FACT_TYPE_CEILING COMMITMENT_TERM = INTERNAL_ONLY"

definition HARD_INTERNAL_SENSITIVITIES :: "sensitivity set" where
  "HARD_INTERNAL_SENSITIVITIES =
     {SC_CONTACT, SC_UNIT_LOCATION, SC_HEALTH, SC_MINOR, SC_PRIVATE_QUOTE, SC_PRIVATE_EVIDENCE_URI}"

fun PROPOSED_SCOPE :: "fact_type \<Rightarrow> disclosure_scope option" where
  "PROPOSED_SCOPE INCIDENT_OCCURRENCE = Some ANONYMOUS_CASE"
| "PROPOSED_SCOPE SERVICE_IMPACT = Some ANONYMOUS_CASE"
| "PROPOSED_SCOPE LOCATION_AREA = Some ANONYMOUS_CASE"
| "PROPOSED_SCOPE CONTRADICTION = Some ANONYMOUS_CASE"
| "PROPOSED_SCOPE _ = None"

definition IDENTITY_CEILING :: disclosure_scope where
  "IDENTITY_CEILING = NAMED_CASE"

datatype mandate_denial_code =
    DN_UNKNOWN_FACT | DN_DUPLICATE_FACT_GRANT | DN_SCOPE_EXCEEDS_POLICY_MAXIMUM
  | DN_IDENTITY_EXCEEDS_POLICY_MAXIMUM | DN_GRANT_NOT_PROPOSED | DN_DESTINATION_NOT_ALLOWED
  | DN_PURPOSE_NOT_ALLOWED | DN_EXPIRY_ALREADY_PASSED | DN_NO_GRANTABLE_FACT

fun denial_text :: "mandate_denial_code \<Rightarrow> string" where
  "denial_text DN_UNKNOWN_FACT = ''UNKNOWN_FACT''"
| "denial_text DN_DUPLICATE_FACT_GRANT = ''DUPLICATE_FACT_GRANT''"
| "denial_text DN_SCOPE_EXCEEDS_POLICY_MAXIMUM = ''SCOPE_EXCEEDS_POLICY_MAXIMUM''"
| "denial_text DN_IDENTITY_EXCEEDS_POLICY_MAXIMUM = ''IDENTITY_EXCEEDS_POLICY_MAXIMUM''"
| "denial_text DN_GRANT_NOT_PROPOSED = ''GRANT_NOT_PROPOSED''"
| "denial_text DN_DESTINATION_NOT_ALLOWED = ''DESTINATION_NOT_ALLOWED''"
| "denial_text DN_PURPOSE_NOT_ALLOWED = ''PURPOSE_NOT_ALLOWED''"
| "denial_text DN_EXPIRY_ALREADY_PASSED = ''EXPIRY_ALREADY_PASSED''"
| "denial_text DN_NO_GRANTABLE_FACT = ''NO_GRANTABLE_FACT''"

definition policy_maximum_scope :: "fact_type \<Rightarrow> sensitivity \<Rightarrow> disclosure_scope" where
  "policy_maximum_scope t s =
     (if s \<in> HARD_INTERNAL_SENSITIVITIES then INTERNAL_ONLY else FACT_TYPE_CEILING t)"

definition proposed_scope :: "fact_type \<Rightarrow> sensitivity \<Rightarrow> disclosure_scope" where
  "proposed_scope t s =
     (let ceiling = policy_maximum_scope t s;
          offered = (case PROPOSED_SCOPE t of None \<Rightarrow> INTERNAL_ONLY | Some o' \<Rightarrow> o')
      in if scope_permits ceiling offered then offered else INTERNAL_ONLY)"

definition identity_maximum_scope :: disclosure_scope where
  "identity_maximum_scope = IDENTITY_CEILING"

definition validate_compile_command_shape :: "compile_command \<Rightarrow> unit result" where
  "validate_compile_command_shape c = checks
     [utc_check (cmd_requested_at c),
      (cmd_expected_case_version c < 1, ValueError ''expected case version must be positive''),
      (cmd_policy_version c \<noteq> POLICY_VERSION, ValueError ''unsupported policy version''),
      (cmd_compiler_contract_version c \<noteq> COMPILER_CONTRACT_VERSION,
       ValueError ''unsupported compiler contract version''),
      (\<not> (1 \<le> length (cmd_requested_facts c) \<and> length (cmd_requested_facts c) \<le> MAX_REQUESTED_FACTS),
       ValueError ''requested fact count is invalid''),
      (length (cmd_requested_evidence_ids c) > MAX_REQUESTED_EVIDENCE,
       ValueError ''requested evidence count is invalid''),
      unique (map rf_fact_id (cmd_requested_facts c)) ''requested fact IDs'',
      unique (cmd_requested_evidence_ids c) ''requested evidence IDs'']"

section \<open>The permission table\<close>

lemma scope_permits_refl [simp]: "scope_permits c c"
  by (cases c) (auto simp: scope_permits_def)

lemma scope_permits_internal [simp]: "scope_permits c INTERNAL_ONLY"
  by (cases c) (auto simp: scope_permits_def)

lemma scope_permits_trans: "scope_permits a b \<Longrightarrow> scope_permits b c \<Longrightarrow> scope_permits a c"
  by (cases a; cases b; cases c) (auto simp: scope_permits_def)

lemma scope_permits_antisym: "scope_permits a b \<Longrightarrow> scope_permits b a \<Longrightarrow> a = b"
  by (cases a; cases b) (auto simp: scope_permits_def)

lemma scope_permits_internal_iff: "scope_permits INTERNAL_ONLY c \<longleftrightarrow> c = INTERNAL_ONLY"
  by (simp add: scope_permits_def)

lemma proposed_scope_permitted: "scope_permits (policy_maximum_scope t s) (proposed_scope t s)"
  by (simp add: proposed_scope_def Let_def)

lemma proposed_scope_at_most_anonymous: "scope_permits ANONYMOUS_CASE (proposed_scope t s)"
  by (cases t) (auto simp: proposed_scope_def Let_def scope_permits_def)

lemma proposed_scope_strict:
  "proposed_scope t s = policy_maximum_scope t s \<longleftrightarrow> policy_maximum_scope t s = INTERNAL_ONLY"
  by (cases t) (auto simp: proposed_scope_def policy_maximum_scope_def Let_def scope_permits_def)

end
