(* ===== verification/Mandate_Policy.thy ===== *)
theory Mandate_Policy
  imports Policy
begin

text \<open>
  \<open>src/chorus/privacy/mandates.py\<close>: which facts a proposal covers, the grants it offers, and the
  checks on a mandate's destinations, purposes and grants against the policy ceilings.
\<close>

definition PROPOSAL_IDENTITY_GRANT :: identity_grant where
  "PROPOSAL_IDENTITY_GRANT = \<lparr>identity_externally_shareable = False, identity_max_scope = ANONYMOUS_CASE\<rparr>"

text \<open>The ownership test shared by the proposal and by the check of a submitted grant.\<close>

definition owned_active_fact ::
    "contributor_id \<Rightarrow> case_id \<Rightarrow> community_id \<Rightarrow> namespace \<Rightarrow> fact \<Rightarrow> bool" where
  "owned_active_fact contributor case_id community ns f \<longleftrightarrow>
     fact_contributor_id f = contributor \<and> fact_case_id f = case_id
     \<and> fact_community_id f = community \<and> fact_namespace f = ns \<and> fact_status f = FS_ACTIVE"

definition grantable_facts ::
    "fact list \<Rightarrow> contributor_id \<Rightarrow> case_id \<Rightarrow> community_id \<Rightarrow> namespace \<Rightarrow> fact list" where
  "grantable_facts facts contributor case_id community ns =
     sort_key fact_id (filter (owned_active_fact contributor case_id community ns) facts)"

definition proposed_grant :: "fact \<Rightarrow> fact_grant" where
  "proposed_grant f =
     \<lparr>grant_fact_id = fact_id f,
      grant_max_scope = proposed_scope (fact_type f) (fact_sensitivity f),
      grant_allow_safe_transformation = (proposed_scope (fact_type f) (fact_sensitivity f) \<noteq> INTERNAL_ONLY)\<rparr>"

definition build_proposed_grants :: "fact list \<Rightarrow> fact_grant list" where
  "build_proposed_grants facts = map proposed_grant (sort_key fact_id facts)"

definition validate_destinations_and_purposes ::
    "destination_id list \<Rightarrow> purpose list \<Rightarrow> destination_id \<Rightarrow> mandate_denial_code list" where
  "validate_destinations_and_purposes destination_ids purposes allowed =
     (if destination_ids = [] \<or> (\<exists>d\<in>set destination_ids. d \<noteq> allowed)
      then [DN_DESTINATION_NOT_ALLOWED] else []) @
     (if purposes = [] \<or> (\<exists>p\<in>set purposes. p \<notin> ALLOWED_PURPOSES)
      then [DN_PURPOSE_NOT_ALLOWED] else [])"

text \<open>One iteration of the loop over \<open>fact_grants\<close>: the codes it adds for a grant not seen before.\<close>

definition grant_denials ::
    "fact_id set \<Rightarrow> (fact_id \<rightharpoonup> fact) \<Rightarrow> (fact \<Rightarrow> bool) \<Rightarrow> fact_grant \<Rightarrow> mandate_denial_code list" where
  "grant_denials proposed facts_by_id owned g =
     (case facts_by_id (grant_fact_id g) of
        None \<Rightarrow> [DN_UNKNOWN_FACT]
      | Some f \<Rightarrow>
          if \<not> owned f then [DN_UNKNOWN_FACT]
          else if grant_fact_id g \<notin> proposed then [DN_GRANT_NOT_PROPOSED]
          else if \<not> scope_permits (policy_maximum_scope (fact_type f) (fact_sensitivity f)) (grant_max_scope g)
          then [DN_SCOPE_EXCEEDS_POLICY_MAXIMUM] else [])"

fun grants_denials ::
    "fact_id set \<Rightarrow> (fact_id \<rightharpoonup> fact) \<Rightarrow> (fact \<Rightarrow> bool) \<Rightarrow> fact_id list \<Rightarrow> fact_grant list \<Rightarrow>
     mandate_denial_code list" where
  "grants_denials proposed facts_by_id owned seen [] = []"
| "grants_denials proposed facts_by_id owned seen (g # gs) =
     (if grant_fact_id g \<in> set seen
      then DN_DUPLICATE_FACT_GRANT # grants_denials proposed facts_by_id owned seen gs
      else grant_denials proposed facts_by_id owned g @
           grants_denials proposed facts_by_id owned (grant_fact_id g # seen) gs)"

definition validate_requested_grants ::
    "fact_grant list \<Rightarrow> identity_grant \<Rightarrow> datetime option \<Rightarrow> fact_id set \<Rightarrow> (fact_id \<rightharpoonup> fact) \<Rightarrow>
     contributor_id \<Rightarrow> case_id \<Rightarrow> community_id \<Rightarrow> namespace \<Rightarrow> datetime \<Rightarrow> mandate_denial_code list" where
  "validate_requested_grants grants ident expires_at proposed facts_by_id contributor case_id community ns now =
     sort_key denial_text (fromkeys
       (grants_denials proposed facts_by_id (owned_active_fact contributor case_id community ns) [] grants @
        (if \<not> scope_permits identity_maximum_scope (identity_max_scope ident)
         then [DN_IDENTITY_EXCEEDS_POLICY_MAXIMUM] else []) @
        (if opt_test (\<lambda>e. instant e \<le> instant now) expires_at then [DN_EXPIRY_ALREADY_PASSED] else [])))"

section \<open>The checks\<close>

definition grant_within_policy ::
    "fact_id set \<Rightarrow> (fact_id \<rightharpoonup> fact) \<Rightarrow> (fact \<Rightarrow> bool) \<Rightarrow> fact_grant \<Rightarrow> bool" where
  "grant_within_policy proposed facts_by_id owned g \<longleftrightarrow>
     (\<exists>f. facts_by_id (grant_fact_id g) = Some f \<and> owned f \<and> grant_fact_id g \<in> proposed \<and>
          scope_permits (policy_maximum_scope (fact_type f) (fact_sensitivity f)) (grant_max_scope g))"

lemma grant_denials_Nil_iff:
  "grant_denials proposed facts_by_id owned g = [] \<longleftrightarrow> grant_within_policy proposed facts_by_id owned g"
  by (auto simp: grant_denials_def grant_within_policy_def split: option.splits)

lemma grants_denials_Nil_iff:
  "grants_denials proposed facts_by_id owned seen gs = [] \<longleftrightarrow>
     distinct (map grant_fact_id gs) \<and> set seen \<inter> grant_fact_id ` set gs = {} \<and>
     (\<forall>g\<in>set gs. grant_within_policy proposed facts_by_id owned g)"
  by (induction gs arbitrary: seen) (auto simp: grant_denials_Nil_iff)

lemma validate_requested_grants_set:
  "set (validate_requested_grants grants ident expires_at proposed facts_by_id contributor case_id community ns now) =
     set (grants_denials proposed facts_by_id (owned_active_fact contributor case_id community ns) [] grants) \<union>
     (if \<not> scope_permits identity_maximum_scope (identity_max_scope ident)
      then {DN_IDENTITY_EXCEEDS_POLICY_MAXIMUM} else {}) \<union>
     (if opt_test (\<lambda>e. instant e \<le> instant now) expires_at then {DN_EXPIRY_ALREADY_PASSED} else {})"
  unfolding validate_requested_grants_def by simp

lemma validate_requested_grants_Nil_iff:
  "validate_requested_grants grants ident expires_at proposed facts_by_id contributor case_id community ns now = [] \<longleftrightarrow>
     distinct (map grant_fact_id grants) \<and>
     (\<forall>g\<in>set grants. grant_within_policy proposed facts_by_id (owned_active_fact contributor case_id community ns) g) \<and>
     scope_permits NAMED_CASE (identity_max_scope ident) \<and>
     \<not> opt_test (\<lambda>e. instant e \<le> instant now) expires_at"
proof -
  have "validate_requested_grants grants ident expires_at proposed facts_by_id contributor case_id community ns now = []
      \<longleftrightarrow> set (validate_requested_grants grants ident expires_at proposed facts_by_id contributor case_id community ns now) = {}"
    by simp
  then show ?thesis
    unfolding validate_requested_grants_set
    by (simp add: grants_denials_Nil_iff identity_maximum_scope_def IDENTITY_CEILING_def)
qed

lemma map_grant_fact_id_proposed [simp]:
  "map grant_fact_id (build_proposed_grants facts) = map fact_id (sort_key fact_id facts)"
  by (simp add: build_proposed_grants_def comp_def proposed_grant_def)

text \<open>A proposal is within policy: approving it as offered is never refused by these checks.\<close>

lemma proposal_within_policy:
  fixes facts :: "fact list" and contributor case_id community ns now
  defines "offered \<equiv> grantable_facts facts contributor case_id community ns"
  assumes "distinct (map fact_id facts)"
  shows "validate_requested_grants (build_proposed_grants offered) PROPOSAL_IDENTITY_GRANT None
           (fact_id ` set offered) (index_by fact_id facts) contributor case_id community ns now = []"
proof -
  have "distinct (map fact_id offered)"
    using assms(2) unfolding offered_def grantable_facts_def by (simp add: distinct_map_filter)
  moreover have "grant_within_policy (fact_id ` set offered) (index_by fact_id facts)
      (owned_active_fact contributor case_id community ns) (proposed_grant f)" if f: "f \<in> set offered" for f
  proof -
    have "f \<in> set facts" "owned_active_fact contributor case_id community ns f"
      using f by (auto simp: offered_def grantable_facts_def)
    moreover from this have "index_by fact_id facts (fact_id f) = Some f"
      using index_by_Some_iff [OF assms(2)] by blast
    ultimately show ?thesis
      using f by (auto simp: grant_within_policy_def proposed_grant_def proposed_scope_permitted)
  qed
  ultimately show ?thesis
    unfolding validate_requested_grants_Nil_iff map_grant_fact_id_proposed
    by (auto simp: build_proposed_grants_def PROPOSAL_IDENTITY_GRANT_def scope_permits_def)
qed

end
