(* ===== verification/Mandate_Properties.thy ===== *)
theory Mandate_Properties
  imports Mandate_Policy
begin

text \<open>
  The properties of disclosure mandates (\<open>src/chorus/domain/mandates.py\<close>) and of the policy that
  bounds them (\<open>src/chorus/privacy/policy.py\<close>, \<open>src/chorus/privacy/mandates.py\<close>).
\<close>

section \<open>A proposed mandate\<close>

definition w_grant :: "nat \<Rightarrow> fact_grant" where
  "w_grant n = \<lparr>grant_fact_id = Ident n, grant_max_scope = ANONYMOUS_CASE, grant_allow_safe_transformation = True\<rparr>"

definition w_mandate :: disclosure_mandate where
  "w_mandate =
     \<lparr>mandate_id = Ident 51, mandate_version = 1, mandate_case_id = Ident 1, mandate_community_id = Ident 2,
      mandate_contributor_id = Ident 11, mandate_namespace = Namespace ''DEMO'', mandate_status = MS_PROPOSED,
      mandate_fact_grants = [w_grant 31, w_grant 32], mandate_identity_grant = NO_IDENTITY_GRANT,
      mandate_allowed_destination_ids = [DestinationId ''manager:one''],
      mandate_allowed_purposes = [REQUEST_ELEVATOR_REPAIR_AND_RESPONSE],
      mandate_valid_from = utc 0, mandate_expires_at = None, mandate_proposed_at = utc 0,
      mandate_decided_at = None, mandate_revoked_at = None, mandate_decision_actor_id = None,
      mandate_supersedes_version = None, mandate_terms_hash = Sha256Digest ''sha256:1'',
      mandate_created_at = utc 0, mandate_updated_at = utc 0\<rparr>"

definition w_decision :: "mandate_decision \<Rightarrow> fact_grant list \<Rightarrow> int \<Rightarrow> decision_request" where
  "w_decision d grants now =
     \<lparr>dr_decision = d, dr_fact_grants = grants, dr_identity_grant = NO_IDENTITY_GRANT, dr_expires_at = None,
      dr_actor = Ident 11, dr_now = utc now, dr_terms_hash = Sha256Digest ''sha256:2''\<rparr>"

definition w_approved :: disclosure_mandate where
  "w_approved = projr (decide w_mandate (w_decision MD_APPROVE [w_grant 32, w_grant 31] 5))"

lemma w_approved_run: "decide w_mandate (w_decision MD_APPROVE [w_grant 32, w_grant 31] 5) = Inr w_approved"
  unfolding w_approved_def by (rule returns_projr) code_simp

section \<open>Decisions\<close>

lemma mandate_expires_next:
  "mandate_fact_grants (next_mandate m s gs gi e a now h) = gs" "mandate_identity_grant (next_mandate m s gs gi e a now h) = gi"
  "mandate_expires_at (next_mandate m s gs gi e a now h) = e"
  by (simp_all add: next_mandate_def)

text \<open>
  C12. A recorded decision was made by the mandate's own contributor, inside its validity window, along
  an edge of the decision table; the new version is the next one and supersedes the old. Approving leaves
  exactly the terms that were proposed: the grants, the identity and the expiry. Refusing or revoking
  leaves no grant, no identity and the expiry as it was; an adjustment takes the terms of the request.
  Destinations, purposes and the start of validity never change.
\<close>

theorem decision_sound:
  assumes "decide m r = Inr m'"
  shows "dr_actor r = mandate_contributor_id m \<and>
    instant (mandate_valid_from m) \<le> instant (dr_now r) \<and>
    (\<forall>e. mandate_expires_at m = Some e \<longrightarrow> instant (dr_now r) < instant e) \<and>
    MANDATE_DECISION_EDGES (mandate_status m) (dr_decision r) = Some (mandate_status m') \<and>
    mandate_version m' = mandate_version m + 1 \<and> mandate_supersedes_version m' = Some (mandate_version m) \<and>
    mandate_allowed_destination_ids m' = mandate_allowed_destination_ids m \<and>
    mandate_allowed_purposes m' = mandate_allowed_purposes m \<and>
    mandate_contributor_id m' = mandate_contributor_id m \<and> mandate_valid_from m' = mandate_valid_from m \<and>
    (dr_decision r \<in> {MD_REFUSE, MD_REVOKE} \<longrightarrow>
       mandate_fact_grants m' = [] \<and> mandate_identity_grant m' = NO_IDENTITY_GRANT \<and>
       mandate_expires_at m' = mandate_expires_at m) \<and>
    (dr_decision r = MD_APPROVE \<longrightarrow> set (mandate_fact_grants m') = set (mandate_fact_grants m) \<and>
       mandate_identity_grant m' = mandate_identity_grant m \<and>
       datetime_opt_eq (mandate_expires_at m) (mandate_expires_at m')) \<and>
    (dr_decision r = MD_ADJUST \<longrightarrow> set (mandate_fact_grants m') = set (dr_fact_grants r) \<and>
       mandate_identity_grant m' = dr_identity_grant r \<and> mandate_expires_at m' = dr_expires_at r)"
proof -
  note D = decideD [OF assms]
  have g: "mandate_fact_grants m' = sort_key grant_fact_id (dr_fact_grants r)"
    "mandate_identity_grant m' = dr_identity_grant r"
    "mandate_expires_at m' = (if dr_decision r \<in> {MD_REFUSE, MD_REVOKE} then mandate_expires_at m else dr_expires_at r)"
    by (subst D(9), simp only: mandate_expires_next)+
  have approve: "dr_decision r = MD_APPROVE \<Longrightarrow> set (mandate_fact_grants m') = set (mandate_fact_grants m) \<and>
      mandate_identity_grant m' = mandate_identity_grant m \<and> datetime_opt_eq (mandate_expires_at m) (mandate_expires_at m')"
    using D(6) by (simp add: g terms_are_identical_def)
  have revoke: "dr_decision r \<in> {MD_REFUSE, MD_REVOKE} \<Longrightarrow>
      mandate_fact_grants m' = [] \<and> mandate_identity_grant m' = NO_IDENTITY_GRANT \<and>
      mandate_expires_at m' = mandate_expires_at m"
    using D(7) by (simp add: g)
  have adjust: "dr_decision r = MD_ADJUST \<Longrightarrow> set (mandate_fact_grants m') = set (dr_fact_grants r) \<and>
      mandate_identity_grant m' = dr_identity_grant r \<and> mandate_expires_at m' = dr_expires_at r"
    by (simp add: g)
  have expiry: "\<forall>e. mandate_expires_at m = Some e \<longrightarrow> instant (dr_now r) < instant e"
    using D(4) by auto
  show ?thesis
    using D(2,3,5) decide_frame [OF assms] approve revoke adjust expiry by blast
qed

theorem decision_sound_witness:
  "set (mandate_fact_grants w_approved) = {w_grant 31, w_grant 32} \<and> mandate_version w_approved = 2 \<and>
     datetime_opt_eq None (mandate_expires_at w_approved)"
proof -
  note s = decision_sound [OF w_approved_run]
  then have "mandate_version w_approved = mandate_version w_mandate + 1"
    "set (mandate_fact_grants w_approved) = set (mandate_fact_grants w_mandate)"
    "datetime_opt_eq (mandate_expires_at w_mandate) (mandate_expires_at w_approved)"
    by (auto simp: w_decision_def)
  then show ?thesis by (simp add: w_mandate_def)
qed

text \<open>
  C24. Whatever decisions are submitted, in any order, the stored versions of a mandate are numbered
  consecutively from the proposal, each is a decision on the one before, and only the last can be
  refused or revoked: nothing is ever stored after it.
\<close>

theorem mandate_history:
  assumes "mandate_status m = MS_PROPOSED"
  shows "hd (history [] m rs) = m \<and> successively successor (history [] m rs) \<and>
    (\<forall>i < length (history [] m rs). mandate_version (history [] m rs ! i) = mandate_version m + int i) \<and>
    (\<forall>m'\<in>set (butlast (history [] m rs)). mandate_status m' \<in> {MS_PROPOSED, MS_APPROVED})"
proof -
  have chain: "successively successor (history [] m rs)" by (rule history_chain) simp
  have "\<forall>x\<in>set (butlast xs). mandate_status x \<in> {MS_PROPOSED, MS_APPROVED}" if "successively successor xs" for xs
    using that
  proof (induction xs rule: induct_list012)
    case (3 x y zs)
    then obtain r where "decide x r = Inr y" by (auto simp: successor_def)
    then have "mandate_status x \<in> {MS_PROPOSED, MS_APPROVED}" by (rule decide_frame(12))
    with 3 show ?case by simp
  qed simp_all
  with chain history_hd [of "[]" m rs] history_version [of "[]" m "mandate_version m" rs]
  show ?thesis by simp
qed

theorem mandate_history_witness:
  "hd (history [] w_mandate
      [w_decision MD_APPROVE [w_grant 32, w_grant 31] 5, w_decision MD_REVOKE [] 6, w_decision MD_ADJUST [w_grant 31] 7]) = w_mandate \<and>
   successively successor (history [] w_mandate
      [w_decision MD_APPROVE [w_grant 32, w_grant 31] 5, w_decision MD_REVOKE [] 6, w_decision MD_ADJUST [w_grant 31] 7])"
proof -
  have "mandate_status w_mandate = MS_PROPOSED" by (simp add: w_mandate_def)
  from mandate_history [OF this] show ?thesis by blast
qed

text \<open>
  A decision is classified as withdrawing authorization exactly when it refuses, revokes, or
  adjusts to a list that lacks one of the previous grants as it was (a narrower or wider grant for the
  same fact counts as withdrawn too).
\<close>

theorem withdrawal_classification:
  assumes "distinct (map grant_fact_id requested)"
  shows "withdraws_authorization d previous requested \<longleftrightarrow>
    d = MD_REFUSE \<or> d = MD_REVOKE \<or> d = MD_ADJUST \<and> (\<exists>g\<in>set previous. g \<notin> set requested)"
  using withdraws_authorization_iff [OF assms, of previous]
  by (cases d) (auto simp: withdraws_authorization_def)

theorem withdrawal_classification_witness:
  "withdraws_authorization MD_ADJUST [w_grant 31, w_grant 32] [w_grant 31]"
  by (subst withdrawal_classification) (simp_all add: w_grant_def)

section \<open>Policy\<close>

text \<open>
  The scope a fact is proposed at is permitted by its ceiling and never names anyone; a fact of a
  protected sensitivity, or of a type without a transformation, is only ever internal; the permission
  table is a partial order.
\<close>

theorem policy_scopes:
  "scope_permits (policy_maximum_scope t s) (proposed_scope t s) \<and>
   scope_permits ANONYMOUS_CASE (proposed_scope t s) \<and>
   (s \<in> HARD_INTERNAL_SENSITIVITIES \<or> t \<in> {UNIT_LOCATION, HEALTH_DETAIL, MANAGEMENT_STATEMENT, COMMITMENT_TERM} \<longrightarrow>
      (\<forall>scope. scope_permits (policy_maximum_scope t s) scope \<longleftrightarrow> scope = INTERNAL_ONLY)) \<and>
   (scope_permits a b \<longrightarrow> scope_permits b c \<longrightarrow> scope_permits a c) \<and>
   (scope_permits a b \<longrightarrow> scope_permits b a \<longrightarrow> a = b)"
  using proposed_scope_permitted proposed_scope_at_most_anonymous scope_permits_trans scope_permits_antisym
  by (auto simp: policy_maximum_scope_def scope_permits_internal_iff)

theorem policy_scopes_witness:
  "scope_permits (policy_maximum_scope HEALTH_DETAIL SC_HEALTH) ANONYMOUS_CASE \<longleftrightarrow> False"
  using policy_scopes [of HEALTH_DETAIL SC_HEALTH] by auto

text \<open>
  C35. The check of submitted grants is empty exactly when every grant names a different fact that is
  the contributor's own, active, in the case and proposed to them, at a scope its ceiling permits, the
  identity scope is at most NAMED_CASE, and the expiry, if any, is after now.
\<close>

theorem requested_grants_checked:
  "validate_requested_grants grants ident expires_at proposed facts_by_id contributor case_id community ns now = [] \<longleftrightarrow>
     distinct (map grant_fact_id grants) \<and>
     (\<forall>g\<in>set grants. \<exists>f. facts_by_id (grant_fact_id g) = Some f \<and> grant_fact_id g \<in> proposed \<and>
        fact_contributor_id f = contributor \<and> fact_case_id f = case_id \<and> fact_community_id f = community \<and>
        fact_namespace f = ns \<and> fact_status f = FS_ACTIVE \<and>
        scope_permits (policy_maximum_scope (fact_type f) (fact_sensitivity f)) (grant_max_scope g)) \<and>
     scope_permits NAMED_CASE (identity_max_scope ident) \<and>
     (\<forall>e. expires_at = Some e \<longrightarrow> instant now < instant e)"
proof -
  have e: "\<not> opt_test (\<lambda>e. instant e \<le> instant now) expires_at \<longleftrightarrow> (\<forall>e. expires_at = Some e \<longrightarrow> instant now < instant e)"
    by (cases expires_at) auto
  show ?thesis
    unfolding validate_requested_grants_Nil_iff e grant_within_policy_def owned_active_fact_def by blast
qed

definition w_active_fact :: "nat \<Rightarrow> fact" where
  "w_active_fact n =
     \<lparr>fact_id = Ident n, fact_case_id = Ident 1, fact_report_id = Ident 21, fact_community_id = Ident 2,
      fact_contributor_id = Ident 11, fact_namespace = Namespace ''DEMO'', fact_type = LOCATION_AREA,
      fact_value = LocationArea LA_LOBBY, fact_sensitivity = SC_GENERAL, fact_evidence_ids = [],
      fact_evidence_status = ES_REPORTED, fact_source_message_ids = [Ident 41], fact_supersedes = None,
      fact_status = FS_ACTIVE, fact_version = 1, fact_created_at = utc 0, fact_updated_at = utc 0\<rparr>"

theorem requested_grants_checked_witness:
  "\<exists>f. index_by fact_id [w_active_fact 31] (Ident 31) = Some f \<and> fact_status f = FS_ACTIVE"
proof -
  have "validate_requested_grants [w_grant 31] NO_IDENTITY_GRANT None {Ident 31} (index_by fact_id [w_active_fact 31])
      (Ident 11) (Ident 1) (Ident 2) (Namespace ''DEMO'') (utc 5) = []" by code_simp
  from this [unfolded requested_grants_checked] show ?thesis by (auto simp: w_grant_def)
qed

text \<open>
  C36. A proposal is always acceptable as offered: submitting exactly the grants
  \<open>build_proposed_grants\<close> made from the contributor's grantable facts passes every check.
\<close>

theorem proposal_is_acceptable:
  assumes "distinct (map fact_id facts)"
  shows "validate_requested_grants (build_proposed_grants (grantable_facts facts contributor case_id community ns))
    PROPOSAL_IDENTITY_GRANT None (fact_id ` set (grantable_facts facts contributor case_id community ns))
    (index_by fact_id facts) contributor case_id community ns now = []"
  by (rule proposal_within_policy [OF assms])

theorem proposal_is_acceptable_witness:
  "validate_requested_grants (build_proposed_grants (grantable_facts [w_active_fact 31, w_active_fact 32] (Ident 11)
      (Ident 1) (Ident 2) (Namespace ''DEMO'')))
    PROPOSAL_IDENTITY_GRANT None (fact_id ` set (grantable_facts [w_active_fact 31, w_active_fact 32] (Ident 11)
      (Ident 1) (Ident 2) (Namespace ''DEMO'')))
    (index_by fact_id [w_active_fact 31, w_active_fact 32]) (Ident 11) (Ident 1) (Ident 2) (Namespace ''DEMO'') (utc 5) = []"
  by (rule proposal_is_acceptable) (simp add: w_active_fact_def)

end
