(* ===== verification/Canonical.thy ===== *)
theory Canonical
  imports Policy "HOL-Library.Multiset"
begin

text \<open>
  \<open>src/chorus/privacy/canonical.py\<close>: the restricted value domain of the canonical serialization
  and the payloads each authorization digest covers. \<open>to_canonical_primitive\<close> walks a typed
  object field by field; here each modelled type has its canonical form, with the field names the
  walk uses. RFC 8785 serialization (third-party package \<open>rfc8785\<close>) and SHA-256 are one
  argument \<open>H\<close>, from a canonical value to its digest. Unicode NFC is the identity on the ASCII
  text of the model. Times inside the hashed objects are UTC, as their constructors check, so the
  text of an instant is total (\<open>format_utc_text\<close>).
\<close>

datatype jval =
    JNull
  | JBool bool
  | JInt int
  | JStr string
  | JArr "jval list"
  | JObj "(string \<times> jval) list"

type_synonym hasher = "jval \<Rightarrow> digest"

section \<open>Leaves\<close>

fun j_opt :: "('a \<Rightarrow> jval) \<Rightarrow> 'a option \<Rightarrow> jval" where
  "j_opt f None = JNull"
| "j_opt f (Some x) = f x"

definition j_list :: "('a \<Rightarrow> jval) \<Rightarrow> 'a list \<Rightarrow> jval" where
  "j_list f xs = JArr (map f xs)"

definition j_uuid :: "uuid \<Rightarrow> jval" where "j_uuid u = JStr (uuid_text u)"
definition j_ident :: "'k ident \<Rightarrow> jval" where "j_ident i = JStr (ident_str i)"
definition j_digest :: "digest \<Rightarrow> jval" where "j_digest d = JStr (digest_value d)"

text \<open>\<open>Namespace\<close> and \<open>DestinationId\<close> are dataclasses with the one field \<open>value\<close>.\<close>

definition j_namespace :: "namespace \<Rightarrow> jval" where
  "j_namespace n = JObj [(''value'', JStr (ns_value n))]"

definition j_destination_id :: "destination_id \<Rightarrow> jval" where
  "j_destination_id d = JObj [(''value'', JStr (dest_value d))]"

definition utc_text :: "int \<Rightarrow> string" where
  "utc_text i =
     (let s = delta_seconds i in
        date_isoformat (delta_days i) @ ''T'' @ dec_fixed 2 (s div 3600) @ '':'' @
        dec_fixed 2 (s mod 3600 div 60) @ '':'' @ dec_fixed 2 (s mod 60) @ ''.'' @
        dec_fixed 6 (delta_micros i) @ ''Z'')"

lemma format_utc_text: "is_utc d \<Longrightarrow> format_utc d = Inr (utc_text (instant d))"
  by (simp add: format_utc_def utc_text_def require_utc_def Let_def)

definition j_time :: "datetime \<Rightarrow> jval" where "j_time d = JStr (utc_text (instant d))"

lemmas j_leaf_defs = j_list_def j_uuid_def j_ident_def j_digest_def j_namespace_def
  j_destination_id_def j_time_def

section \<open>Mandate terms\<close>

definition j_fact_grant :: "fact_grant \<Rightarrow> jval" where
  "j_fact_grant g = JObj
     [(''fact_id'', j_ident (grant_fact_id g)), (''max_scope'', JStr (scope_text (grant_max_scope g))),
      (''allow_safe_transformation'', JBool (grant_allow_safe_transformation g))]"

definition j_identity_grant :: "identity_grant \<Rightarrow> jval" where
  "j_identity_grant g = JObj
     [(''externally_shareable'', JBool (identity_externally_shareable g)),
      (''max_scope'', JStr (scope_text (identity_max_scope g)))]"

definition mandate_terms_payload :: "disclosure_mandate \<Rightarrow> jval" where
  "mandate_terms_payload m = JObj
     [(''mandate_id'', j_ident (mandate_id m)),
      (''version'', JInt (mandate_version m)),
      (''case_id'', j_ident (mandate_case_id m)),
      (''community_id'', j_ident (mandate_community_id m)),
      (''contributor_id'', j_ident (mandate_contributor_id m)),
      (''namespace'', j_namespace (mandate_namespace m)),
      (''fact_grants'', j_list j_fact_grant (sort_key grant_fact_id (mandate_fact_grants m))),
      (''identity_grant'', j_identity_grant (mandate_identity_grant m)),
      (''allowed_destination_ids'',
       j_list j_destination_id (sort_key dest_value (mandate_allowed_destination_ids m))),
      (''allowed_purposes'',
       j_list (\<lambda>p. JStr (purpose_text p)) (sort_key purpose_text (mandate_allowed_purposes m))),
      (''valid_from'', j_time (mandate_valid_from m)),
      (''expires_at'', j_opt j_time (mandate_expires_at m)),
      (''supersedes_version'', j_opt JInt (mandate_supersedes_version m))]"

definition hash_mandate_terms :: "hasher \<Rightarrow> disclosure_mandate \<Rightarrow> digest" where
  "hash_mandate_terms H m = H (mandate_terms_payload m)"

section \<open>Proposals and approvals\<close>

definition hash_action_claim :: "hasher \<Rightarrow> action_claim \<Rightarrow> digest" where
  "hash_action_claim H c = H (JObj
     [(''claim_id'', j_uuid (claim_id c)), (''text'', JStr (claim_text c)),
      (''export_fact_ids'', j_list j_uuid (claim_export_fact_ids c))])"

definition hash_action_caveat :: "hasher \<Rightarrow> action_caveat \<Rightarrow> digest" where
  "hash_action_caveat H c = H (JObj
     [(''caveat_id'', j_uuid (caveat_id c)), (''text'', JStr (caveat_text c)),
      (''export_fact_ids'', j_list j_uuid (caveat_export_fact_ids c))])"

definition j_action_claim :: "action_claim \<Rightarrow> jval" where
  "j_action_claim c = JObj
     [(''claim_id'', j_uuid (claim_id c)), (''text'', JStr (claim_text c)),
      (''export_fact_ids'', j_list j_uuid (claim_export_fact_ids c)),
      (''claim_hash'', j_digest (claim_hash c))]"

definition j_action_caveat :: "action_caveat \<Rightarrow> jval" where
  "j_action_caveat c = JObj
     [(''caveat_id'', j_uuid (caveat_id c)), (''text'', JStr (caveat_text c)),
      (''export_fact_ids'', j_list j_uuid (caveat_export_fact_ids c)),
      (''caveat_hash'', j_digest (caveat_hash c))]"

fun tone_text :: "action_tone \<Rightarrow> string" where
  "tone_text NEUTRAL = ''NEUTRAL''"
| "tone_text COLLABORATIVE = ''COLLABORATIVE''"
| "tone_text FIRM = ''FIRM''"

fun proposal_status_text :: "action_proposal_status \<Rightarrow> string" where
  "proposal_status_text AP_DRAFT = ''DRAFT''"
| "proposal_status_text AP_INVALIDATED = ''INVALIDATED''"

definition hash_action_proposal :: "hasher \<Rightarrow> action_proposal \<Rightarrow> digest" where
  "hash_action_proposal H p = H (JObj
     [(''action_id'', j_ident (prop_action_id p)),
      (''case_id'', j_ident (prop_case_id p)),
      (''case_version'', JInt (prop_case_version p)),
      (''authorization_version'', JInt (prop_authorization_version p)),
      (''view_id'', j_ident (prop_view_id p)),
      (''view_hash'', j_digest (prop_view_hash p)),
      (''subject'', JStr (prop_subject p)),
      (''claims'', j_list j_action_claim (prop_claims p)),
      (''requested_action'', JStr (prop_requested_action p)),
      (''requested_deadline'', j_opt j_time (prop_requested_deadline p)),
      (''request_fact_ids'', j_list j_uuid (prop_request_fact_ids p)),
      (''caveats'', j_list j_action_caveat (prop_caveats p)),
      (''tone'', JStr (tone_text (prop_tone p))),
      (''agent_invocation_id'', j_uuid (prop_invocation_id p)),
      (''prompt_version'', JStr (prop_prompt_version p)),
      (''preview_hash'', j_digest (prop_preview_hash p)),
      (''status'', JStr (proposal_status_text (prop_status p))),
      (''created_at'', j_time (prop_created_at p)),
      (''schema_version'', JStr ''action-proposal/v2'')])"

fun approval_decision_text :: "approval_decision \<Rightarrow> string" where
  "approval_decision_text AD_APPROVED = ''APPROVED''"
| "approval_decision_text AD_REJECTED = ''REJECTED''"

fun assurance_text :: "approver_assurance \<Rightarrow> string" where
  "assurance_text DEMO_SHARED_TOKEN = ''DEMO_SHARED_TOKEN''"

text \<open>Every field but \<open>APPROVAL_HASH_OMITTED_FIELDS\<close>.\<close>

definition hash_approval :: "hasher \<Rightarrow> approval \<Rightarrow> digest" where
  "hash_approval H a = H (JObj
     [(''approval_id'', j_ident (appr_id a)),
      (''namespace'', j_namespace (appr_namespace a)),
      (''community_id'', j_ident (appr_community_id a)),
      (''case_id'', j_ident (appr_case_id a)),
      (''action_id'', j_ident (appr_action_id a)),
      (''execution_id'', j_ident (appr_execution_id a)),
      (''proposal_hash'', j_digest (appr_proposal_hash a)),
      (''view_hash'', j_digest (appr_view_hash a)),
      (''authorization_version'', JInt (appr_authorization_version a)),
      (''approver_id_hash'', j_digest (appr_approver_id_hash a)),
      (''approver_assurance'', JStr (assurance_text (appr_assurance a))),
      (''decision'', JStr (approval_decision_text (appr_decision a))),
      (''approved_at'', j_time (appr_approved_at a)),
      (''expires_at'', j_time (appr_expires_at a)),
      (''request_key_hash'', j_digest (appr_request_key_hash a)),
      (''schema_version'', JStr ''approval/v2'')])"

section \<open>What the digests cover\<close>

lemma scope_text_eq [simp]: "scope_text a = scope_text b \<longleftrightarrow> a = b"
  by (rule scope_text_inj)

text \<open>The seal on a mandate's terms does not depend on the order in which its grants are listed.\<close>

lemma sort_key_permutation:
  assumes "distinct (map f xs)" "distinct (map f ys)" "set xs = set ys"
  shows "sort_key f xs = sort_key (f :: 'a \<Rightarrow> 'b :: linorder) ys"
proof -
  have "distinct xs" "distinct ys" using assms by (auto simp: distinct_map)
  then have "mset xs = mset ys" using assms(3) by (simp add: set_eq_iff_mset_eq_distinct)
  moreover have "inj_on f (set xs)" using assms(1) by (simp add: distinct_map)
  ultimately show ?thesis
    by (intro sort_key_inj_key_eq) simp_all
qed

lemma hash_mandate_terms_status:
  "hash_mandate_terms H (m\<lparr>mandate_status := s, mandate_decided_at := d, mandate_revoked_at := r,
     mandate_terms_hash := h, mandate_updated_at := u\<rparr>) = hash_mandate_terms H m"
  by (simp add: hash_mandate_terms_def mandate_terms_payload_def)

lemma hash_approval_bookkeeping:
  "hash_approval H (a\<lparr>appr_hash := h, appr_version := v, appr_created_at := c, appr_updated_at := u\<rparr>) =
     hash_approval H a"
  by (simp add: hash_approval_def)

end
