(* ===== verification/Transformations.thy ===== *)
theory Transformations
  imports Canonical
begin

text \<open>
  \<open>src/chorus/privacy/transformations.py\<close>: the external-safe facts and evidence references and the
  allowlisted policy/v1 rules that build them. The lemmas show that no rule but the identity rule
  lets private free text through: the output depends only on typed fields.
\<close>

section \<open>Outputs\<close>

definition SAFE_EVIDENCE_MEDIA_TYPE :: string where
  "SAFE_EVIDENCE_MEDIA_TYPE = ''image/png''"

record shareable_fact =
  sf_export_fact_id :: export_fact_id
  sf_fact_type :: fact_type
  sf_safe_text :: string
  sf_effective_scope :: disclosure_scope
  sf_evidence_status :: evidence_status
  sf_contributor_count :: nat
  sf_transformation :: transformation_kind
  sf_transformation_rule_id :: string
  sf_safe_evidence_ref_ids :: "safe_evidence_ref_id list"
  sf_content_hash :: digest

definition shareable_fact_post_init :: "shareable_fact \<Rightarrow> unit result" where
  "shareable_fact_post_init f = checks
     [bounded (sf_safe_text f) 1 500 ''safe fact text'',
      (sf_contributor_count f < 1, ValueError ''shareable fact requires a contributor''),
      unique (sf_safe_evidence_ref_ids f) ''safe evidence references'']"

record shareable_evidence_ref =
  ser_id :: safe_evidence_ref_id
  ser_media_type :: string
  ser_export_handle_id :: uuid
  ser_sha256 :: digest
  ser_caption :: string
  ser_created_by_rule_id :: string
  ser_content_hash :: digest

definition shareable_evidence_ref_post_init :: "shareable_evidence_ref \<Rightarrow> unit result" where
  "shareable_evidence_ref_post_init r = checks
     [bounded (ser_media_type r) 1 120 ''safe evidence media type'',
      bounded (ser_caption r) 1 300 ''safe evidence caption'']"

fun transformation_text :: "transformation_kind \<Rightarrow> string" where
  "transformation_text TK_DIRECT = ''DIRECT''"
| "transformation_text TK_ANONYMIZED = ''ANONYMIZED''"
| "transformation_text TK_AGGREGATED = ''AGGREGATED''"
| "transformation_text TK_GENERALIZED = ''GENERALIZED''"

text \<open>The canonical members, the digest field last so that it can be left out.\<close>

definition j_shareable_fact_members :: "shareable_fact \<Rightarrow> (string \<times> jval) list" where
  "j_shareable_fact_members f =
     [(''export_fact_id'', j_ident (sf_export_fact_id f)),
      (''fact_type'', JStr (fact_type_text (sf_fact_type f))),
      (''safe_text'', JStr (sf_safe_text f)),
      (''effective_scope'', JStr (scope_text (sf_effective_scope f))),
      (''evidence_status'', JStr (evidence_status_text (sf_evidence_status f))),
      (''contributor_count'', JInt (int (sf_contributor_count f))),
      (''transformation'', JStr (transformation_text (sf_transformation f))),
      (''transformation_rule_id'', JStr (sf_transformation_rule_id f)),
      (''safe_evidence_ref_ids'', j_list j_ident (sf_safe_evidence_ref_ids f))]"

definition j_shareable_evidence_ref_members :: "shareable_evidence_ref \<Rightarrow> (string \<times> jval) list" where
  "j_shareable_evidence_ref_members r =
     [(''safe_evidence_ref_id'', j_ident (ser_id r)),
      (''media_type'', JStr (ser_media_type r)),
      (''export_handle_id'', j_uuid (ser_export_handle_id r)),
      (''sha256'', j_digest (ser_sha256 r)),
      (''caption'', JStr (ser_caption r)),
      (''created_by_rule_id'', JStr (ser_created_by_rule_id r))]"

definition j_shareable_fact :: "shareable_fact \<Rightarrow> jval" where
  "j_shareable_fact f = JObj (j_shareable_fact_members f @ [(''content_hash'', j_digest (sf_content_hash f))])"

definition j_shareable_evidence_ref :: "shareable_evidence_ref \<Rightarrow> jval" where
  "j_shareable_evidence_ref r =
     JObj (j_shareable_evidence_ref_members r @ [(''content_hash'', j_digest (ser_content_hash r))])"

section \<open>Building one safe fact\<close>

definition combined_evidence_status :: "fact list \<Rightarrow> evidence_status" where
  "combined_evidence_status facts =
     (let statuses = fact_evidence_status ` set facts in
      if ES_CONTRADICTED \<in> statuses then ES_CONTRADICTED
      else if statuses = {ES_VERIFIED} then ES_VERIFIED
      else if ES_CORROBORATED \<in> statuses \<or> ES_VERIFIED \<in> statuses then ES_CORROBORATED
      else if ES_REPORTED \<in> statuses then ES_REPORTED
      else ES_UNKNOWN)"

text \<open>\<open>_date_span\<close>, on the dates as day numbers.\<close>

definition date_span :: "int list \<Rightarrow> string" where
  "date_span days =
     (let first = date_isoformat (Min (set days)); last' = date_isoformat (Max (set days))
      in if first = last' then first else first @ '' to '' @ last')"

definition contributor_count :: "fact list \<Rightarrow> nat" where
  "contributor_count facts = card (fact_contributor_id ` set facts)"

definition build_shareable_fact ::
    "hasher \<Rightarrow> export_fact_id \<Rightarrow> fact list \<Rightarrow> string \<Rightarrow> disclosure_scope \<Rightarrow> transformation_kind \<Rightarrow>
     string \<Rightarrow> safe_evidence_ref_id list \<Rightarrow> shareable_fact result" where
  "build_shareable_fact H eid facts text scope kind rule refs =
     (case facts of
        [] \<Rightarrow> Inl (ValueError ''transformation requires source facts'')
      | f # _ \<Rightarrow>
          bindE (validated shareable_fact_post_init
            \<lparr>sf_export_fact_id = eid, sf_fact_type = fact_type f, sf_safe_text = text,
             sf_effective_scope = scope, sf_evidence_status = combined_evidence_status facts,
             sf_contributor_count = contributor_count facts, sf_transformation = kind,
             sf_transformation_rule_id = rule, sf_safe_evidence_ref_ids = sort refs,
             sf_content_hash = EMPTY_DIGEST\<rparr>)
            (\<lambda>draft. validated shareable_fact_post_init
               (draft\<lparr>sf_content_hash := H (JObj (j_shareable_fact_members draft))\<rparr>)))"

section \<open>The rules\<close>

text \<open>\<open>", ".join(xs)\<close>.\<close>

fun comma_join :: "string list \<Rightarrow> string" where
  "comma_join [] = []"
| "comma_join [s] = s"
| "comma_join (s # t # ss) = s @ '', '' @ comma_join (t # ss)"

definition is_incident :: "fact_value \<Rightarrow> bool" where
  "is_incident v = (case v of IncidentOccurrence _ _ _ \<Rightarrow> True | _ \<Rightarrow> False)"

definition is_impact :: "fact_value \<Rightarrow> bool" where
  "is_impact v = (case v of ServiceImpact _ _ \<Rightarrow> True | _ \<Rightarrow> False)"

definition incident_text :: "fact list \<Rightarrow> string" where
  "incident_text facts =
     ''Elevator incidents were reported on '' @
     date_span (map (\<lambda>f. date_days (occurred_at (fact_value f))) facts) @
     ''; observed mode: '' @
     comma_join (map worded (sort (remdups (map (\<lambda>f. failure_mode_text (failure_mode_of (fact_value f))) facts)))) @
     ''.''"

definition impact_categories :: "fact list \<Rightarrow> string" where
  "impact_categories facts =
     comma_join (sort (remdups (map (\<lambda>f. map to_lower (impact_code_text (impact_code_of (fact_value f)))) facts)))"

definition aggregate_impact_text :: "fact list \<Rightarrow> string" where
  "aggregate_impact_text facts =
     nat_text (contributor_count facts) @ '' residents reported generalized elevator impacts: '' @
     impact_categories facts @ ''.''"

definition single_impact_text :: "fact list \<Rightarrow> string" where
  "single_impact_text facts =
     ''An elevator incident caused a generalized impact: '' @ impact_categories facts @ ''.''"

definition no_rule :: error where
  "no_rule = ValueError ''no policy/v1 transformation exists for the requested fact type''"

text \<open>The three rules that read only the first fact of the ordered group.\<close>

definition transform_single ::
    "hasher \<Rightarrow> export_fact_id \<Rightarrow> fact list \<Rightarrow> fact \<Rightarrow> disclosure_scope \<Rightarrow> shareable_fact result" where
  "transform_single H eid ordered f scope =
     (case (fact_type f, fact_value f) of
        (LOCATION_AREA, LocationArea area) \<Rightarrow>
          build_shareable_fact H eid ordered
            (''The reported issue concerns the '' @ worded (location_area_text area) @ ''.'')
            scope TK_GENERALIZED ''p1.location.common-area.v1'' []
      | (IDENTITY_ATTRIBUTE, IdentityAttribute name) \<Rightarrow>
          build_shareable_fact H eid ordered name scope TK_DIRECT ''p1.identity.named.v1'' []
      | (CONTRADICTION, Contradiction _ _) \<Rightarrow>
          build_shareable_fact H eid ordered
            ''Available reports conflict with a management statement about the elevator issue.''
            scope TK_GENERALIZED ''p1.contradiction.safe.v1'' []
      | _ \<Rightarrow> Inl no_rule)"

text \<open>The body on the ordered group, \<open>f\<close> being its first fact.\<close>

definition transform_ordered ::
    "hasher \<Rightarrow> export_fact_id \<Rightarrow> fact list \<Rightarrow> fact \<Rightarrow> disclosure_scope \<Rightarrow> shareable_fact result" where
  "transform_ordered H eid ordered f scope =
     (if \<exists>g\<in>set ordered. fact_type g \<noteq> fact_type f
      then Inl (ValueError ''transformation group mixes fact types'')
      else if fact_type f = INCIDENT_OCCURRENCE then
        (if \<exists>g\<in>set ordered. \<not> is_incident (fact_value g)
         then Inl (ValueError ''incident transformation received the wrong value'')
         else build_shareable_fact H eid ordered (incident_text ordered) scope
                TK_ANONYMIZED ''p1.incident.anonymous.v1'' [])
      else if fact_type f = SERVICE_IMPACT then
        (if \<exists>g\<in>set ordered. \<not> is_impact (fact_value g)
         then Inl (ValueError ''impact transformation received the wrong value'')
         else if scope = AGGREGATE_ONLY
         then build_shareable_fact H eid ordered (aggregate_impact_text ordered) scope
                TK_AGGREGATED ''p1.impact.aggregate.v1'' []
         else build_shareable_fact H eid ordered (single_impact_text ordered) scope
                TK_GENERALIZED ''p1.impact.anonymous.v1'' [])
      else transform_single H eid ordered f scope)"

definition transform_facts ::
    "hasher \<Rightarrow> export_fact_id \<Rightarrow> fact list \<Rightarrow> disclosure_scope \<Rightarrow> shareable_fact result" where
  "transform_facts H eid facts scope =
     (case sort_key fact_id facts of
        [] \<Rightarrow> Inl (IndexError ''tuple index out of range'')
      | f # fs \<Rightarrow> transform_ordered H eid (f # fs) f scope)"

definition build_safe_evidence_ref ::
    "hasher \<Rightarrow> safe_evidence_candidate \<Rightarrow> safe_evidence_ref_id \<Rightarrow> shareable_evidence_ref result" where
  "build_safe_evidence_ref H c rid =
     bindE (validated shareable_evidence_ref_post_init
       \<lparr>ser_id = rid, ser_media_type = SAFE_EVIDENCE_MEDIA_TYPE,
        ser_export_handle_id = se_export_handle_id c, ser_sha256 = se_derivative_sha256 c,
        ser_caption = se_caption c, ser_created_by_rule_id = se_transformation_rule_id c,
        ser_content_hash = EMPTY_DIGEST\<rparr>)
       (\<lambda>draft. validated shareable_evidence_ref_post_init
          (draft\<lparr>ser_content_hash := H (JObj (j_shareable_evidence_ref_members draft))\<rparr>))"

definition transform_evidence_description ::
    "hasher \<Rightarrow> export_fact_id \<Rightarrow> fact \<Rightarrow> disclosure_scope \<Rightarrow> shareable_evidence_ref \<Rightarrow> shareable_fact result" where
  "transform_evidence_description H eid f scope r =
     (case fact_value f of
        EvidenceDescription _ _ \<Rightarrow>
          build_shareable_fact H eid [f] (ser_caption r) scope TK_GENERALIZED ''p1.evidence.photo.v1'' [ser_id r]
      | _ \<Rightarrow> Inl (ValueError ''safe evidence transformation requires evidence description''))"

section \<open>What the rules let through\<close>

lemma build_shareable_factD:
  assumes "build_shareable_fact H eid facts text scope kind rule refs = Inr out"
  shows "facts \<noteq> []" "sf_export_fact_id out = eid" "sf_fact_type out = fact_type (hd facts)"
    "sf_safe_text out = text" "sf_effective_scope out = scope"
    "sf_evidence_status out = combined_evidence_status facts"
    "sf_contributor_count out = contributor_count facts" "sf_transformation out = kind"
    "sf_transformation_rule_id out = rule" "sf_safe_evidence_ref_ids out = sort refs"
    "sf_content_hash out = H (JObj (j_shareable_fact_members out))"
    "shareable_fact_post_init out = Inr ()"
  using assms
  by (auto simp: build_shareable_fact_def result_simps j_shareable_fact_members_def split: list.splits)

text \<open>
  The private free text of a value, replaced. Only typed fields are left, and the name of an identity fact
  where \<open>keep\<close> says so.
\<close>

fun redact_value :: "bool \<Rightarrow> fact_value \<Rightarrow> fact_value" where
  "redact_value keep (IncidentOccurrence at m e) = IncidentOccurrence (utc (date_days at * 86400000000)) m []"
| "redact_value keep (ServiceImpact c s) = ServiceImpact c []"
| "redact_value keep (LocationArea a) = LocationArea a"
| "redact_value keep (IdentityAttribute n) = IdentityAttribute (if keep then n else [])"
| "redact_value keep (UnitLocation u) = UnitLocation []"
| "redact_value keep (HealthDetail r d) = HealthDetail SR_OTHER []"
| "redact_value keep (ManagementStatement s e t) = ManagementStatement [] [] (utc 0)"
| "redact_value keep (Contradiction ids s) = Contradiction [] []"
| "redact_value keep (CommitmentTerm e a d v) = CommitmentTerm [] [] (utc 0) []"
| "redact_value keep (EvidenceDescription d k) = EvidenceDescription [] k"

definition redact_fact :: "(fact \<Rightarrow> bool) \<Rightarrow> fact \<Rightarrow> fact" where
  "redact_fact keep f = f\<lparr>fact_value := redact_value (keep f) (fact_value f)\<rparr>"

lemma redact_fact_simps [simp]:
  "fact_id (redact_fact keep f) = fact_id f" "fact_type (redact_fact keep f) = fact_type f"
  "fact_evidence_status (redact_fact keep f) = fact_evidence_status f"
  "fact_contributor_id (redact_fact keep f) = fact_contributor_id f"
  "fact_value (redact_fact keep f) = redact_value (keep f) (fact_value f)"
  by (simp_all add: redact_fact_def)

lemma redact_value_kind [simp]:
  "is_incident (redact_value b v) = is_incident v" "is_impact (redact_value b v) = is_impact v"
  by (cases v; simp add: is_incident_def is_impact_def)+

lemma redact_incident:
  "is_incident v \<Longrightarrow> date_days (occurred_at (redact_value b v)) = date_days (occurred_at v)"
  "is_incident v \<Longrightarrow> failure_mode_of (redact_value b v) = failure_mode_of v"
  by (cases v; simp add: is_incident_def date_days_def delta_days_def)+

lemma redact_impact: "is_impact v \<Longrightarrow> impact_code_of (redact_value b v) = impact_code_of v"
  by (cases v; simp add: is_impact_def)

lemma combined_evidence_status_redact:
  "combined_evidence_status (map (redact_fact keep) facts) = combined_evidence_status facts"
  by (simp add: combined_evidence_status_def image_image)

lemma contributor_count_redact: "contributor_count (map (redact_fact keep) facts) = contributor_count facts"
  by (simp add: contributor_count_def image_image)

lemma build_shareable_fact_redact:
  "build_shareable_fact H eid (map (redact_fact keep) facts) text scope kind rule refs =
     build_shareable_fact H eid facts text scope kind rule refs"
  by (cases facts)
    (simp_all add: build_shareable_fact_def combined_evidence_status_redact [of _ "_ # _", simplified]
      contributor_count_redact [of _ "_ # _", simplified])

lemma incident_text_redact:
  "\<forall>g\<in>set facts. is_incident (fact_value g) \<Longrightarrow> incident_text (map (redact_fact keep) facts) = incident_text facts"
  by (simp add: incident_text_def comp_def redact_incident cong: map_cong)

lemma impact_categories_redact:
  "\<forall>g\<in>set facts. is_impact (fact_value g) \<Longrightarrow> impact_categories (map (redact_fact keep) facts) = impact_categories facts"
  by (simp add: impact_categories_def comp_def redact_impact cong: map_cong)

lemma transform_single_redact:
  "keep f \<Longrightarrow> transform_single H eid (map (redact_fact keep) ordered) (redact_fact keep f) scope = transform_single H eid ordered f scope"
  by (cases "fact_type f"; cases "fact_value f")
    (simp_all add: transform_single_def build_shareable_fact_redact)

lemma sort_key_map: "(\<And>x. f (g x) = f x) \<Longrightarrow> sort_key f (map g xs) = map g (sort_key f xs)"
proof (induction xs)
  case (Cons x xs)
  have "insort_key f (g x) (map g ys) = map g (insort_key f x ys)" for ys
    by (induction ys) (auto simp: Cons.prems)
  with Cons show ?case by simp
qed simp

text \<open>
  Nothing a rule exports depends on redacted content: descriptions, summaries, statements, unit
  labels, health details and times of day are not read, and a name only by the rule for identity facts.
\<close>

lemma transform_ordered_redact:
  assumes kept: "keep f"
  shows "transform_ordered H eid (map (redact_fact keep) ordered) (redact_fact keep f) scope = transform_ordered H eid ordered f scope"
proof (cases "\<exists>g\<in>set ordered. fact_type g \<noteq> fact_type f")
  case True
  then show ?thesis by (simp add: transform_ordered_def)
next
  case same: False
  show ?thesis
  proof (cases "fact_type f = INCIDENT_OCCURRENCE \<or> fact_type f = SERVICE_IMPACT")
    case True
    have all: "(\<exists>g\<in>set (map (redact_fact keep) ordered). \<not> P (fact_value g)) \<longleftrightarrow> (\<exists>g\<in>set ordered. \<not> P (fact_value g))"
      if "\<And>b v. P (redact_value b v) = P v" for P
      using that by simp
    show ?thesis
      using same True incident_text_redact [of ordered keep] impact_categories_redact [of ordered keep]
      unfolding transform_ordered_def all [of is_incident, OF redact_value_kind(1)]
        all [of is_impact, OF redact_value_kind(2)] build_shareable_fact_redact
        aggregate_impact_text_def single_impact_text_def contributor_count_redact
      by auto
  next
    case False
    with same show ?thesis by (simp add: transform_ordered_def transform_single_redact kept)
  qed
qed

lemma transform_facts_redact:
  "\<forall>f\<in>set facts. keep f \<Longrightarrow> transform_facts H eid (map (redact_fact keep) facts) scope = transform_facts H eid facts scope"
proof -
  assume kept: "\<forall>f\<in>set facts. keep f"
  have "sort_key fact_id (map (redact_fact keep) facts) = map (redact_fact keep) (sort_key fact_id facts)"
    by (rule sort_key_map) simp
  then show ?thesis
    using kept transform_ordered_redact [of keep _ H eid "sort_key fact_id facts"]
    by (cases "sort_key fact_id facts") (auto simp: transform_facts_def dest: arg_cong [where f = set])
qed

text \<open>Which types have a rule.\<close>

lemma transform_single_cases:
  assumes "transform_single H eid ordered f scope = Inr out"
  obtains body kind rule where "build_shareable_fact H eid ordered body scope kind rule [] = Inr out"
    "fact_type f \<in> {LOCATION_AREA, IDENTITY_ATTRIBUTE, CONTRADICTION}"
  using assms by (cases "fact_type f"; cases "fact_value f") (auto simp: transform_single_def)

lemma transform_ordered_cases:
  assumes "transform_ordered H eid ordered f scope = Inr out"
  obtains body kind rule where "build_shareable_fact H eid ordered body scope kind rule [] = Inr out"
    "fact_type f \<in> {INCIDENT_OCCURRENCE, SERVICE_IMPACT, LOCATION_AREA, IDENTITY_ATTRIBUTE, CONTRADICTION}"
    "\<forall>g\<in>set ordered. fact_type g = fact_type f"
proof -
  from assms have same: "\<forall>g\<in>set ordered. fact_type g = fact_type f"
    unfolding transform_ordered_def by (simp split: if_splits)
  show ?thesis
  proof (cases "fact_type f = INCIDENT_OCCURRENCE \<or> fact_type f = SERVICE_IMPACT")
    case True
    with assms same show ?thesis
      unfolding transform_ordered_def by (auto split: if_splits intro: that)
  next
    case False
    with assms same have "transform_single H eid ordered f scope = Inr out"
      by (simp add: transform_ordered_def)
    then show ?thesis by (rule transform_single_cases) (use that same in auto)
  qed
qed

lemma transform_facts_types:
  assumes "transform_facts H eid facts scope = Inr out"
  shows "sf_fact_type out \<in> {INCIDENT_OCCURRENCE, SERVICE_IMPACT, LOCATION_AREA, IDENTITY_ATTRIBUTE, CONTRADICTION}"
    "sf_effective_scope out = scope" "sf_export_fact_id out = eid"
    "\<forall>f\<in>set facts. fact_type f = sf_fact_type out"
    "sf_contributor_count out = contributor_count facts" "sf_safe_evidence_ref_ids out = []"
    "sf_content_hash out = H (JObj (j_shareable_fact_members out))"
    "shareable_fact_post_init out = Inr ()" "facts \<noteq> []"
proof -
  from assms obtain f fs where o: "sort_key fact_id facts = f # fs"
    by (cases "sort_key fact_id facts") (auto simp: transform_facts_def)
  with assms have "transform_ordered H eid (f # fs) f scope = Inr out" by (simp add: transform_facts_def)
  then obtain body kind rule where b: "build_shareable_fact H eid (f # fs) body scope kind rule [] = Inr out"
    and t: "fact_type f \<in> {INCIDENT_OCCURRENCE, SERVICE_IMPACT, LOCATION_AREA, IDENTITY_ATTRIBUTE, CONTRADICTION}"
    and same: "\<forall>g\<in>set (f # fs). fact_type g = fact_type f"
    by (rule transform_ordered_cases)
  have s: "set facts = set (f # fs)" using o set_sort [of fact_id facts] by simp
  note d = build_shareable_factD [OF b]
  show "sf_fact_type out \<in> {INCIDENT_OCCURRENCE, SERVICE_IMPACT, LOCATION_AREA, IDENTITY_ATTRIBUTE, CONTRADICTION}"
    unfolding d(3) using t by simp
  show "\<forall>f\<in>set facts. fact_type f = sf_fact_type out" unfolding d(3) s using same by simp
  show "sf_contributor_count out = contributor_count facts"
    unfolding d(7) contributor_count_def s ..
  show "facts \<noteq> []" using s by auto
  show "sf_effective_scope out = scope" by (rule d(5))
  show "sf_export_fact_id out = eid" by (rule d(2))
  show "sf_safe_evidence_ref_ids out = []" unfolding d(10) by simp
  show "sf_content_hash out = H (JObj (j_shareable_fact_members out))" by (rule d(11))
  show "shareable_fact_post_init out = Inr ()" by (rule d(12))
qed

end
