(* ===== verification/Regex_Words.thy ===== *)
theory Regex_Words
  imports Regex "HOL-Library.Sublist"
begin

text \<open>
  Words every match of an expression must contain: a cheap way to show that a text has no match.
\<close>

text \<open>A match only consumes text: what is left is a final part of what was there.\<close>

lemma re_ends_suffix: "p' \<in> set (re_ends r p) \<Longrightarrow> suffix (snd p') (snd p)"
proof (induction r p arbitrary: p' rule: re_ends.induct)
  case (2 P p)
  then show ?case by (cases "snd p") (auto simp: suffix_Cons split: if_splits)
next
  case (3 r q p)
  from "3.prems" obtain x where x: "x \<in> set (re_ends r p)" "p' \<in> set (re_ends q x)"
    unfolding re_ends_Cat by auto
  with "3.IH" re_ends_length [OF x(1)] show ?case by (blast intro: suffix_order.trans)
next
  case (4 r q p)
  then consider "p' \<in> set (re_ends r p)" | "p' \<in> set (re_ends q p)" by auto
  then show ?case using "4.IH" by cases blast+
next
  case (5 r p)
  from "5.prems" consider "p' = p"
    | x where "x \<in> set (re_ends r p)" "length (snd x) < length (snd p)" "p' \<in> set (re_ends (Star r) x)"
    by (subst (asm) re_ends.simps(5)) (auto split: if_splits)
  then show ?case
  proof cases
    case 2
    with "5.IH" show ?thesis by (blast intro: suffix_order.trans)
  qed simp
qed (auto split: if_splits)

section \<open>Words a match must contain\<close>

text \<open>
  Every match of the expression lies on text that contains one of the words, compared without
  regard to case. It refutes a match without running it.
\<close>

definition needs :: "string list \<Rightarrow> re \<Rightarrow> bool" where
  "needs ws r \<longleftrightarrow> (\<forall>p. re_ends r p \<noteq> [] \<longrightarrow> (\<exists>w\<in>set ws. sublist (map to_lower w) (map to_lower (snd p))))"

lemma re_ends_lit_i: "re_ends (re_lit_i w) p \<noteq> [] \<Longrightarrow> prefix (map to_lower w) (map to_lower (snd p))"
proof (induction w arbitrary: p rule: induct_list012)
  case (2 c)
  then show ?case by (cases "snd p") (auto simp: re_lit_i_def re_char_i_def same_letter_def split: if_splits)
next
  case (3 c d w)
  have lit: "re_lit_i (c # d # w) = Cat (re_char_i c) (re_lit_i (d # w))" by (simp add: re_lit_i_def)
  from "3.prems" obtain e s where s: "snd p = e # s" "to_lower e = to_lower c" "re_ends (re_lit_i (d # w)) (Some e, s) \<noteq> []"
    unfolding lit re_ends_Cat by (cases "snd p") (auto simp: re_char_i_def same_letter_def split: if_splits)
  from "3.IH"(2) [OF s(3)] s(1,2) show ?case by simp
qed (simp add: re_lit_i_def)

lemma needs_lit_i [intro!]: "needs [w] (re_lit_i w)"
  unfolding needs_def by (auto dest!: re_ends_lit_i prefix_imp_sublist)

lemma needs_char: "needs [[c]] (re_char c)"
  unfolding needs_def
proof (intro allI impI)
  fix p
  assume "re_ends (re_char c) p \<noteq> []"
  then show "\<exists>w\<in>set [[c]]. sublist (map to_lower w) (map to_lower (snd p))"
    by (cases "snd p") (auto simp: re_char_def same_char_def intro!: prefix_imp_sublist split: if_splits)
qed

lemma needs_Cat_left: "needs ws r \<Longrightarrow> needs ws (Cat r q)"
  unfolding needs_def
proof (intro allI impI)
  fix p
  assume r: "\<forall>p. re_ends r p \<noteq> [] \<longrightarrow> (\<exists>w\<in>set ws. sublist (map to_lower w) (map to_lower (snd p)))"
    and "re_ends (Cat r q) p \<noteq> []"
  then have "re_ends r p \<noteq> []" unfolding re_ends_Cat by auto
  with r show "\<exists>w\<in>set ws. sublist (map to_lower w) (map to_lower (snd p))" by blast
qed

lemma needs_Cat_right: "needs ws q \<Longrightarrow> needs ws (Cat r q)"
  unfolding needs_def
proof (intro allI impI)
  fix p
  assume q: "\<forall>p. re_ends q p \<noteq> [] \<longrightarrow> (\<exists>w\<in>set ws. sublist (map to_lower w) (map to_lower (snd p)))"
    and "re_ends (Cat r q) p \<noteq> []"
  then obtain x where x: "x \<in> set (re_ends r p)" "re_ends q x \<noteq> []"
    unfolding re_ends_Cat by auto
  from q x(2) obtain w where "w \<in> set ws" "sublist (map to_lower w) (map to_lower (snd x))" by blast
  moreover have "sublist (map to_lower (snd x)) (map to_lower (snd p))"
    using re_ends_suffix [OF x(1)] by (intro suffix_imp_sublist map_mono_suffix)
  ultimately show "\<exists>w\<in>set ws. sublist (map to_lower w) (map to_lower (snd p))"
    by (blast intro: sublist_order.order_trans)
qed

lemma needs_Alt: "needs ws r \<Longrightarrow> needs vs q \<Longrightarrow> needs (ws @ vs) (Alt r q)"
  unfolding needs_def re_ends.simps append_is_Nil_conv set_append by blast

lemma needs_lits: "ws \<noteq> [] \<Longrightarrow> needs ws (re_alt (map re_lit_i ws))"
proof (induction ws rule: induct_list012)
  case (3 w v ws)
  then have "needs ([w] @ (v # ws)) (Alt (re_lit_i w) (re_alt (map re_lit_i (v # ws))))"
    by (intro needs_Alt) auto
  then show ?case by simp
qed auto

lemma needs_search:
  assumes "needs ws r" "search r s"
  shows "\<exists>w\<in>set ws. sublist (map to_lower w) (map to_lower s)"
proof -
  from assms(2) obtain u v where s: "s = u @ v" and "re_ends r (if u = [] then None else Some (last u), v) \<noteq> []"
    by (auto simp: search_iff)
  with assms(1) obtain w where "w \<in> set ws" "sublist (map to_lower w) (map to_lower v)"
    unfolding needs_def by fastforce
  with s show ?thesis by (auto intro: sublist_order.order_trans)
qed

end
