(* ===== verification/Shareable_View.thy ===== *)
theory Shareable_View
  imports Transformations Regex_Words
begin

text \<open>
  The compiler's output type in \<open>src/chorus/privacy/compiler.py\<close>, its canonical form, and the
  recursive scan \<open>_unsafe_output\<close> runs over it: \<open>_UNSAFE_KEY\<close> on every object key and
  \<open>_UNSAFE_VALUE\<close> on every string.
\<close>

section \<open>The scanner\<close>

definition UNSAFE_KEY :: re where
  "UNSAFE_KEY = re_cat
     [Alt AtStart (re_char CHR ''_''),
      re_alt (map re_lit_i [''raw'', ''private'', ''contact'', ''email'', ''unit'', ''apartment'',
        ''health'', ''uri'', ''object_key'', ''mandate_record'']),
      Alt (re_char CHR ''_'') AtEnd]"

definition is_alpha :: "char \<Rightarrow> bool" where
  "is_alpha c \<longleftrightarrow> is_upper c \<or> is_lower c"

definition is_alnum :: "char \<Rightarrow> bool" where
  "is_alnum c \<longleftrightarrow> is_alpha c \<or> is_digit c"

definition email_local :: "char \<Rightarrow> bool" where
  "email_local c \<longleftrightarrow> is_alnum c \<or> c \<in> set ''._%+-''"

definition email_domain :: "char \<Rightarrow> bool" where
  "email_domain c \<longleftrightarrow> is_alnum c \<or> c \<in> set ''.-''"

definition unit_char :: "char \<Rightarrow> bool" where
  "unit_char c \<longleftrightarrow> is_alnum c \<or> c = CHR ''-''"

definition EMAIL :: re where
  "EMAIL = re_cat
     [re_plus (Cls email_local), re_char CHR ''@'', re_plus (Cls email_domain), re_char CHR ''.'',
      Cls is_alpha, re_plus (Cls is_alpha)]"

definition UNIT_LABEL :: re where
  "UNIT_LABEL = re_cat
     [WordBoundary, re_alt (map re_lit_i [''unit'', ''apartment'', ''apt'']), Star (Cls is_space),
      re_opt (re_char CHR ''#''), re_plus (Cls unit_char)]"

definition PERSONAL_WORD :: re where
  "PERSONAL_WORD = re_cat
     [WordBoundary,
      re_alt (map re_lit_i [''mother'', ''father'', ''daughter'', ''son'', ''medical'', ''health''] @
        [Cat (re_lit_i ''diagnos'') (Star (Cls is_word)), re_lit_i ''wheelchair'']),
      WordBoundary]"

definition UNSAFE_VALUE :: re where
  "UNSAFE_VALUE = re_alt
     [HTTP_LOCATOR, re_lit_i ''s3://'', EMAIL, UNIT_LABEL, re_lit_i ''SECRET_SENTINEL'',
      re_lit_i ''mother_health'', PERSONAL_WORD]"

text \<open>Text that contains none of these words is never flagged.\<close>

definition unsafe_words :: "string list" where
  "unsafe_words =
     [''http'', ''s3://'', ''@'', ''unit'', ''apartment'', ''apt'', ''SECRET_SENTINEL'', ''mother_health'',
      ''mother'', ''father'', ''daughter'', ''son'', ''medical'', ''health'', ''diagnos'', ''wheelchair'']"

lemma needs_UNSAFE_VALUE: "needs unsafe_words UNSAFE_VALUE"
proof -
  have "needs [''http''] HTTP_LOCATOR"
    by (simp add: HTTP_LOCATOR_def needs_Cat_left needs_lit_i)
  moreover have "needs [''@''] EMAIL"
    by (simp add: EMAIL_def needs_Cat_right needs_Cat_left needs_char)
  moreover have "needs [''unit'', ''apartment'', ''apt''] UNIT_LABEL"
    unfolding UNIT_LABEL_def re_cat.simps
    by (intro needs_Cat_right [OF needs_Cat_left] needs_lits) simp
  moreover have "needs [''mother'', ''father'', ''daughter'', ''son'', ''medical'', ''health'', ''diagnos'', ''wheelchair''] PERSONAL_WORD"
  proof -
    have "needs ([''mother''] @ [''father''] @ [''daughter''] @ [''son''] @ [''medical''] @ [''health''] @ [''diagnos''] @ [''wheelchair''])
        (Alt (re_lit_i ''mother'') (Alt (re_lit_i ''father'') (Alt (re_lit_i ''daughter'') (Alt (re_lit_i ''son'')
          (Alt (re_lit_i ''medical'') (Alt (re_lit_i ''health'')
            (Alt (Cat (re_lit_i ''diagnos'') (Star (Cls is_word))) (re_lit_i ''wheelchair''))))))))"
      by (intro needs_Alt needs_lit_i needs_Cat_left)
    then show ?thesis
      unfolding PERSONAL_WORD_def by (simp add: needs_Cat_right needs_Cat_left)
  qed
  ultimately have "needs ([''http''] @ [''s3://''] @ [''@''] @ [''unit'', ''apartment'', ''apt''] @ [''SECRET_SENTINEL''] @
      [''mother_health''] @ [''mother'', ''father'', ''daughter'', ''son'', ''medical'', ''health'', ''diagnos'', ''wheelchair''])
      (Alt HTTP_LOCATOR (Alt (re_lit_i ''s3://'') (Alt EMAIL (Alt UNIT_LABEL (Alt (re_lit_i ''SECRET_SENTINEL'')
        (Alt (re_lit_i ''mother_health'') PERSONAL_WORD))))))"
    by (intro needs_Alt needs_lit_i)
  then show ?thesis by (simp add: UNSAFE_VALUE_def unsafe_words_def)
qed

definition plain_text :: "string \<Rightarrow> bool" where
  "plain_text s \<longleftrightarrow> (let t = map to_lower s in \<not> list_ex (\<lambda>w. sublist (map to_lower w) t) unsafe_words)"

lemma plain_text_safe: "plain_text s \<Longrightarrow> \<not> search UNSAFE_VALUE s"
  using needs_search [OF needs_UNSAFE_VALUE] by (auto simp: plain_text_def list_ex_iff)

fun unsafe_walk :: "jval \<Rightarrow> bool"
  and unsafe_items :: "jval list \<Rightarrow> bool"
  and unsafe_members :: "(string \<times> jval) list \<Rightarrow> bool" where
  "unsafe_walk JNull = False"
| "unsafe_walk (JBool b) = False"
| "unsafe_walk (JInt i) = False"
| "unsafe_walk (JStr s) = search UNSAFE_VALUE s"
| "unsafe_walk (JArr xs) = unsafe_items xs"
| "unsafe_walk (JObj ms) = unsafe_members ms"
| "unsafe_items [] = False"
| "unsafe_items (x # xs) = (unsafe_walk x \<or> unsafe_items xs)"
| "unsafe_members [] = False"
| "unsafe_members ((k, x) # ms) = (search UNSAFE_KEY k \<or> unsafe_walk x \<or> unsafe_members ms)"

text \<open>Every string and every key inside a value.\<close>

fun strings_of :: "jval \<Rightarrow> string set"
  and strings_of_items :: "jval list \<Rightarrow> string set"
  and strings_of_members :: "(string \<times> jval) list \<Rightarrow> string set" where
  "strings_of JNull = {}"
| "strings_of (JBool b) = {}"
| "strings_of (JInt i) = {}"
| "strings_of (JStr s) = {s}"
| "strings_of (JArr xs) = strings_of_items xs"
| "strings_of (JObj ms) = strings_of_members ms"
| "strings_of_items [] = {}"
| "strings_of_items (x # xs) = strings_of x \<union> strings_of_items xs"
| "strings_of_members [] = {}"
| "strings_of_members ((k, x) # ms) = strings_of x \<union> strings_of_members ms"

lemma unsafe_walk_strings:
  "s \<in> strings_of v \<Longrightarrow> search UNSAFE_VALUE s \<Longrightarrow> unsafe_walk v"
  "s \<in> strings_of_items vs \<Longrightarrow> search UNSAFE_VALUE s \<Longrightarrow> unsafe_items vs"
  "s \<in> strings_of_members ms \<Longrightarrow> search UNSAFE_VALUE s \<Longrightarrow> unsafe_members ms"
  by (induction v and vs and ms rule: unsafe_walk_unsafe_items_unsafe_members.induct) auto

lemma strings_of_items_iff: "s \<in> strings_of_items vs \<longleftrightarrow> (\<exists>v\<in>set vs. s \<in> strings_of v)"
  by (induction vs) auto

lemma strings_of_members_iff: "s \<in> strings_of_members ms \<longleftrightarrow> (\<exists>k v. (k, v) \<in> set ms \<and> s \<in> strings_of v)"
proof (induction ms)
  case (Cons m ms)
  then show ?case by (cases m) (simp, blast)
qed simp

section \<open>The view\<close>

record mandate_version_ref =
  mvr_mandate_id :: uuid
  mvr_version :: int
  mvr_terms_hash :: digest

definition SHAREABLE_VIEW_SCHEMA_VERSION :: string where
  "SHAREABLE_VIEW_SCHEMA_VERSION = ''shareable-case-view/v2''"

record shareable_case_view =
  view_schema_version :: string
  view_view_id :: view_id
  view_case_id :: uuid
  view_community_public_label :: string
  view_case_version :: int
  view_authorization_version :: int
  view_policy_version :: string
  view_compiler_version :: string
  view_policy_build_hash :: digest
  view_destination :: safe_destination
  view_purpose :: purpose
  view_generated_at :: datetime
  view_expires_at :: datetime
  view_mandate_version_set :: "mandate_version_ref list"
  view_authorization_snapshot_hash :: digest
  view_shareable_facts :: "shareable_fact list"
  view_safe_evidence_refs :: "shareable_evidence_ref list"
  view_audit_refs :: "uuid list"
  view_hash :: digest

definition j_safe_destination :: "safe_destination \<Rightarrow> jval" where
  "j_safe_destination d = JObj
     [(''destination_id'', j_destination_id (sd_destination_id d)),
      (''kind'', JStr (destination_kind_text (sd_kind d))),
      (''registry_version'', JInt (sd_registry_version d)),
      (''routing_token'', j_uuid (sd_routing_token d)),
      (''display_label'', JStr (sd_display_label d))]"

definition j_mandate_version_ref :: "mandate_version_ref \<Rightarrow> jval" where
  "j_mandate_version_ref r = JObj
     [(''mandate_id'', j_uuid (mvr_mandate_id r)), (''version'', JInt (mvr_version r)),
      (''terms_hash'', j_digest (mvr_terms_hash r))]"

text \<open>The members of a view in field order, all but the last (\<open>view_hash\<close>).\<close>

definition j_view_members :: "shareable_case_view \<Rightarrow> (string \<times> jval) list" where
  "j_view_members v =
     [(''schema_version'', JStr (view_schema_version v)),
      (''view_id'', j_ident (view_view_id v)),
      (''case_id'', j_uuid (view_case_id v)),
      (''community_public_label'', JStr (view_community_public_label v)),
      (''case_version'', JInt (view_case_version v)),
      (''authorization_version'', JInt (view_authorization_version v)),
      (''policy_version'', JStr (view_policy_version v)),
      (''compiler_version'', JStr (view_compiler_version v)),
      (''policy_build_hash'', j_digest (view_policy_build_hash v)),
      (''destination'', j_safe_destination (view_destination v)),
      (''purpose'', JStr (purpose_text (view_purpose v))),
      (''generated_at'', j_time (view_generated_at v)),
      (''expires_at'', j_time (view_expires_at v)),
      (''mandate_version_set'', j_list j_mandate_version_ref (view_mandate_version_set v)),
      (''authorization_snapshot_hash'', j_digest (view_authorization_snapshot_hash v)),
      (''shareable_facts'', j_list j_shareable_fact (view_shareable_facts v)),
      (''safe_evidence_refs'', j_list j_shareable_evidence_ref (view_safe_evidence_refs v)),
      (''audit_refs'', j_list j_uuid (view_audit_refs v))]"

definition j_view :: "shareable_case_view \<Rightarrow> jval" where
  "j_view v = JObj (j_view_members v @ [(''view_hash'', j_digest (view_hash v))])"

definition hash_view :: "hasher \<Rightarrow> shareable_case_view \<Rightarrow> digest" where
  "hash_view H v = H (JObj (j_view_members v))"

definition unsafe_output :: "shareable_case_view \<Rightarrow> bool" where
  "unsafe_output v = unsafe_walk (j_view v)"

lemma unsafe_output_safe_text:
  assumes "f \<in> set (view_shareable_facts v)" "search UNSAFE_VALUE (sf_safe_text f)"
  shows "unsafe_output v"
proof -
  have "sf_safe_text f \<in> strings_of (j_shareable_fact f)"
    by (simp add: j_shareable_fact_def j_shareable_fact_members_def)
  then have "sf_safe_text f \<in> strings_of (j_view v)"
    using assms(1) by (auto simp: j_view_def j_view_members_def strings_of_members_iff j_list_def strings_of_items_iff)
  then show ?thesis unfolding unsafe_output_def using assms(2) by (rule unsafe_walk_strings(1))
qed

lemma unsafe_output_caption:
  assumes "r \<in> set (view_safe_evidence_refs v)" "search UNSAFE_VALUE (ser_caption r)"
  shows "unsafe_output v"
proof -
  have "ser_caption r \<in> strings_of (j_shareable_evidence_ref r)"
    by (simp add: j_shareable_evidence_ref_def j_shareable_evidence_ref_members_def)
  then have "ser_caption r \<in> strings_of (j_view v)"
    using assms(1) by (auto simp: j_view_def j_view_members_def strings_of_members_iff j_list_def strings_of_items_iff)
  then show ?thesis unfolding unsafe_output_def using assms(2) by (rule unsafe_walk_strings(1))
qed

end
