(* ===== verification/Compiler.thy ===== *)
theory Compiler
  imports Shareable_View Independence "HOL-Library.Product_Lexorder"
begin

text \<open>
  \<open>PrivacyCompiler.compile\<close> of \<open>src/chorus/privacy/compiler.py\<close>. The local variables of the
  method are the record \<open>compile_state\<close>; each of the 22 numbered blocks is one step on it, and
  \<open>compile_gates\<close> lists the steps in the order of the source. A step ends with the next state, with
  a denial (\<open>return self._deny(...)\<close>) or with an exception that leaves the method. The candidate
  objects the code mutates are identified by their fact identifiers, which gate 1 makes unique.
\<close>

section \<open>Inputs, results and the state\<close>

record compile_context =
  ctx_case :: community_case
  ctx_community_public_label :: string
  ctx_facts :: "fact list"
  ctx_reports :: "report list"
  ctx_evidence_items :: "evidence_item list"
  ctx_evidence_roots :: "evidence_root list"
  ctx_mandates :: "disclosure_mandate list"
  ctx_mandate_pointers :: "current_mandate_pointer list"
  ctx_destination_registry_entry :: safe_destination
  ctx_safe_evidence_candidates :: "safe_evidence_candidate list"

definition compile_context_post_init :: "compile_context \<Rightarrow> unit result" where
  "compile_context_post_init c = checks
     [bounded (ctx_community_public_label c) 1 120 ''community public label'']"

record compile_allow =
  allow_compile_id :: uuid
  allow_view :: shareable_case_view
  allow_included :: "included_fact list"
  allow_excluded :: "excluded_fact list"
  allow_audit_event_id :: uuid
  allow_audit_decisions :: "audit_decision list"

record compile_deny =
  deny_compile_id :: uuid
  deny_case_id :: "uuid option"
  deny_current_case_version :: "int option"
  deny_reasons :: "compile_reason list"
  deny_audit_event_id :: uuid
  deny_audit_decisions :: "audit_decision list"

datatype stop = Denied compile_deny | Raised error

record candidate =
  cand_request :: requested_fact
  cand_fact :: fact
  cand_pointer :: "current_mandate_pointer option"
  cand_mandate :: "disclosure_mandate option"
  cand_grant :: "fact_grant option"
  cand_excluded_reasons :: "compile_reason_code list"
  cand_export_ids :: "uuid list"

definition eligible :: "candidate \<Rightarrow> bool" where
  "eligible c \<longleftrightarrow> cand_excluded_reasons c = []"

abbreviation cand_id :: "candidate \<Rightarrow> fact_id" where
  "cand_id c \<equiv> fact_id (cand_fact c)"

text \<open>
  What one call reads: the hash function, the identifier generator made for the compile, the
  arguments, and the audit identifier minted first.
\<close>

record compile_env =
  env_hash :: hasher
  env_ids :: id_source
  env_command :: compile_command
  env_context :: compile_context
  env_audit_id :: uuid

record compile_state =
  st_audit :: "audit_decision list"
  st_candidates :: "candidate list"
  st_aggregate_groups :: "(fact_type \<times> fact_id list) list"
  st_view :: "shareable_case_view option"

type_synonym step = "compile_state \<Rightarrow> stop + compile_state"

definition POLICY_BUILD_RULES :: "string list" where
  "POLICY_BUILD_RULES =
     [''p1.incident.anonymous.v1'', ''p1.impact.aggregate.v1'', ''p1.impact.anonymous.v1'',
      ''p1.contradiction.safe.v1'', ''p1.evidence.photo.v1'', ''p1.identity.named.v1'']"

definition POLICY_BUILD_HASH :: "hasher \<Rightarrow> digest" where
  "POLICY_BUILD_HASH H = H (JObj
     [(''policy_version'', JStr POLICY_VERSION), (''compiler_version'', JStr COMPILER_VERSION),
      (''rules'', j_list JStr POLICY_BUILD_RULES)])"

section \<open>Audit entries, denials and exclusions\<close>

definition passed :: "compiler_gate \<Rightarrow> compile_state \<Rightarrow> compile_state" where
  "passed g st = st\<lparr>st_audit := st_audit st @
     [\<lparr>audit_gate = g, audit_outcome = GO_PASSED, audit_reason_codes = []\<rparr>]\<rparr>"

definition gate_complete :: "compiler_gate \<Rightarrow> compile_reason_code list \<Rightarrow> compile_state \<Rightarrow> compile_state" where
  "gate_complete g reasons st = st\<lparr>st_audit := st_audit st @
     [\<lparr>audit_gate = g, audit_outcome = (if reasons \<noteq> [] then GO_EXCLUDED else GO_PASSED),
       audit_reason_codes = sort_key reason_text (remdups reasons)\<rparr>]\<rparr>"

definition deny ::
    "compile_env \<Rightarrow> compile_state \<Rightarrow> compiler_gate \<Rightarrow> compile_reason_code \<Rightarrow> string option \<Rightarrow> bool \<Rightarrow> compile_deny" where
  "deny e st g reason subject expose_case =
     \<lparr>deny_compile_id = cmd_compile_id (env_command e),
      deny_case_id = (if expose_case then Some (uuid_of (case_case_id (ctx_case (env_context e)))) else None),
      deny_current_case_version = (if expose_case then Some (case_version (ctx_case (env_context e))) else None),
      deny_reasons = [\<lparr>reason_code = reason, reason_subject_ref = subject, reason_retryable = False\<rparr>],
      deny_audit_event_id = env_audit_id e,
      deny_audit_decisions = st_audit st @
        [\<lparr>audit_gate = g, audit_outcome = GO_DENIED, audit_reason_codes = [reason]\<rparr>]\<rparr>"

text \<open>Most denials: the case is exposed.\<close>

definition refuse ::
    "compile_env \<Rightarrow> compile_state \<Rightarrow> compiler_gate \<Rightarrow> compile_reason_code \<Rightarrow> string option \<Rightarrow> stop + 'a" where
  "refuse e st g reason subject = Inl (Denied (deny e st g reason subject True))"

definition exclude :: "compile_reason_code \<Rightarrow> candidate \<Rightarrow> candidate" where
  "exclude r c = c\<lparr>cand_excluded_reasons := cand_excluded_reasons c @ [r]\<rparr>"

definition required :: "candidate \<Rightarrow> bool" where
  "required c \<longleftrightarrow> rf_necessity (cand_request c) = NC_REQUIRED"

text \<open>
  The loop of \<open>_apply_item_gate\<close>: \<open>Inl\<close> the first REQUIRED candidate with a reason, or the
  candidates with the failing OPTIONAL ones excluded and the reasons in order.
\<close>

fun item_loop ::
    "(candidate \<Rightarrow> compile_reason_code option) \<Rightarrow> candidate list \<Rightarrow>
     (candidate \<times> compile_reason_code) + (candidate list \<times> compile_reason_code list)" where
  "item_loop ev [] = Inr ([], [])"
| "item_loop ev (c # cs) =
     (case (if eligible c then ev c else None) of
        None \<Rightarrow> bindE (item_loop ev cs) (\<lambda>(cs', rs). Inr (c # cs', rs))
      | Some r \<Rightarrow>
          if required c then Inl (c, r)
          else bindE (item_loop ev cs) (\<lambda>(cs', rs). Inr (exclude r c # cs', r # rs)))"

definition apply_item_gate ::
    "compile_env \<Rightarrow> compiler_gate \<Rightarrow> (candidate \<Rightarrow> compile_reason_code option) \<Rightarrow> step" where
  "apply_item_gate e g ev st =
     (case item_loop ev (st_candidates st) of
        Inl (c, r) \<Rightarrow> refuse e st g r (Some (ident_str (cand_id c)))
      | Inr (cs, rs) \<Rightarrow> Inr (gate_complete g rs (st\<lparr>st_candidates := cs\<rparr>)))"

text \<open>
  \<open>for candidate in group: self._ineligible(candidate, reason, ...)\<close> over a group given by its
  fact identifiers.
\<close>

fun exclude_group ::
    "compile_reason_code \<Rightarrow> fact_id list \<Rightarrow> candidate list \<Rightarrow> candidate + candidate list" where
  "exclude_group r [] cs = Inr cs"
| "exclude_group r (i # is) cs =
     (case List.find (\<lambda>c. cand_id c = i \<and> required c) cs of
        Some c \<Rightarrow> Inl c
      | None \<Rightarrow> exclude_group r is (map (\<lambda>c. if cand_id c = i then exclude r c else c) cs))"

section \<open>Gates 1 to 6: structure\<close>

definition request_schema :: "compile_env \<Rightarrow> step" where
  "request_schema e st =
     (case validate_compile_command_shape (env_command e) of
        Inl _ \<Rightarrow> refuse e st REQUEST_SCHEMA CR_INVALID_REQUEST None
      | Inr _ \<Rightarrow> Inr (passed REQUEST_SCHEMA st))"

definition namespace_community :: "compile_env \<Rightarrow> step" where
  "namespace_community e st =
     (if cmd_namespace (env_command e) \<noteq> case_namespace (ctx_case (env_context e))
      then Inl (Denied (deny e st NAMESPACE_COMMUNITY CR_CASE_NOT_FOUND_OR_FORBIDDEN None False))
      else Inr (passed NAMESPACE_COMMUNITY st))"

definition case_identity_version :: "compile_env \<Rightarrow> step" where
  "case_identity_version e st =
     (let cmd = env_command e; k = ctx_case (env_context e) in
      if cmd_case_id cmd \<noteq> case_case_id k \<or> cmd_expected_case_version cmd \<noteq> case_version k
         \<or> case_current_state k \<in> {RESOLVED, CLOSED_UNRESOLVED}
      then refuse e st CASE_IDENTITY_VERSION CR_STALE_CASE_VERSION None
      else Inr (passed CASE_IDENTITY_VERSION st))"

definition in_case :: "community_case \<Rightarrow> case_id \<Rightarrow> community_id \<Rightarrow> namespace \<Rightarrow> bool" where
  "in_case k cid com ns \<longleftrightarrow> cid = case_case_id k \<and> com = case_community_id k \<and> ns = case_namespace k"

definition foreign_fact :: "compile_context \<Rightarrow> requested_fact \<Rightarrow> bool" where
  "foreign_fact ctx r \<longleftrightarrow>
     list_ex (\<lambda>f. fact_id f = rf_fact_id r \<and>
       \<not> in_case (ctx_case ctx) (fact_case_id f) (fact_community_id f) (fact_namespace f)) (ctx_facts ctx)"

definition foreign_evidence :: "compile_context \<Rightarrow> evidence_item_id \<Rightarrow> bool" where
  "foreign_evidence ctx i \<longleftrightarrow>
     list_ex (\<lambda>x. item_id x = i \<and>
       \<not> in_case (ctx_case ctx) (item_case_id x) (item_community_id x) (item_namespace x)) (ctx_evidence_items ctx)"

definition cross_case_references :: "compile_env \<Rightarrow> step" where
  "cross_case_references e st =
     (case List.find (foreign_fact (env_context e)) (cmd_requested_facts (env_command e)) of
        Some r \<Rightarrow> refuse e st CROSS_CASE_REFERENCES CR_CROSS_CASE_REFERENCE (Some (ident_str (rf_fact_id r)))
      | None \<Rightarrow>
          (case List.find (foreign_evidence (env_context e)) (cmd_requested_evidence_ids (env_command e)) of
             Some i \<Rightarrow> refuse e st CROSS_CASE_REFERENCES CR_CROSS_CASE_REFERENCE (Some (ident_str i))
           | None \<Rightarrow> Inr (passed CROSS_CASE_REFERENCES st)))"

definition existence :: "compile_env \<Rightarrow> step" where
  "existence e st =
     (let ctx = env_context e in
      case List.find (\<lambda>r. rf_fact_id r \<notin> fact_id ` set (ctx_facts ctx)) (cmd_requested_facts (env_command e)) of
        Some r \<Rightarrow> refuse e st EXISTENCE CR_FACT_NOT_FOUND (Some (ident_str (rf_fact_id r)))
      | None \<Rightarrow>
          (case List.find (\<lambda>i. i \<notin> item_id ` set (ctx_evidence_items ctx)) (cmd_requested_evidence_ids (env_command e)) of
             Some i \<Rightarrow> refuse e st EXISTENCE CR_EVIDENCE_NOT_FOUND (Some (ident_str i))
           | None \<Rightarrow> Inr (passed EXISTENCE st)))"

definition new_candidate :: "requested_fact \<Rightarrow> fact \<Rightarrow> candidate" where
  "new_candidate r f =
     \<lparr>cand_request = r, cand_fact = f, cand_pointer = None, cand_mandate = None, cand_grant = None,
      cand_excluded_reasons = [], cand_export_ids = []\<rparr>"

text \<open>\<open>facts_by_id[requested.fact_id]\<close> raises \<open>KeyError\<close> on a missing key.\<close>

definition make_candidates :: "compile_command \<Rightarrow> compile_context \<Rightarrow> candidate list result" where
  "make_candidates cmd ctx = map_result
     (\<lambda>r. case index_by fact_id (ctx_facts ctx) (rf_fact_id r) of
            None \<Rightarrow> Inl (KeyError (ident_str (rf_fact_id r)))
          | Some f \<Rightarrow> Inr (new_candidate r f))
     (sort_key rf_fact_id (cmd_requested_facts cmd))"

definition fact_lineage_ok :: "compile_context \<Rightarrow> fact \<Rightarrow> bool" where
  "fact_lineage_ok ctx f \<longleftrightarrow>
     fact_id f \<in> set (case_fact_ids (ctx_case ctx)) \<and> fact_report_id f \<in> set (case_report_ids (ctx_case ctx)) \<and>
     (case index_by report_id (ctx_reports ctx) (fact_report_id f) of
        None \<Rightarrow> False
      | Some r \<Rightarrow>
          report_case_id r = Some (fact_case_id f) \<and> report_community_id r = fact_community_id f \<and>
          report_contributor_id r = fact_contributor_id f \<and> report_namespace r = fact_namespace f \<and>
          set (fact_source_message_ids f) \<subseteq> set (report_source_message_ids r))"

definition evidence_lineage_ok :: "compile_context \<Rightarrow> candidate list \<Rightarrow> evidence_item_id \<Rightarrow> bool" where
  "evidence_lineage_ok ctx cs i \<longleftrightarrow>
     (case index_by item_id (ctx_evidence_items ctx) i of
        None \<Rightarrow> False
      | Some x \<Rightarrow>
          \<not> isl (collapse_evidence_root (item_root_id x) (ctx_evidence_roots ctx)) \<and>
          (case index_by root_id (ctx_evidence_roots ctx) (item_root_id x) of
             None \<Rightarrow> False
           | Some root \<Rightarrow>
               root_community_id root = case_community_id (ctx_case ctx) \<and>
               root_namespace root = case_namespace (ctx_case ctx) \<and>
               item_submitted_by x \<in>
                 (\<lambda>c. Some (fact_contributor_id (cand_fact c))) ` {c \<in> set cs. i \<in> set (fact_evidence_ids (cand_fact c))}))"

definition unique_context :: "compile_context \<Rightarrow> bool" where
  "unique_context ctx \<longleftrightarrow>
     distinct (map fact_id (ctx_facts ctx)) \<and> distinct (map report_id (ctx_reports ctx)) \<and>
     distinct (map item_id (ctx_evidence_items ctx)) \<and> distinct (map root_id (ctx_evidence_roots ctx)) \<and>
     distinct (map (\<lambda>r. (root_community_id r, root_sha256 r)) (ctx_evidence_roots ctx))"

definition ownership :: "compile_env \<Rightarrow> step" where
  "ownership e st =
     (let cmd = env_command e; ctx = env_context e in
      if \<not> unique_context ctx then refuse e st OWNERSHIP CR_OWNERSHIP_INTEGRITY_ERROR None
      else case make_candidates cmd ctx of
        Inl err \<Rightarrow> Inl (Raised err)
      | Inr cs \<Rightarrow>
          if \<exists>i\<in>set (cmd_requested_evidence_ids cmd). \<forall>c\<in>set cs. i \<notin> set (fact_evidence_ids (cand_fact c))
          then refuse e st OWNERSHIP CR_OWNERSHIP_INTEGRITY_ERROR None
          else case List.find (\<lambda>c. \<not> fact_lineage_ok ctx (cand_fact c)) cs of
            Some c \<Rightarrow> refuse e st OWNERSHIP CR_OWNERSHIP_INTEGRITY_ERROR (Some (ident_str (cand_id c)))
          | None \<Rightarrow>
              (case List.find (\<lambda>i. \<not> evidence_lineage_ok ctx cs i) (cmd_requested_evidence_ids cmd) of
                 Some i \<Rightarrow> refuse e st OWNERSHIP CR_OWNERSHIP_INTEGRITY_ERROR (Some (ident_str i))
               | None \<Rightarrow> Inr (passed OWNERSHIP (st\<lparr>st_candidates := cs\<rparr>))))"

section \<open>Gates 7 and 8: mandates\<close>

definition current_mandate_selection :: "compile_env \<Rightarrow> step" where
  "current_mandate_selection e st =
     (let pointers = ctx_mandate_pointers (env_context e) in
      if \<not> distinct (map pointer_contributor_id pointers)
         \<or> \<not> distinct (map (\<lambda>p. (pointer_mandate_id p, pointer_version p)) pointers)
      then refuse e st CURRENT_MANDATE_SELECTION CR_MANDATE_INTEGRITY_ERROR None
      else
        let select = (\<lambda>c. c\<lparr>cand_pointer :=
              index_by pointer_contributor_id pointers (fact_contributor_id (cand_fact c))\<rparr>)
        in apply_item_gate e CURRENT_MANDATE_SELECTION
             (\<lambda>c. if cand_pointer c = None then Some CR_MANDATE_NOT_FOUND else None)
             (st\<lparr>st_candidates := map select (st_candidates st)\<rparr>))"

definition mandate_key :: "disclosure_mandate \<Rightarrow> mandate_id \<times> int" where
  "mandate_key m = (mandate_id m, mandate_version m)"

definition mandate_integrity :: "hasher \<Rightarrow> fact \<Rightarrow> current_mandate_pointer \<Rightarrow> disclosure_mandate \<Rightarrow> bool" where
  "mandate_integrity H f p m \<longleftrightarrow>
     pointer_case_id p = fact_case_id f \<and> pointer_contributor_id p = fact_contributor_id f \<and>
     pointer_terms_hash p = mandate_terms_hash m \<and> pointer_version p = mandate_version m \<and>
     mandate_case_id m = fact_case_id f \<and> mandate_community_id m = fact_community_id f \<and>
     mandate_contributor_id m = fact_contributor_id f \<and> mandate_namespace m = fact_namespace f \<and>
     hash_mandate_terms H m = mandate_terms_hash m"

text \<open>The body of the loop over the eligible candidates; \<open>None\<close> where it denies.\<close>

definition bind_mandate :: "hasher \<Rightarrow> disclosure_mandate list \<Rightarrow> candidate \<Rightarrow> candidate option" where
  "bind_mandate H mandates c =
     (case cand_pointer c of
        None \<Rightarrow> None
      | Some p \<Rightarrow>
          (case index_by mandate_key mandates (pointer_mandate_id p, pointer_version p) of
             None \<Rightarrow> None
           | Some m \<Rightarrow>
               if \<not> mandate_integrity H (cand_fact c) p m then None
               else Some (c\<lparr>cand_mandate := Some m,
                 cand_grant := List.find (\<lambda>g. grant_fact_id g = cand_id c) (mandate_fact_grants m)\<rparr>)))"

definition mandate_version_integrity :: "compile_env \<Rightarrow> step" where
  "mandate_version_integrity e st =
     (let mandates = ctx_mandates (env_context e); bind = bind_mandate (env_hash e) mandates in
      if \<not> distinct (map mandate_key mandates)
      then refuse e st MANDATE_VERSION_INTEGRITY CR_MANDATE_INTEGRITY_ERROR None
      else case List.find (\<lambda>c. eligible c \<and> bind c = None) (st_candidates st) of
        Some c \<Rightarrow> refuse e st MANDATE_VERSION_INTEGRITY CR_MANDATE_INTEGRITY_ERROR (Some (ident_str (cand_id c)))
      | None \<Rightarrow>
          Inr (passed MANDATE_VERSION_INTEGRITY (st\<lparr>st_candidates :=
            map (\<lambda>c. if eligible c then the (bind c) else c) (st_candidates st)\<rparr>)))"

section \<open>Gates 9 to 15: the item evaluators\<close>

definition approval_reason :: "candidate \<Rightarrow> compile_reason_code option" where
  "approval_reason c =
     (case cand_mandate c of
        None \<Rightarrow> Some CR_MANDATE_NOT_APPROVED
      | Some m \<Rightarrow>
          if mandate_status m \<in> {MS_APPROVED, MS_REVOKED, MS_EXPIRED}
             \<and> mandate_decision_actor_id m = Some (mandate_contributor_id m)
          then None else Some CR_MANDATE_NOT_APPROVED)"

definition revocation_reason :: "datetime \<Rightarrow> candidate \<Rightarrow> compile_reason_code option" where
  "revocation_reason now c =
     (case cand_mandate c of
        None \<Rightarrow> None
      | Some m \<Rightarrow>
          if mandate_status m = MS_REVOKED \<or> opt_test (\<lambda>r. instant r \<le> instant now) (mandate_revoked_at m)
          then Some CR_MANDATE_REVOKED else None)"

definition expiration_reason :: "datetime \<Rightarrow> candidate \<Rightarrow> compile_reason_code option" where
  "expiration_reason now c =
     (case cand_mandate c of
        None \<Rightarrow> Some CR_MANDATE_EXPIRED
      | Some m \<Rightarrow>
          if mandate_status m = MS_EXPIRED \<or> instant now < instant (mandate_valid_from m)
             \<or> opt_test (\<lambda>x. instant now \<ge> instant x) (mandate_expires_at m)
          then Some CR_MANDATE_EXPIRED else None)"

definition destination_reason ::
    "safe_destination \<Rightarrow> safe_destination \<Rightarrow> candidate \<Rightarrow> compile_reason_code option" where
  "destination_reason dest registered c =
     (case cand_mandate c of
        None \<Rightarrow> Some CR_DESTINATION_NOT_ALLOWED
      | Some m \<Rightarrow>
          if dest \<noteq> registered \<or> sd_destination_id dest \<notin> set (mandate_allowed_destination_ids m)
          then Some CR_DESTINATION_NOT_ALLOWED else None)"

definition purpose_reason :: "purpose \<Rightarrow> candidate \<Rightarrow> compile_reason_code option" where
  "purpose_reason p c =
     (case cand_mandate c of
        None \<Rightarrow> Some CR_PURPOSE_NOT_ALLOWED
      | Some m \<Rightarrow> if p \<notin> set (mandate_allowed_purposes m) then Some CR_PURPOSE_NOT_ALLOWED else None)"

definition HARD_INTERNAL_TYPES :: "fact_type set" where
  "HARD_INTERNAL_TYPES = {UNIT_LOCATION, HEALTH_DETAIL}"

definition MINIMUM_NECESSARY_TYPES :: "fact_type set" where
  "MINIMUM_NECESSARY_TYPES =
     {INCIDENT_OCCURRENCE, SERVICE_IMPACT, LOCATION_AREA, IDENTITY_ATTRIBUTE, CONTRADICTION, EVIDENCE_DESCRIPTION}"

definition hard_internal :: "fact \<Rightarrow> bool" where
  "hard_internal f \<longleftrightarrow> fact_type f \<in> HARD_INTERNAL_TYPES \<or> fact_sensitivity f \<in> HARD_INTERNAL_SENSITIVITIES"

definition scope_reason :: "candidate \<Rightarrow> compile_reason_code option" where
  "scope_reason c =
     (let f = cand_fact c; usage = rf_intended_usage (cand_request c) in
      if fact_status f \<noteq> FS_ACTIVE then Some CR_INTERNAL_ONLY
      else if hard_internal f then Some CR_INTERNAL_ONLY
      else case cand_grant c of
        None \<Rightarrow> Some CR_INTERNAL_ONLY
      | Some g \<Rightarrow>
          if grant_max_scope g = INTERNAL_ONLY then Some CR_INTERNAL_ONLY
          else if \<not> grant_allow_safe_transformation g then Some CR_SCOPE_NOT_ALLOWED
          else if grant_max_scope g = AGGREGATE_ONLY
          then (if usage = US_AGGREGATION_INPUT then None else Some CR_SCOPE_NOT_ALLOWED)
          else if usage = US_AGGREGATION_INPUT then Some CR_SCOPE_NOT_ALLOWED
          else if usage = US_EVIDENCE \<and> grant_max_scope g \<noteq> EXTERNAL_ACTION then Some CR_SCOPE_NOT_ALLOWED
          else None)"

definition identity_reason :: "candidate \<Rightarrow> compile_reason_code option" where
  "identity_reason c =
     (if fact_type (cand_fact c) \<noteq> IDENTITY_ATTRIBUTE then None
      else case (cand_mandate c, cand_grant c) of
        (Some m, Some g) \<Rightarrow>
          let ident = mandate_identity_grant m in
          if grant_max_scope g \<notin> {NAMED_CASE, EXTERNAL_ACTION} then Some CR_IDENTITY_NOT_ALLOWED
          else if \<not> identity_externally_shareable ident
                  \<or> identity_max_scope ident \<notin> {NAMED_CASE, EXTERNAL_ACTION}
          then Some CR_IDENTITY_NOT_ALLOWED
          else if grant_max_scope g = EXTERNAL_ACTION \<and> identity_max_scope ident \<noteq> EXTERNAL_ACTION
          then Some CR_IDENTITY_NOT_ALLOWED
          else None
      | _ \<Rightarrow> Some CR_IDENTITY_NOT_ALLOWED)"

section \<open>Gates 16 to 19\<close>

definition is_aggregate :: "candidate \<Rightarrow> bool" where
  "is_aggregate c \<longleftrightarrow> (case cand_grant c of None \<Rightarrow> False | Some g \<Rightarrow> grant_max_scope g = AGGREGATE_ONLY)"

definition group_contributors :: "candidate list \<Rightarrow> fact_id list \<Rightarrow> nat" where
  "group_contributors cs is =
     card ((\<lambda>c. fact_contributor_id (cand_fact c)) ` {c \<in> set cs. cand_id c \<in> set is})"

definition aggregation_threshold :: "compile_env \<Rightarrow> step" where
  "aggregation_threshold e st =
     (let cs = st_candidates st;
          groups = group_all (\<lambda>c. fact_type (cand_fact c)) cand_id (filter (\<lambda>c. eligible c \<and> is_aggregate c) cs);
          small = concat (map snd (filter (\<lambda>(_, is). group_contributors cs is < AGGREGATE_PRIVACY_MIN) groups))
      in case exclude_group CR_AGGREGATE_PRIVACY_MIN_NOT_MET small cs of
           Inl c \<Rightarrow> refuse e st AGGREGATION_THRESHOLD CR_AGGREGATE_PRIVACY_MIN_NOT_MET (Some (ident_str (cand_id c)))
         | Inr cs' \<Rightarrow>
             Inr (gate_complete AGGREGATION_THRESHOLD
               (map (\<lambda>_. CR_AGGREGATE_PRIVACY_MIN_NOT_MET) small)
               (st\<lparr>st_candidates := cs', st_aggregate_groups := groups\<rparr>)))"

definition active_case_facts :: "compile_context \<Rightarrow> fact list" where
  "active_case_facts ctx = filter (\<lambda>f.
     in_case (ctx_case ctx) (fact_case_id f) (fact_community_id f) (fact_namespace f)
     \<and> fact_status f = FS_ACTIVE) (ctx_facts ctx)"

definition independence :: "compile_env \<Rightarrow> step" where
  "independence e st =
     (let ctx = env_context e in
      case independent_source_count (active_case_facts ctx) (ctx_reports ctx)
             (ctx_evidence_items ctx) (ctx_evidence_roots ctx) of
        Inl (ValueError _) \<Rightarrow> refuse e st INDEPENDENCE CR_OWNERSHIP_INTEGRITY_ERROR None
      | Inl err \<Rightarrow> Inl (Raised err)
      | Inr n \<Rightarrow>
          if min (int n) (case_corroboration_count (ctx_case ctx)) < int CORROBORATION_MIN
          then refuse e st INDEPENDENCE CR_CORROBORATION_MIN_NOT_MET None
          else Inr (passed INDEPENDENCE st))"

definition is_location :: "fact_value \<Rightarrow> bool" where
  "is_location v = (case v of LocationArea _ \<Rightarrow> True | _ \<Rightarrow> False)"

definition reidentification_reason :: "candidate \<Rightarrow> compile_reason_code option" where
  "reidentification_reason c =
     (let f = cand_fact c in
      if hard_internal f \<or> fact_type f = MANAGEMENT_STATEMENT
         \<or> fact_type f = INCIDENT_OCCURRENCE \<and> \<not> is_incident (fact_value f)
         \<or> fact_type f = LOCATION_AREA \<and> \<not> is_location (fact_value f)
         \<or> fact_type f = SERVICE_IMPACT \<and> \<not> is_impact (fact_value f)
      then Some CR_REIDENTIFICATION_RISK else None)"

definition aggregate_category_bucket_count :: "fact_type \<Rightarrow> candidate list \<Rightarrow> nat" where
  "aggregate_category_bucket_count t members =
     (let values = map (\<lambda>c. fact_value (cand_fact c)) members in
      if t \<noteq> SERVICE_IMPACT \<or> \<not> list_all is_impact values then 0
      else card (impact_code_of ` set values))"

text \<open>The second loop of the gate, over the aggregate groups by the text of their type.\<close>

fun bucket_loop ::
    "(fact_type \<times> fact_id list) list \<Rightarrow> candidate list \<Rightarrow> compile_reason_code list \<Rightarrow>
     candidate + (candidate list \<times> compile_reason_code list)" where
  "bucket_loop [] cs rs = Inr (cs, rs)"
| "bucket_loop ((t, is) # gs) cs rs =
     (let members = filter (\<lambda>c. cand_id c \<in> set is \<and> eligible c) cs in
      if members = [] \<or> aggregate_category_bucket_count t members > 1 then bucket_loop gs cs rs
      else bindE (exclude_group CR_REIDENTIFICATION_RISK (map cand_id members) cs)
             (\<lambda>cs'. bucket_loop gs cs' (rs @ map (\<lambda>_. CR_REIDENTIFICATION_RISK) members)))"

definition reidentification :: "compile_env \<Rightarrow> step" where
  "reidentification e st =
     (case item_loop reidentification_reason (st_candidates st) of
        Inl (c, r) \<Rightarrow> refuse e st REIDENTIFICATION CR_REIDENTIFICATION_RISK (Some (ident_str (cand_id c)))
      | Inr (cs, rs) \<Rightarrow>
          (case bucket_loop (sort_key (\<lambda>g. fact_type_text (fst g)) (st_aggregate_groups st)) cs rs of
             Inl c \<Rightarrow> refuse e st REIDENTIFICATION CR_REIDENTIFICATION_RISK (Some (ident_str (cand_id c)))
           | Inr (cs', rs') \<Rightarrow> Inr (gate_complete REIDENTIFICATION rs' (st\<lparr>st_candidates := cs'\<rparr>))))"

text \<open>The evidence requested for one fact, in text order.\<close>

definition requested_evidence :: "compile_command \<Rightarrow> fact \<Rightarrow> evidence_item_id list" where
  "requested_evidence cmd f =
     sort (remdups (filter (\<lambda>i. i \<in> set (fact_evidence_ids f)) (cmd_requested_evidence_ids cmd)))"

definition minimum_necessity_reason :: "compile_command \<Rightarrow> candidate \<Rightarrow> compile_reason_code option" where
  "minimum_necessity_reason cmd c =
     (let f = cand_fact c in
      if fact_type f \<notin> MINIMUM_NECESSARY_TYPES then Some CR_NOT_MINIMUM_NECESSARY
      else if fact_type f = EVIDENCE_DESCRIPTION
              \<and> (rf_intended_usage (cand_request c) \<noteq> US_EVIDENCE \<or> requested_evidence cmd f = [])
      then Some CR_NOT_MINIMUM_NECESSARY else None)"

section \<open>Gate 20: evidence safety\<close>

definition evidence_is_safe ::
    "compile_context \<Rightarrow> candidate \<Rightarrow> evidence_item_id \<Rightarrow> bool" where
  "evidence_is_safe ctx c i \<longleftrightarrow>
     (case (cand_grant c, index_by item_id (ctx_evidence_items ctx) i,
            index_by se_source_evidence_id (ctx_safe_evidence_candidates ctx) i) of
        (Some g, Some x, Some s) \<Rightarrow>
          grant_max_scope g = EXTERNAL_ACTION \<and> item_malware_scan_status x = MW_CLEAN
          \<and> item_media_type x \<in> {''image/jpeg'', ''image/png''} \<and> item_byte_length x \<le> 10000000
          \<and> item_extraction_status x = XT_NOT_NEEDED \<and> item_extracted_text x = None
          \<and> se_human_reviewed s
      | _ \<Rightarrow> False)"

definition evidence_unsafe :: "compile_command \<Rightarrow> compile_context \<Rightarrow> candidate \<Rightarrow> bool" where
  "evidence_unsafe cmd ctx c \<longleftrightarrow>
     (let f = cand_fact c; req = requested_evidence cmd f in
      rf_intended_usage (cand_request c) = US_EVIDENCE \<and> req = []
      \<or> fact_type f = EVIDENCE_DESCRIPTION \<and> length req \<noteq> 1
      \<or> list_ex (\<lambda>i. \<not> evidence_is_safe ctx c i) req)"

text \<open>\<open>_evidence_safety_reason\<close> returns the first failing candidate only, and one is excluded.\<close>

definition evidence_safety :: "compile_env \<Rightarrow> step" where
  "evidence_safety e st =
     (let cmd = env_command e; ctx = env_context e; safe = ctx_safe_evidence_candidates ctx in
      if \<not> distinct (map se_source_evidence_id safe) \<or> \<not> distinct (map se_export_handle_id safe)
      then refuse e st EVIDENCE_SAFETY CR_UNSAFE_EVIDENCE None
      else case List.find (\<lambda>c. eligible c \<and> evidence_unsafe cmd ctx c) (st_candidates st) of
        None \<Rightarrow> Inr (passed EVIDENCE_SAFETY st)
      | Some c \<Rightarrow>
          (case exclude_group CR_UNSAFE_EVIDENCE [cand_id c] (st_candidates st) of
             Inl c' \<Rightarrow> refuse e st EVIDENCE_SAFETY CR_UNSAFE_EVIDENCE (Some (ident_str (cand_id c')))
           | Inr cs \<Rightarrow> Inr (gate_complete EVIDENCE_SAFETY [CR_UNSAFE_EVIDENCE] (st\<lparr>st_candidates := cs\<rparr>))))"

end
