(* ===== verification/Compiler_Output.thy ===== *)
theory Compiler_Output
  imports Compiler
begin

text \<open>
  The last two gates of \<open>PrivacyCompiler.compile\<close>: \<open>_transform\<close>, the authorization snapshot, the
  view, the scan and the result; and the composition \<open>compile\<close> of all gates. The identifier
  generator is a counter-based source: \<open>ts_next\<close> counts the identifiers minted so far, the audit
  identifier being the first.
\<close>

section \<open>Gate 21: transformation\<close>

record transform_state =
  ts_facts :: "shareable_fact list"
  ts_refs :: "shareable_evidence_ref list"
  ts_by_source :: "evidence_item_id \<rightharpoonup> shareable_evidence_ref"
  ts_grouped :: "fact_id list"
  ts_next :: nat
  ts_exports :: "(fact_id \<times> uuid) list"

definition transform_start :: transform_state where
  "transform_start = \<lparr>ts_facts = [], ts_refs = [], ts_by_source = Map.empty, ts_grouped = [],
     ts_next = 1, ts_exports = []\<rparr>"

fun foldE :: "('a \<Rightarrow> 's \<Rightarrow> 'e + 's) \<Rightarrow> 'a list \<Rightarrow> 's \<Rightarrow> 'e + 's" where
  "foldE f [] s = Inr s"
| "foldE f (x # xs) s = bindE (f x s) (foldE f xs)"

definition export_id :: "compile_env \<Rightarrow> transform_state \<Rightarrow> uuid" where
  "export_id e ts = env_ids e MintExportFact (ts_next ts)"

definition add_output :: "uuid \<Rightarrow> candidate list \<Rightarrow> shareable_fact \<Rightarrow> transform_state \<Rightarrow> transform_state" where
  "add_output eid members out ts = ts
     \<lparr>ts_facts := ts_facts ts @ [out], ts_next := ts_next ts + 1,
      ts_exports := ts_exports ts @ map (\<lambda>c. (cand_id c, eid)) members\<rparr>"

definition add_group ::
    "compile_env \<Rightarrow> disclosure_scope \<Rightarrow> candidate list \<Rightarrow> transform_state \<Rightarrow> transform_state result" where
  "add_group e scope members ts =
     (let eid = export_id e ts in
      bindE (transform_facts (env_hash e) (Ident eid) (map cand_fact members) scope) (\<lambda>out.
        Inr ((add_output eid members out ts)\<lparr>ts_grouped := ts_grouped ts @ map cand_id members\<rparr>)))"

text \<open>The safe reference of a source, built on its first use.\<close>

definition safe_ref_for ::
    "compile_env \<Rightarrow> evidence_item_id \<Rightarrow> transform_state \<Rightarrow> (shareable_evidence_ref \<times> transform_state) result" where
  "safe_ref_for e i ts =
     (case index_by se_source_evidence_id (ctx_safe_evidence_candidates (env_context e)) i of
        None \<Rightarrow> Inl (KeyError (ident_str i))
      | Some s \<Rightarrow>
          (case ts_by_source ts i of
             Some r \<Rightarrow> Inr (r, ts)
           | None \<Rightarrow>
               bindE (build_safe_evidence_ref (env_hash e) s (Ident (env_ids e MintSafeEvidenceRef (ts_next ts))))
                 (\<lambda>r. Inr (r, ts\<lparr>ts_by_source := (ts_by_source ts)(i \<mapsto> r), ts_refs := ts_refs ts @ [r],
                        ts_next := ts_next ts + 1\<rparr>))))"

definition add_single :: "compile_env \<Rightarrow> candidate \<Rightarrow> transform_state \<Rightarrow> transform_state result" where
  "add_single e c ts =
     (case cand_grant c of
        None \<Rightarrow> Inr ts
      | Some g \<Rightarrow>
          if cand_id c \<in> set (ts_grouped ts) then Inr ts
          else
            let scope = grant_max_scope g; req = requested_evidence (env_command e) (cand_fact c) in
            if fact_type (cand_fact c) = EVIDENCE_DESCRIPTION \<and> req \<noteq> [] then
              bindE (safe_ref_for e (hd req) ts) (\<lambda>(r, ts').
                let eid = export_id e ts' in
                bindE (transform_evidence_description (env_hash e) (Ident eid) (cand_fact c) scope r)
                  (\<lambda>out. Inr (add_output eid [c] out ts')))
            else
              let eid = export_id e ts in
              bindE (transform_facts (env_hash e) (Ident eid) [cand_fact c] scope)
                (\<lambda>out. Inr (add_output eid [c] out ts)))"

definition transform :: "compile_env \<Rightarrow> candidate list \<Rightarrow> transform_state result" where
  "transform e cs =
     (let el = filter (\<lambda>c. eligible c \<and> cand_grant c \<noteq> None) cs;
          scope_of = (\<lambda>c. grant_max_scope (the (cand_grant c)));
          aggregates = group_all (\<lambda>c. fact_type (cand_fact c)) id (filter is_aggregate el);
          incidents = group_all scope_of id
            (filter (\<lambda>c. \<not> is_aggregate c \<and> fact_type (cand_fact c) = INCIDENT_OCCURRENCE) el)
      in bindE (foldE (\<lambda>(_, members). add_group e AGGREGATE_ONLY members)
                  (sort_key (\<lambda>g. fact_type_text (fst g)) aggregates) transform_start) (\<lambda>ts.
         bindE (foldE (\<lambda>(scope, members). add_group e scope members)
                  (sort_key (\<lambda>g. scope_text (fst g)) incidents) ts) (\<lambda>ts'.
         foldE (add_single e) el ts')))"

definition with_exports :: "transform_state \<Rightarrow> candidate \<Rightarrow> candidate" where
  "with_exports ts c = c\<lparr>cand_export_ids :=
     cand_export_ids c @ map snd (filter (\<lambda>x. fst x = cand_id c) (ts_exports ts))\<rparr>"

section \<open>What the view relies on\<close>

text \<open>
  The mandates of the exported candidates, one per key. Gate 8 takes every candidate's mandate
  from one dictionary, so equal keys mean equal mandates.
\<close>

definition relied_mandates :: "candidate list \<Rightarrow> disclosure_mandate list" where
  "relied_mandates cs = fromkeys (List.map_filter cand_mandate
     (filter (\<lambda>c. eligible c \<and> cand_export_ids c \<noteq> []) cs))"

definition mandate_refs :: "disclosure_mandate list \<Rightarrow> mandate_version_ref list" where
  "mandate_refs ms = map (\<lambda>m. \<lparr>mvr_mandate_id = uuid_of (mandate_id m), mvr_version = mandate_version m,
     mvr_terms_hash = mandate_terms_hash m\<rparr>) (sort_key mandate_key ms)"

definition view_expiry :: "datetime \<Rightarrow> disclosure_mandate list \<Rightarrow> datetime" where
  "view_expiry requested_at ms =
     dt_min (add_micros requested_at (seconds VIEW_LIFETIME_SECONDS)) (List.map_filter mandate_expires_at ms)"

definition j_pointer :: "current_mandate_pointer \<Rightarrow> jval" where
  "j_pointer p = JObj
     [(''mandate_id'', j_ident (pointer_mandate_id p)), (''version'', JInt (pointer_version p)),
      (''case_id'', j_ident (pointer_case_id p)), (''contributor_id'', j_ident (pointer_contributor_id p)),
      (''terms_hash'', j_digest (pointer_terms_hash p))]"

definition j_evaluated_fact :: "fact \<Rightarrow> jval" where
  "j_evaluated_fact f = JObj
     [(''fact_id'', j_ident (fact_id f)), (''version'', JInt (fact_version f)),
      (''status'', JStr (fact_status_text (fact_status f))),
      (''evidence_status'', JStr (evidence_status_text (fact_evidence_status f)))]"

definition j_corroboration_fact :: "fact \<Rightarrow> jval" where
  "j_corroboration_fact f = JObj
     [(''fact_id'', j_ident (fact_id f)), (''case_id'', j_ident (fact_case_id f)),
      (''community_id'', j_ident (fact_community_id f)), (''namespace'', j_namespace (fact_namespace f)),
      (''report_id'', j_ident (fact_report_id f)), (''contributor_id'', j_ident (fact_contributor_id f)),
      (''version'', JInt (fact_version f)), (''status'', JStr (fact_status_text (fact_status f))),
      (''evidence_ids'', j_list j_ident (sort (fact_evidence_ids f)))]"

definition j_corroboration_report :: "report \<Rightarrow> jval" where
  "j_corroboration_report r = JObj
     [(''report_id'', j_ident (report_id r)), (''case_id'', j_opt j_ident (report_case_id r)),
      (''community_id'', j_ident (report_community_id r)), (''namespace'', j_namespace (report_namespace r)),
      (''contributor_id'', j_ident (report_contributor_id r)), (''version'', JInt (report_version r)),
      (''status'', JStr (report_status_text (report_status r))),
      (''duplicate_of_report_id'', j_opt j_ident (report_duplicate_of r))]"

definition j_corroboration_evidence :: "evidence_item \<Rightarrow> jval" where
  "j_corroboration_evidence x = JObj
     [(''evidence_id'', j_ident (item_id x)), (''case_id'', j_ident (item_case_id x)),
      (''community_id'', j_ident (item_community_id x)), (''namespace'', j_namespace (item_namespace x)),
      (''root_id'', j_ident (item_root_id x)), (''version'', JInt (item_version x)),
      (''sha256'', j_digest (item_sha256 x))]"

definition j_evidence_root :: "evidence_root \<Rightarrow> jval" where
  "j_evidence_root r = JObj
     [(''root_id'', j_ident (root_id r)), (''community_id'', j_ident (root_community_id r)),
      (''namespace'', j_namespace (root_namespace r)), (''version'', JInt (root_version r)),
      (''root_sha256'', j_digest (root_sha256 r)),
      (''derivation_kind'', JStr (derivation_kind_text (root_derivation_kind r))),
      (''parent_root_id'', j_opt j_ident (root_parent_root_id r))]"

definition j_safe_evidence_candidate :: "safe_evidence_candidate \<Rightarrow> jval" where
  "j_safe_evidence_candidate s = JObj
     [(''source_evidence_id'', j_ident (se_source_evidence_id s)),
      (''export_handle_id'', j_uuid (se_export_handle_id s)),
      (''derivative_sha256'', j_digest (se_derivative_sha256 s)), (''caption'', JStr (se_caption s)),
      (''human_reviewed'', JBool (se_human_reviewed s)),
      (''transformation_rule_id'', JStr (se_transformation_rule_id s))]"

definition j_evaluated_evidence :: "safe_evidence_candidate option \<Rightarrow> evidence_item \<Rightarrow> jval" where
  "j_evaluated_evidence safe x = JObj
     [(''evidence_id'', j_ident (item_id x)), (''case_id'', j_ident (item_case_id x)),
      (''community_id'', j_ident (item_community_id x)), (''namespace'', j_namespace (item_namespace x)),
      (''root_id'', j_ident (item_root_id x)),
      (''submitted_by_contributor_id'', j_opt j_ident (item_submitted_by x)),
      (''version'', JInt (item_version x)), (''sha256'', j_digest (item_sha256 x)),
      (''media_type'', JStr (item_media_type x)), (''byte_length'', JInt (item_byte_length x)),
      (''malware_scan_status'', JStr (malware_scan_status_text (item_malware_scan_status x))),
      (''extraction_status'', JStr (extraction_status_text (item_extraction_status x))),
      (''has_extracted_text'', JBool (item_extracted_text x \<noteq> None)),
      (''safe_derivative'', j_opt j_safe_evidence_candidate safe)]"

text \<open>\<open>evidence_by_id[evidence_id]\<close>.\<close>

definition evidence_item_at :: "compile_context \<Rightarrow> evidence_item_id \<Rightarrow> evidence_item result" where
  "evidence_item_at ctx i =
     (case index_by item_id (ctx_evidence_items ctx) i of None \<Rightarrow> Inl (KeyError (ident_str i)) | Some x \<Rightarrow> Inr x)"

definition authorization_snapshot :: "compile_env \<Rightarrow> candidate list \<Rightarrow> jval result" where
  "authorization_snapshot e cs =
     (let cmd = env_command e; ctx = env_context e; k = ctx_case ctx;
          case_facts = active_case_facts ctx;
          contributors = (\<lambda>c. fact_contributor_id (cand_fact c)) ` set cs;
          pointers = sort_key (\<lambda>p. (pointer_mandate_id p, pointer_version p))
            (filter (\<lambda>p. pointer_contributor_id p \<in> contributors) (ctx_mandate_pointers ctx));
          reports = sort_key report_id
            (filter (\<lambda>r. report_id r \<in> fact_report_id ` set case_facts) (ctx_reports ctx));
          corroboration_ids = sort (remdups (concat (map fact_evidence_ids case_facts)));
          safe = index_by se_source_evidence_id (ctx_safe_evidence_candidates ctx)
      in bindE (map_result (evidence_item_at ctx) corroboration_ids) (\<lambda>corroboration.
         bindE (map_result (evidence_item_at ctx) (sort (cmd_requested_evidence_ids cmd))) (\<lambda>evaluated.
         Inr (JObj
           [(''case_id'', j_ident (case_case_id k)),
            (''authorization_version'', JInt (case_authorization_version k)),
            (''corroboration_source_count'', JInt (case_corroboration_count k)),
            (''policy_build_hash'', j_digest (POLICY_BUILD_HASH (env_hash e))),
            (''compiler_version'', JStr COMPILER_VERSION),
            (''destination'', j_safe_destination (cmd_destination cmd)),
            (''purpose'', JStr (purpose_text (cmd_purpose cmd))),
            (''current_mandates'', j_list j_pointer pointers),
            (''evaluated_facts'', j_list (\<lambda>c. j_evaluated_fact (cand_fact c)) cs),
            (''corroboration_facts'', j_list j_corroboration_fact (sort_key fact_id case_facts)),
            (''corroboration_reports'', j_list j_corroboration_report reports),
            (''corroboration_evidence'', j_list j_corroboration_evidence corroboration),
            (''evidence_roots'', j_list j_evidence_root (sort_key root_id (ctx_evidence_roots ctx))),
            (''evaluated_evidence'',
             j_list (\<lambda>x. j_evaluated_evidence (safe (item_id x)) x) evaluated)]))))"

definition draft_view ::
    "compile_env \<Rightarrow> transform_state \<Rightarrow> candidate list \<Rightarrow> digest \<Rightarrow> shareable_case_view" where
  "draft_view e ts cs snapshot_hash =
     (let cmd = env_command e; ctx = env_context e; relied = relied_mandates cs in
      \<lparr>view_schema_version = SHAREABLE_VIEW_SCHEMA_VERSION,
       view_view_id = Ident (env_ids e MintView (ts_next ts)),
       view_case_id = uuid_of (case_case_id (ctx_case ctx)),
       view_community_public_label = ctx_community_public_label ctx,
       view_case_version = case_version (ctx_case ctx),
       view_authorization_version = case_authorization_version (ctx_case ctx),
       view_policy_version = POLICY_VERSION,
       view_compiler_version = COMPILER_VERSION,
       view_policy_build_hash = POLICY_BUILD_HASH (env_hash e),
       view_destination = cmd_destination cmd,
       view_purpose = cmd_purpose cmd,
       view_generated_at = cmd_requested_at cmd,
       view_expires_at = view_expiry (cmd_requested_at cmd) relied,
       view_mandate_version_set = mandate_refs relied,
       view_authorization_snapshot_hash = snapshot_hash,
       view_shareable_facts = sort_key sf_export_fact_id (ts_facts ts),
       view_safe_evidence_refs = sort_key ser_id (ts_refs ts),
       view_audit_refs = [env_audit_id e],
       view_hash = EMPTY_DIGEST\<rparr>)"

definition transformation :: "compile_env \<Rightarrow> step" where
  "transformation e st =
     (case transform e (st_candidates st) of
        Inl (ValueError _) \<Rightarrow> refuse e st TRANSFORMATION CR_TRANSFORMATION_ERROR None
      | Inl (TypeError _) \<Rightarrow> refuse e st TRANSFORMATION CR_TRANSFORMATION_ERROR None
      | Inl err \<Rightarrow> Inl (Raised err)
      | Inr ts \<Rightarrow>
          if ts_facts ts = [] then refuse e st TRANSFORMATION CR_NO_SHAREABLE_FACTS None
          else
            let cs = map (with_exports ts) (st_candidates st) in
            (case authorization_snapshot e cs of
               Inl err \<Rightarrow> Inl (Raised err)
             | Inr snapshot \<Rightarrow>
                 let draft = draft_view e ts cs (env_hash e snapshot) in
                 if unsafe_output draft then refuse e st TRANSFORMATION CR_UNSAFE_OUTPUT None
                 else Inr (passed TRANSFORMATION
                   (st\<lparr>st_candidates := cs,
                       st_view := Some (draft\<lparr>view_hash := hash_view (env_hash e) draft\<rparr>)\<rparr>))))"

section \<open>The whole compile\<close>

definition audit_hash :: step where
  "audit_hash st = Inr (passed AUDIT_HASH st)"

definition compile_gates :: "compile_env \<Rightarrow> step list" where
  "compile_gates e =
     (let cmd = env_command e; now = cmd_requested_at cmd in
      [request_schema e,
       namespace_community e,
       case_identity_version e,
       cross_case_references e,
       existence e,
       ownership e,
       current_mandate_selection e,
       mandate_version_integrity e,
       apply_item_gate e MANDATE_APPROVAL approval_reason,
       apply_item_gate e REVOCATION (revocation_reason now),
       apply_item_gate e EXPIRATION (expiration_reason now),
       apply_item_gate e DESTINATION
         (destination_reason (cmd_destination cmd) (ctx_destination_registry_entry (env_context e))),
       apply_item_gate e PURPOSE (purpose_reason (cmd_purpose cmd)),
       apply_item_gate e DISCLOSURE_SCOPE scope_reason,
       apply_item_gate e IDENTITY identity_reason,
       aggregation_threshold e,
       independence e,
       reidentification e,
       apply_item_gate e MINIMUM_NECESSITY (minimum_necessity_reason cmd),
       evidence_safety e,
       transformation e,
       audit_hash])"

fun run_steps :: "('s \<Rightarrow> 'e + 's) list \<Rightarrow> 's \<Rightarrow> 'e + 's" where
  "run_steps [] st = Inr st"
| "run_steps (g # gs) st = bindE (g st) (run_steps gs)"

definition compile_start :: compile_state where
  "compile_start = \<lparr>st_audit = [], st_candidates = [], st_aggregate_groups = [], st_view = None\<rparr>"

definition included_facts :: "candidate list \<Rightarrow> included_fact list" where
  "included_facts cs = map (\<lambda>c. \<lparr>inc_fact_id = cand_id c,
       inc_export_fact_ids = sort (remdups (cand_export_ids c))\<rparr>)
     (filter (\<lambda>c. cand_export_ids c \<noteq> []) cs)"

definition excluded_facts :: "candidate list \<Rightarrow> excluded_fact list" where
  "excluded_facts cs = map (\<lambda>c. \<lparr>exc_fact_id = cand_id c,
       exc_reason_codes = fromkeys (cand_excluded_reasons c)\<rparr>)
     (filter (\<lambda>c. cand_excluded_reasons c \<noteq> []) cs)"

definition compile_env_of ::
    "hasher \<Rightarrow> (uuid \<Rightarrow> id_source) \<Rightarrow> compile_command \<Rightarrow> compile_context \<Rightarrow> compile_env" where
  "compile_env_of H generators cmd ctx =
     (let ids = generators (cmd_compile_id cmd) in
      \<lparr>env_hash = H, env_ids = ids, env_command = cmd, env_context = ctx,
       env_audit_id = ids MintOperation 0\<rparr>)"

definition compile ::
    "hasher \<Rightarrow> (uuid \<Rightarrow> id_source) \<Rightarrow> compile_command \<Rightarrow> compile_context \<Rightarrow> stop + compile_allow" where
  "compile H generators cmd ctx =
     (let e = compile_env_of H generators cmd ctx in
      bindE (run_steps (compile_gates e) compile_start) (\<lambda>st.
        case st_view st of
          None \<Rightarrow> Inl (Raised (IntegrityError ''no view''))
        | Some v \<Rightarrow> Inr
            \<lparr>allow_compile_id = cmd_compile_id cmd, allow_view = v,
             allow_included = included_facts (st_candidates st),
             allow_excluded = excluded_facts (st_candidates st),
             allow_audit_event_id = env_audit_id e,
             allow_audit_decisions = st_audit st\<rparr>))"

end
