(* ===== verification/Compiler_Gates.thy ===== *)
theory Compiler_Gates
  imports Compiler_Output
begin

text \<open>
  Two contracts the steps of the compiler keep. \<open>audited_gate\<close>: a step writes exactly one audit
  entry, for its own gate, and denies exactly when that entry says so. \<open>narrowing_gate\<close>: a step
  changes a candidate only by adding exclusion reasons, and never to a REQUIRED one. Both are
  interpreted on every step they fit; running a list of steps is reasoned about once, over the
  contracts.
\<close>

section \<open>Running steps\<close>

lemma run_steps_append:
  "run_steps (gs @ hs) st = bindE (run_steps gs st) (run_steps hs)"
proof (induction gs arbitrary: st)
  case (Cons g gs)
  then show ?case by (cases "g st") auto
qed simp

lemma run_steps_split:
  "run_steps (gs @ g # hs) st = Inr st' \<Longrightarrow> \<exists>s t. run_steps gs st = Inr s \<and> g s = Inr t \<and> run_steps hs t = Inr st'"
  by (auto simp: run_steps_append result_simps)

section \<open>The audit contract\<close>

locale audited_gate =
  fixes step :: step and gate :: compiler_gate
  assumes passes: "step st = Inr st' \<Longrightarrow>
      \<exists>outcome reasons. outcome \<noteq> GO_DENIED \<and> st_audit st' = st_audit st @
        [\<lparr>audit_gate = gate, audit_outcome = outcome, audit_reason_codes = reasons\<rparr>]"
    and denies: "step st = Inl (Denied d) \<Longrightarrow>
      \<exists>r subject. deny_audit_decisions d = st_audit st @
          [\<lparr>audit_gate = gate, audit_outcome = GO_DENIED, audit_reason_codes = [r]\<rparr>] \<and>
        deny_reasons d = [\<lparr>reason_code = r, reason_subject_ref = subject, reason_retryable = False\<rparr>]"
begin

lemma gate_recorded: "step st = Inr st' \<Longrightarrow> map audit_gate (st_audit st') = map audit_gate (st_audit st) @ [gate]"
  using passes by fastforce

lemma never_denied_silently:
  "step st = Inr st' \<Longrightarrow> \<forall>a\<in>set (st_audit st). audit_outcome a \<noteq> GO_DENIED \<Longrightarrow>
     \<forall>a\<in>set (st_audit st'). audit_outcome a \<noteq> GO_DENIED"
  using passes by fastforce

end

lemmas outcome_defs = passed_def gate_complete_def refuse_def deny_def

lemma refuse_simps [simp]:
  "refuse e st g r s \<noteq> Inr x"
  "refuse e st g r s = Inl (Denied d) \<longleftrightarrow> d = deny e st g r s True"
  by (auto simp: refuse_def)

lemma deny_simps [simp]:
  "deny_audit_decisions (deny e st g r s b) = st_audit st @
     [\<lparr>audit_gate = g, audit_outcome = GO_DENIED, audit_reason_codes = [r]\<rparr>]"
  "deny_reasons (deny e st g r s b) = [\<lparr>reason_code = r, reason_subject_ref = s, reason_retryable = False\<rparr>]"
  by (simp_all add: deny_def)

lemma passed_simps [simp]:
  "st_audit (passed g st) = st_audit st @ [\<lparr>audit_gate = g, audit_outcome = GO_PASSED, audit_reason_codes = []\<rparr>]"
  "st_candidates (passed g st) = st_candidates st" "st_view (passed g st) = st_view st"
  "st_aggregate_groups (passed g st) = st_aggregate_groups st"
  by (simp_all add: passed_def)

lemma gate_complete_simps [simp]:
  "st_audit (gate_complete g rs st) = st_audit st @
     [\<lparr>audit_gate = g, audit_outcome = (if rs \<noteq> [] then GO_EXCLUDED else GO_PASSED),
       audit_reason_codes = sort_key reason_text (remdups rs)\<rparr>]"
  "st_candidates (gate_complete g rs st) = st_candidates st" "st_view (gate_complete g rs st) = st_view st"
  "st_aggregate_groups (gate_complete g rs st) = st_aggregate_groups st"
  by (simp_all add: gate_complete_def)

interpretation request_schema: audited_gate "request_schema e" REQUEST_SCHEMA for e
  by unfold_locales (auto simp: request_schema_def split: sum.splits)

interpretation namespace_community: audited_gate "namespace_community e" NAMESPACE_COMMUNITY for e
  by unfold_locales (auto simp: namespace_community_def split: if_splits)

interpretation case_identity_version: audited_gate "case_identity_version e" CASE_IDENTITY_VERSION for e
  by unfold_locales (auto simp: case_identity_version_def Let_def split: if_splits)

interpretation cross_case_references: audited_gate "cross_case_references e" CROSS_CASE_REFERENCES for e
  by unfold_locales (auto simp: cross_case_references_def split: option.splits)

interpretation existence: audited_gate "existence e" EXISTENCE for e
  by unfold_locales (auto simp: existence_def Let_def split: option.splits)

interpretation ownership: audited_gate "ownership e" OWNERSHIP for e
  by unfold_locales (auto simp: ownership_def Let_def split: option.splits sum.splits if_splits)

interpretation item_gate: audited_gate "apply_item_gate e g ev" g for e g ev
  by unfold_locales (auto simp: apply_item_gate_def split: sum.splits)

interpretation current_mandate_selection:
  audited_gate "current_mandate_selection e" CURRENT_MANDATE_SELECTION for e
  by unfold_locales
    (auto simp: current_mandate_selection_def Let_def split: if_splits dest!: item_gate.passes item_gate.denies)

interpretation mandate_version_integrity:
  audited_gate "mandate_version_integrity e" MANDATE_VERSION_INTEGRITY for e
  by unfold_locales (auto simp: mandate_version_integrity_def Let_def split: option.splits if_splits)

interpretation aggregation_threshold: audited_gate "aggregation_threshold e" AGGREGATION_THRESHOLD for e
  by unfold_locales (auto simp: aggregation_threshold_def Let_def split: sum.splits)

interpretation independence: audited_gate "independence e" INDEPENDENCE for e
  by unfold_locales (auto simp: independence_def Let_def split: sum.splits error.splits if_splits)

interpretation reidentification: audited_gate "reidentification e" REIDENTIFICATION for e
  by unfold_locales (auto simp: reidentification_def split: sum.splits)

interpretation evidence_safety: audited_gate "evidence_safety e" EVIDENCE_SAFETY for e
  by unfold_locales (auto simp: evidence_safety_def Let_def split: sum.splits option.splits if_splits)

interpretation transformation: audited_gate "transformation e" TRANSFORMATION for e
  by unfold_locales (auto simp: transformation_def Let_def split: sum.splits error.splits if_splits)

interpretation audit_hash: audited_gate audit_hash AUDIT_HASH
  by unfold_locales (auto simp: audit_hash_def)

lemma compile_gates_audited: "list_all2 audited_gate (compile_gates e) compiler_gates"
  unfolding compile_gates_def compiler_gates_def Let_def
  by (simp add: request_schema.audited_gate_axioms namespace_community.audited_gate_axioms
      case_identity_version.audited_gate_axioms cross_case_references.audited_gate_axioms
      existence.audited_gate_axioms ownership.audited_gate_axioms item_gate.audited_gate_axioms
      current_mandate_selection.audited_gate_axioms mandate_version_integrity.audited_gate_axioms
      aggregation_threshold.audited_gate_axioms independence.audited_gate_axioms
      reidentification.audited_gate_axioms evidence_safety.audited_gate_axioms
      transformation.audited_gate_axioms audit_hash.audited_gate_axioms)

definition clean_audit :: "audit_decision list \<Rightarrow> bool" where
  "clean_audit as \<longleftrightarrow> (\<forall>a\<in>set as. audit_outcome a \<noteq> GO_DENIED)"

lemma run_steps_audit_passes:
  "list_all2 audited_gate gs ks \<Longrightarrow> run_steps gs st = Inr st' \<Longrightarrow> clean_audit (st_audit st) \<Longrightarrow>
     map audit_gate (st_audit st') = map audit_gate (st_audit st) @ ks \<and> clean_audit (st_audit st')"
proof (induction gs ks arbitrary: st rule: list_all2_induct)
  case (Cons g gs k ks)
  from Cons.prems(1) obtain s where s: "g st = Inr s" "run_steps gs s = Inr st'"
    by (auto simp: result_simps)
  from audited_gate.never_denied_silently [OF Cons.hyps(1) s(1)] Cons.prems(2)
  have "clean_audit (st_audit s)" by (simp add: clean_audit_def)
  with Cons.IH [OF s(2)] audited_gate.gate_recorded [OF Cons.hyps(1) s(1)] show ?case by simp
qed simp

text \<open>A denial is the last entry, made by the gate whose turn it was.\<close>

lemma run_steps_audit_denies:
  "list_all2 audited_gate gs ks \<Longrightarrow> run_steps gs st = Inl (Denied d) \<Longrightarrow> clean_audit (st_audit st) \<Longrightarrow>
     \<exists>n as r subject. n < length ks \<and>
       deny_audit_decisions d = as @ [\<lparr>audit_gate = ks ! n, audit_outcome = GO_DENIED, audit_reason_codes = [r]\<rparr>] \<and>
       map audit_gate as = map audit_gate (st_audit st) @ take n ks \<and> clean_audit as \<and>
       deny_reasons d = [\<lparr>reason_code = r, reason_subject_ref = subject, reason_retryable = False\<rparr>]"
proof (induction gs ks arbitrary: st rule: list_all2_induct)
  case (Cons g gs k ks)
  from Cons.prems(1) consider "g st = Inl (Denied d)" | s where "g st = Inr s" "run_steps gs s = Inl (Denied d)"
    by (auto simp: result_simps)
  then show ?case
  proof cases
    case 1
    from audited_gate.denies [OF Cons.hyps(1) this] Cons.prems(2) show ?thesis
      by (intro exI [of _ 0]) (auto simp: clean_audit_def)
  next
    case (2 s)
    from audited_gate.never_denied_silently [OF Cons.hyps(1) 2(1)] Cons.prems(2)
    have "clean_audit (st_audit s)" by (simp add: clean_audit_def)
    from Cons.IH [OF 2(2) this] obtain n as r subject where
      "n < length ks" "deny_audit_decisions d = as @ [\<lparr>audit_gate = ks ! n, audit_outcome = GO_DENIED, audit_reason_codes = [r]\<rparr>]"
      "map audit_gate as = map audit_gate (st_audit s) @ take n ks" "clean_audit as"
      "deny_reasons d = [\<lparr>reason_code = r, reason_subject_ref = subject, reason_retryable = False\<rparr>]"
      by blast
    then show ?thesis
      using audited_gate.gate_recorded [OF Cons.hyps(1) 2(1)]
      by (intro exI [of _ "Suc n"] exI [of _ as] exI [of _ r] exI [of _ subject]) auto
  qed
qed simp

section \<open>The narrowing contract\<close>

definition narrows :: "candidate \<Rightarrow> candidate \<Rightarrow> bool" where
  "narrows c d \<longleftrightarrow>
     (\<exists>rs. d = c\<lparr>cand_excluded_reasons := cand_excluded_reasons c @ rs\<rparr> \<and> (required c \<longrightarrow> rs = []))"

definition narrowed :: "candidate list \<Rightarrow> candidate list \<Rightarrow> bool" where
  "narrowed cs ds \<longleftrightarrow> list_all2 narrows cs ds"

lemma narrows_refl [simp]: "narrows c c"
  by (auto simp: narrows_def intro: exI [of _ "[]"])

lemma narrows_trans: "narrows a b \<Longrightarrow> narrows b c \<Longrightarrow> narrows a c"
  by (auto simp: narrows_def required_def) force+

lemma narrowed_refl [simp]: "narrowed cs cs"
  by (simp add: narrowed_def list_all2_refl)

lemma narrowed_trans: "narrowed as bs \<Longrightarrow> narrowed bs cs \<Longrightarrow> narrowed as cs"
  unfolding narrowed_def by (rule list_all2_trans [OF narrows_trans])

lemma narrowed_map:
  "(\<And>c. c \<in> set cs \<Longrightarrow> narrows c (f c)) \<Longrightarrow> narrowed cs (map f cs)"
  by (simp add: narrowed_def list_all2_map2 list_all2_same)

lemma narrows_fields:
  "narrows c d \<Longrightarrow> cand_request d = cand_request c \<and> cand_fact d = cand_fact c \<and>
     cand_pointer d = cand_pointer c \<and> cand_mandate d = cand_mandate c \<and> cand_grant d = cand_grant c \<and>
     cand_export_ids d = cand_export_ids c"
  by (auto simp: narrows_def)

lemma narrows_eligible: "narrows c d \<Longrightarrow> eligible d \<Longrightarrow> d = c"
  by (auto simp: narrows_def eligible_def)

lemma narrowed_eligible: "narrowed cs ds \<Longrightarrow> d \<in> set ds \<Longrightarrow> eligible d \<Longrightarrow> d \<in> set cs"
  unfolding narrowed_def by (induction rule: list_all2_induct) (auto dest: narrows_eligible)

lemma narrowed_requests: "narrowed cs ds \<Longrightarrow> map cand_request ds = map cand_request cs \<and> map cand_fact ds = map cand_fact cs"
  unfolding narrowed_def by (induction rule: list_all2_induct) (auto dest: narrows_fields)

lemma narrowed_required:
  "narrowed cs ds \<Longrightarrow> \<forall>c\<in>set cs. required c \<longrightarrow> eligible c \<Longrightarrow> \<forall>d\<in>set ds. required d \<longrightarrow> eligible d"
  unfolding narrowed_def
  by (induction rule: list_all2_induct) (auto simp: narrows_def required_def)

lemma narrows_exclude: "\<not> required c \<Longrightarrow> narrows c (exclude r c)"
  by (auto simp: narrows_def exclude_def)

lemma item_loop_Inr:
  "item_loop ev cs = Inr (ds, rs) \<Longrightarrow>
     narrowed cs ds \<and> (\<forall>d\<in>set ds. eligible d \<longrightarrow> ev d = None) \<and>
     (\<forall>c\<in>set cs. eligible c \<longrightarrow> ev c = None \<longrightarrow> c \<in> set ds)"
proof (induction ev cs arbitrary: ds rs rule: item_loop.induct)
  case (2 ev c cs)
  from "2.prems" obtain ds' rs' where rec: "item_loop ev cs = Inr (ds', rs')"
    and d: "(eligible c \<longrightarrow> ev c = None) \<and> ds = c # ds' \<or>
            (\<exists>r. eligible c \<and> ev c = Some r \<and> \<not> required c \<and> ds = exclude r c # ds')"
    by (auto simp: result_simps split: option.splits if_splits)
  have ih: "narrowed cs ds' \<and> (\<forall>d\<in>set ds'. eligible d \<longrightarrow> ev d = None) \<and>
      (\<forall>c\<in>set cs. eligible c \<longrightarrow> ev c = None \<longrightarrow> c \<in> set ds')"
  proof (cases "if eligible c then ev c else None")
    case None
    then show ?thesis by (rule "2.IH"(1)) (rule rec)
  next
    case (Some r)
    with d have "\<not> required c" by (auto split: if_splits)
    with Some show ?thesis by (rule "2.IH"(2)) (rule rec)
  qed
  from d show ?case
  proof
    assume "(eligible c \<longrightarrow> ev c = None) \<and> ds = c # ds'"
    with ih show ?thesis by (simp add: narrowed_def)
  next
    assume "\<exists>r. eligible c \<and> ev c = Some r \<and> \<not> required c \<and> ds = exclude r c # ds'"
    then obtain r where r: "ev c = Some r" "\<not> required c" "ds = exclude r c # ds'" by blast
    have "\<not> eligible (exclude r c)" by (simp add: eligible_def exclude_def)
    with ih r show ?thesis by (simp add: narrowed_def narrows_exclude)
  qed
qed (simp add: narrowed_def)

lemma item_loop_Inl:
  "item_loop ev cs = Inl (c, r) \<Longrightarrow> c \<in> set cs \<and> required c \<and> eligible c \<and> ev c = Some r"
  by (induction ev cs rule: item_loop.induct) (auto simp: result_simps split: option.splits if_splits)

lemma exclude_group_Inr: "exclude_group r is cs = Inr ds \<Longrightarrow>
   narrowed cs ds \<and> (\<forall>d\<in>set ds. eligible d \<longrightarrow> cand_id d \<notin> set is) \<and>
   (\<forall>c\<in>set cs. cand_id c \<notin> set is \<longrightarrow> c \<in> set ds)"
proof (induction r "is" cs rule: exclude_group.induct)
  case (2 r i "is" cs)
  let ?cs = "map (\<lambda>c. if cand_id c = i then exclude r c else c) cs"
  from "2.prems" have n: "List.find (\<lambda>c. cand_id c = i \<and> required c) cs = None"
    and rec: "exclude_group r is ?cs = Inr ds" by (auto split: option.splits)
  from n have free: "\<And>c. c \<in> set cs \<Longrightarrow> cand_id c = i \<Longrightarrow> \<not> required c" by (auto simp: find_None_iff)
  have step: "narrowed cs ?cs" by (rule narrowed_map) (use free narrows_exclude in auto)
  from "2.IH" [OF n rec] have ih: "narrowed ?cs ds" "\<forall>d\<in>set ds. eligible d \<longrightarrow> cand_id d \<notin> set is"
    "\<forall>c\<in>set ?cs. cand_id c \<notin> set is \<longrightarrow> c \<in> set ds" by auto
  have "cand_id d \<noteq> i" if "d \<in> set ds" "eligible d" for d
  proof
    assume "cand_id d = i"
    from narrowed_eligible [OF ih(1) that] obtain c where "d = (if cand_id c = i then exclude r c else c)"
      unfolding set_map by (elim imageE)
    with \<open>cand_id d = i\<close> that(2) show False by (auto simp: eligible_def exclude_def split: if_splits)
  qed
  moreover have "c \<in> set ds" if "c \<in> set cs" "cand_id c \<notin> set (i # is)" for c
  proof -
    from that have "c \<in> set ?cs" by (auto intro!: image_eqI [of _ _ c])
    with ih(3) that show ?thesis by simp
  qed
  moreover have "narrowed cs ds" by (rule narrowed_trans [OF step ih(1)])
  moreover have "cand_id d \<notin> set (i # is)" if "d \<in> set ds" "eligible d" for d
    using calculation(1) [OF that] ih(2) that by simp
  ultimately show ?case by blast
qed simp

lemma exclude_group_Inl: "exclude_group r is cs = Inl c \<Longrightarrow> required c \<and> cand_id c \<in> set is"
proof (induction r "is" cs rule: exclude_group.induct)
  case (2 r i "is" cs)
  show ?case
  proof (cases "List.find (\<lambda>c. cand_id c = i \<and> required c) cs")
    case None
    then have "required c \<and> cand_id c \<in> set is" using "2.prems" by (intro "2.IH") simp_all
    then show ?thesis by simp
  next
    case (Some d)
    with "2.prems" find_SomeD [OF Some] show ?thesis by simp
  qed
qed simp

lemma bucket_loop_Inr: "bucket_loop gs cs rs = Inr (ds, rs') \<Longrightarrow> narrowed cs ds"
proof (induction gs arbitrary: cs rs)
  case (Cons g gs)
  obtain t "is" where g: "g = (t, is)" by force
  let ?members = "filter (\<lambda>c. cand_id c \<in> set is \<and> eligible c) cs"
  show ?case
  proof (cases "?members = [] \<or> aggregate_category_bucket_count t ?members > 1")
    case True
    with Cons g show ?thesis by (simp add: Let_def)
  next
    case False
    with Cons.prems g obtain cs' where
      "exclude_group CR_REIDENTIFICATION_RISK (map cand_id ?members) cs = Inr cs'"
      "bucket_loop gs cs' (rs @ map (\<lambda>_. CR_REIDENTIFICATION_RISK) ?members) = Inr (ds, rs')"
      by (auto simp: Let_def result_simps)
    then show ?thesis using exclude_group_Inr Cons.IH narrowed_trans by blast
  qed
qed simp

locale narrowing_gate =
  fixes step :: step
  assumes narrows: "step st = Inr st' \<Longrightarrow> narrowed (st_candidates st) (st_candidates st')"
    and keeps_view: "step st = Inr st' \<Longrightarrow> st_view st' = st_view st"
begin

lemma eligible_before: "step st = Inr st' \<Longrightarrow> c \<in> set (st_candidates st') \<Longrightarrow> eligible c \<Longrightarrow> c \<in> set (st_candidates st)"
  using narrows narrowed_eligible by blast

lemma same_facts: "step st = Inr st' \<Longrightarrow> map cand_fact (st_candidates st') = map cand_fact (st_candidates st)"
  using narrows narrowed_requests by blast

end

interpretation item_narrowing: narrowing_gate "apply_item_gate e g ev" for e g ev
  by unfold_locales (auto simp: apply_item_gate_def dest!: item_loop_Inr split: sum.splits)

interpretation aggregation_narrowing: narrowing_gate "aggregation_threshold e" for e
  by unfold_locales (auto simp: aggregation_threshold_def Let_def dest!: exclude_group_Inr split: sum.splits)

interpretation independence_narrowing: narrowing_gate "independence e" for e
  by unfold_locales (auto simp: independence_def Let_def split: sum.splits error.splits if_splits)

interpretation reidentification_narrowing: narrowing_gate "reidentification e" for e
proof
  fix st st'
  assume "reidentification e st = Inr st'"
  then obtain cs rs cs' rs' where r: "item_loop reidentification_reason (st_candidates st) = Inr (cs, rs)"
    "bucket_loop (sort_key (\<lambda>g. fact_type_text (fst g)) (st_aggregate_groups st)) cs rs = Inr (cs', rs')"
    "st' = gate_complete REIDENTIFICATION rs' (st\<lparr>st_candidates := cs'\<rparr>)"
    by (auto simp: reidentification_def split: sum.splits)
  with item_loop_Inr [OF r(1)] bucket_loop_Inr [OF r(2)] narrowed_trans
  show "narrowed (st_candidates st) (st_candidates st')" by fastforce
  show "st_view st' = st_view st" using r(3) by simp
qed

interpretation evidence_narrowing: narrowing_gate "evidence_safety e" for e
  by unfold_locales
    (auto simp: evidence_safety_def Let_def dest!: exclude_group_Inr split: sum.splits option.splits if_splits
      simp del: exclude_group.simps)

lemma narrowing_run: "list_all narrowing_gate gs \<Longrightarrow> run_steps gs st = Inr st' \<Longrightarrow>
    narrowed (st_candidates st) (st_candidates st')"
proof (induction gs arbitrary: st)
  case (Cons g gs)
  from Cons.prems obtain s where s: "g st = Inr s" "run_steps gs s = Inr st'" by (auto simp: result_simps)
  from Cons.prems(1) have g: "narrowing_gate g" and gs: "list_all narrowing_gate gs" by auto
  have "narrowed (st_candidates st) (st_candidates s)" by (rule narrowing_gate.narrows [of g, OF g s(1)])
  then show ?case using Cons.IH [OF gs s(2)] by (rule narrowed_trans)
qed simp

lemma item_gate_vets:
  "apply_item_gate e g ev st = Inr st' \<Longrightarrow> c \<in> set (st_candidates st') \<Longrightarrow> eligible c \<Longrightarrow> ev c = None"
  by (auto simp: apply_item_gate_def dest!: item_loop_Inr split: sum.splits)

end
