(* ===== verification/Compiler_Properties.thy ===== *)
theory Compiler_Properties
  imports Compiler_Gates
begin

text \<open>
  What an allowed compile guarantees. The first section follows the candidates from gate 6 to gate
  20: which facts they are, which mandate and grant each eligible one is bound to, and which
  policy conditions hold of it. The second follows \<open>_transform\<close>: which candidates are exported,
  and from what each output is made.
\<close>

section \<open>The chain of states\<close>

text \<open>Gates 1 to 20 decide which candidates stay eligible; gate 21 exports those, gate 22 closes the audit.\<close>

definition vetting_gates :: "compile_env \<Rightarrow> step list" where
  "vetting_gates e = take 20 (compile_gates e)"

lemma compile_gates_split: "compile_gates e = vetting_gates e @ [transformation e, audit_hash]"
  by (simp add: vetting_gates_def compile_gates_def Let_def)

lemma vetting_chain:
  assumes "run_steps (vetting_gates e) st = Inr st'"
  obtains s1 s2 s3 s4 s5 s6 s7 s8 s9 s10 s11 s12 s13 s14 s15 s16 s17 s18 s19 where
    "request_schema e st = Inr s1" "namespace_community e s1 = Inr s2" "case_identity_version e s2 = Inr s3"
    "cross_case_references e s3 = Inr s4" "existence e s4 = Inr s5" "ownership e s5 = Inr s6"
    "current_mandate_selection e s6 = Inr s7" "mandate_version_integrity e s7 = Inr s8"
    "apply_item_gate e MANDATE_APPROVAL approval_reason s8 = Inr s9"
    "apply_item_gate e REVOCATION (revocation_reason (cmd_requested_at (env_command e))) s9 = Inr s10"
    "apply_item_gate e EXPIRATION (expiration_reason (cmd_requested_at (env_command e))) s10 = Inr s11"
    "apply_item_gate e DESTINATION (destination_reason (cmd_destination (env_command e))
       (ctx_destination_registry_entry (env_context e))) s11 = Inr s12"
    "apply_item_gate e PURPOSE (purpose_reason (cmd_purpose (env_command e))) s12 = Inr s13"
    "apply_item_gate e DISCLOSURE_SCOPE scope_reason s13 = Inr s14"
    "apply_item_gate e IDENTITY identity_reason s14 = Inr s15"
    "aggregation_threshold e s15 = Inr s16" "independence e s16 = Inr s17" "reidentification e s17 = Inr s18"
    "apply_item_gate e MINIMUM_NECESSITY (minimum_necessity_reason (env_command e)) s18 = Inr s19"
    "evidence_safety e s19 = Inr st'"
  using assms unfolding vetting_gates_def compile_gates_def Let_def take_Suc_Cons take0 numeral_nat run_steps.simps bindE_Inr_iff sum.inject
  by (elim exE conjE) (rule that, assumption+, simp)

section \<open>The candidates\<close>

text \<open>One candidate per requested fact, in text order of the identifiers, nothing exported yet.\<close>

definition candidates_ok :: "compile_env \<Rightarrow> candidate list \<Rightarrow> bool" where
  "candidates_ok e cs \<longleftrightarrow>
     map cand_request cs = sort_key rf_fact_id (cmd_requested_facts (env_command e)) \<and>
     (\<forall>c\<in>set cs. cand_fact c \<in> set (ctx_facts (env_context e)) \<and> cand_id c = rf_fact_id (cand_request c) \<and>
        cand_export_ids c = [] \<and> fact_lineage_ok (env_context e) (cand_fact c)) \<and>
     (\<forall>c\<in>set cs. required c \<longrightarrow> eligible c)"

text \<open>An eligible candidate is bound to the current mandate of its contributor.\<close>

definition bound :: "compile_env \<Rightarrow> candidate \<Rightarrow> bool" where
  "bound e c \<longleftrightarrow>
     (\<exists>p m. cand_pointer c = Some p \<and> cand_mandate c = Some m \<and>
        p \<in> set (ctx_mandate_pointers (env_context e)) \<and> m \<in> set (ctx_mandates (env_context e)) \<and>
        mandate_key m = (pointer_mandate_id p, pointer_version p) \<and>
        mandate_integrity (env_hash e) (cand_fact c) p m \<and>
        cand_grant c = List.find (\<lambda>g. grant_fact_id g = cand_id c) (mandate_fact_grants m))"

lemma candidates_ok_narrowed:
  assumes "candidates_ok e cs" "narrowed cs ds"
  shows "candidates_ok e ds"
proof -
  have "list_all2 narrows cs ds" using assms(2) by (simp add: narrowed_def)
  then have from_cs: "\<forall>d\<in>set ds. \<exists>c\<in>set cs. narrows c d"
    by (induction rule: list_all2_induct) auto
  have "cand_fact d \<in> set (ctx_facts (env_context e)) \<and> cand_id d = rf_fact_id (cand_request d) \<and>
      cand_export_ids d = [] \<and> fact_lineage_ok (env_context e) (cand_fact d)" if "d \<in> set ds" for d
  proof -
    from from_cs that obtain c where c: "c \<in> set cs" "narrows c d" by blast
    from assms(1) c(1) narrows_fields [OF c(2)] show ?thesis by (simp add: candidates_ok_def)
  qed
  moreover have "\<forall>d\<in>set ds. required d \<longrightarrow> eligible d"
    by (rule narrowed_required [OF assms(2)]) (use assms(1) in \<open>simp add: candidates_ok_def\<close>)
  ultimately show ?thesis
    using assms(1) narrowed_requests [OF assms(2)] by (simp add: candidates_ok_def)
qed

lemma candidates_ok_map:
  assumes "candidates_ok e cs"
    and "\<And>c. c \<in> set cs \<Longrightarrow> cand_request (f c) = cand_request c \<and> cand_fact (f c) = cand_fact c \<and>
           cand_export_ids (f c) = cand_export_ids c \<and> cand_excluded_reasons (f c) = cand_excluded_reasons c"
  shows "candidates_ok e (map f cs)"
proof -
  have "map cand_request (map f cs) = map cand_request cs" using assms(2) by simp
  moreover have "cand_fact d \<in> set (ctx_facts (env_context e)) \<and> cand_id d = rf_fact_id (cand_request d) \<and>
      cand_export_ids d = [] \<and> fact_lineage_ok (env_context e) (cand_fact d) \<and> (required d \<longrightarrow> eligible d)"
    if "d \<in> set (map f cs)" for d
  proof -
    from that obtain c where c: "c \<in> set cs" "d = f c" by auto
    from assms(1) c(1) assms(2) [OF c(1)] show ?thesis
      unfolding c(2) by (simp add: candidates_ok_def required_def eligible_def)
  qed
  ultimately show ?thesis using assms(1) unfolding candidates_ok_def by metis
qed

lemma make_candidates_ok:
  assumes "make_candidates cmd ctx = Inr cs" "c \<in> set cs"
  shows "map cand_request cs = sort_key rf_fact_id (cmd_requested_facts cmd)"
    "cand_fact c \<in> set (ctx_facts ctx) \<and> cand_id c = rf_fact_id (cand_request c) \<and> eligible c \<and> cand_export_ids c = []"
proof -
  let ?ok = "\<lambda>r c. cand_request c = r \<and> cand_fact c \<in> set (ctx_facts ctx) \<and> cand_id c = rf_fact_id r \<and>
     eligible c \<and> cand_export_ids c = []"
  have "list_all2 ?ok (sort_key rf_fact_id (cmd_requested_facts cmd)) cs"
    using assms(1) unfolding make_candidates_def map_result_Inr_iff
    by (rule list_all2_mono)
      (auto simp: new_candidate_def eligible_def dest: index_by_SomeD split: option.splits)
  then have all: "map cand_request cs = sort_key rf_fact_id (cmd_requested_facts cmd) \<and>
      (\<forall>c\<in>set cs. cand_fact c \<in> set (ctx_facts ctx) \<and> cand_id c = rf_fact_id (cand_request c) \<and> eligible c \<and> cand_export_ids c = [])"
    by (induction rule: list_all2_induct) auto
  then show "map cand_request cs = sort_key rf_fact_id (cmd_requested_facts cmd)"
    "cand_fact c \<in> set (ctx_facts ctx) \<and> cand_id c = rf_fact_id (cand_request c) \<and> eligible c \<and> cand_export_ids c = []"
    using assms(2) by auto
qed

lemma ownership_candidates:
  assumes "ownership e st = Inr st'"
  shows "candidates_ok e (st_candidates st') \<and> (\<forall>c\<in>set (st_candidates st'). eligible c)" "st_view st' = st_view st"
    "unique_context (env_context e)"
proof -
  from assms obtain cs where u: "unique_context (env_context e)"
    and cs: "make_candidates (env_command e) (env_context e) = Inr cs"
    and l: "List.find (\<lambda>c. \<not> fact_lineage_ok (env_context e) (cand_fact c)) cs = None"
    and st': "st' = passed OWNERSHIP (st\<lparr>st_candidates := cs\<rparr>)"
    by (auto simp: ownership_def Let_def split: if_splits sum.splits option.splits)
  have "fact_lineage_ok (env_context e) (cand_fact c)" if "c \<in> set cs" for c
    using l that by (auto simp: find_None_iff)
  moreover have "cs = [] \<Longrightarrow> sort_key rf_fact_id (cmd_requested_facts (env_command e)) = []"
    using cs by (auto simp: make_candidates_def map_result_Inr_iff)
  ultimately show "candidates_ok e (st_candidates st') \<and> (\<forall>c\<in>set (st_candidates st'). eligible c)"
    using make_candidates_ok [OF cs] st' unfolding candidates_ok_def
    by (cases cs) auto
  show "st_view st' = st_view st" "unique_context (env_context e)" using st' u by simp_all
qed

lemma selection_candidates:
  assumes "current_mandate_selection e st = Inr st'" "candidates_ok e (st_candidates st)"
  shows "candidates_ok e (st_candidates st')"
    "c \<in> set (st_candidates st') \<Longrightarrow> eligible c \<Longrightarrow>
       \<exists>p\<in>set (ctx_mandate_pointers (env_context e)). cand_pointer c = Some p"
proof -
  let ?sel = "\<lambda>c. c\<lparr>cand_pointer := index_by pointer_contributor_id (ctx_mandate_pointers (env_context e))
      (fact_contributor_id (cand_fact c))\<rparr>"
  let ?st = "st\<lparr>st_candidates := map ?sel (st_candidates st)\<rparr>"
  from assms(1) have g: "apply_item_gate e CURRENT_MANDATE_SELECTION
      (\<lambda>c. if cand_pointer c = None then Some CR_MANDATE_NOT_FOUND else None) ?st = Inr st'"
    by (simp add: current_mandate_selection_def Let_def split: if_splits)
  have "candidates_ok e (st_candidates ?st)"
    using candidates_ok_map [OF assms(2), of ?sel] by simp
  then show "candidates_ok e (st_candidates st')"
    using candidates_ok_narrowed item_narrowing.narrows [OF g] by blast
  assume c: "c \<in> set (st_candidates st')" "eligible c"
  have "cand_pointer c \<noteq> None" using item_gate_vets [OF g c] by (auto split: if_splits)
  moreover from item_narrowing.eligible_before [OF g c] obtain b where "c = ?sel b" by auto
  ultimately show "\<exists>p\<in>set (ctx_mandate_pointers (env_context e)). cand_pointer c = Some p"
    by (auto dest: index_by_SomeD)
qed

lemma bind_mandate_Some:
  assumes "bind_mandate (env_hash e) (ctx_mandates (env_context e)) c = Some d"
    "cand_pointer c = Some p" "p \<in> set (ctx_mandate_pointers (env_context e))"
  shows "bound e d" "cand_request d = cand_request c" "cand_fact d = cand_fact c"
    "cand_export_ids d = cand_export_ids c" "cand_excluded_reasons d = cand_excluded_reasons c"
  using assms
  by (auto simp: bind_mandate_def bound_def dest: index_by_SomeD split: option.splits if_splits)

lemma integrity_candidates:
  assumes "mandate_version_integrity e st = Inr st'" "candidates_ok e (st_candidates st)"
    "\<And>c. c \<in> set (st_candidates st) \<Longrightarrow> eligible c \<Longrightarrow>
       \<exists>p\<in>set (ctx_mandate_pointers (env_context e)). cand_pointer c = Some p"
  shows "candidates_ok e (st_candidates st')"
    "\<forall>c\<in>set (st_candidates st'). eligible c \<longrightarrow> bound e c"
    "distinct (map mandate_key (ctx_mandates (env_context e)))"
proof -
  let ?bind = "bind_mandate (env_hash e) (ctx_mandates (env_context e))"
  let ?f = "\<lambda>c. if eligible c then the (?bind c) else c"
  from assms(1) have none: "List.find (\<lambda>c. eligible c \<and> ?bind c = None) (st_candidates st) = None"
    and cs: "st_candidates st' = map ?f (st_candidates st)"
    and "distinct (map mandate_key (ctx_mandates (env_context e)))"
    by (auto simp: mandate_version_integrity_def Let_def split: if_splits option.splits)
  then show "distinct (map mandate_key (ctx_mandates (env_context e)))" by simp
  have f: "cand_request (?f c) = cand_request c \<and> cand_fact (?f c) = cand_fact c \<and>
      cand_export_ids (?f c) = cand_export_ids c \<and> cand_excluded_reasons (?f c) = cand_excluded_reasons c \<and>
      (eligible c \<longrightarrow> bound e (?f c))"
    if "c \<in> set (st_candidates st)" for c
  proof (cases "eligible c")
    case True
    with none that obtain d where "?bind c = Some d" by (auto simp: find_None_iff)
    moreover from assms(3) [OF that True] obtain p where
      "p \<in> set (ctx_mandate_pointers (env_context e))" "cand_pointer c = Some p" by blast
    ultimately show ?thesis using bind_mandate_Some True by simp
  qed simp
  show "candidates_ok e (st_candidates st')"
    unfolding cs by (rule candidates_ok_map [OF assms(2)]) (use f in blast)
  have "bound e (?f c)" if "c \<in> set (st_candidates st)" "eligible (?f c)" for c
  proof -
    from f [OF that(1)] that(2) have "eligible c" unfolding eligible_def by metis
    with f [OF that(1)] show ?thesis by blast
  qed
  then show "\<forall>c\<in>set (st_candidates st'). eligible c \<longrightarrow> bound e c"
    unfolding cs set_map by blast
qed

section \<open>What the gates established\<close>

definition authorized :: "compile_env \<Rightarrow> candidate \<Rightarrow> bool" where
  "authorized e c \<longleftrightarrow> bound e c \<and> approval_reason c = None \<and>
     revocation_reason (cmd_requested_at (env_command e)) c = None \<and>
     expiration_reason (cmd_requested_at (env_command e)) c = None \<and>
     destination_reason (cmd_destination (env_command e)) (ctx_destination_registry_entry (env_context e)) c = None \<and>
     purpose_reason (cmd_purpose (env_command e)) c = None \<and>
     scope_reason c = None \<and> identity_reason c = None \<and> reidentification_reason c = None \<and>
     minimum_necessity_reason (env_command e) c = None"

lemma reidentification_vets:
  assumes "reidentification e st = Inr st'" "c \<in> set (st_candidates st')" "eligible c"
  shows "reidentification_reason c = None"
proof -
  from assms(1) obtain cs rs cs' rs' where r: "item_loop reidentification_reason (st_candidates st) = Inr (cs, rs)"
    "bucket_loop (sort_key (\<lambda>g. fact_type_text (fst g)) (st_aggregate_groups st)) cs rs = Inr (cs', rs')"
    "st_candidates st' = cs'"
    by (auto simp: reidentification_def split: sum.splits)
  from narrowed_eligible [OF bucket_loop_Inr [OF r(2)], of c] assms(2,3) r(3) have "c \<in> set cs" by simp
  with item_loop_Inr [OF r(1)] assms(3) show ?thesis by blast
qed

lemmas eligible_befores = item_narrowing.eligible_before aggregation_narrowing.eligible_before
  independence_narrowing.eligible_before reidentification_narrowing.eligible_before
  evidence_narrowing.eligible_before

lemmas narrowings = item_narrowing.narrows aggregation_narrowing.narrows independence_narrowing.narrows
  reidentification_narrowing.narrows evidence_narrowing.narrows

lemma vetting_authorizes:
  assumes "run_steps (vetting_gates e) compile_start = Inr s20"
  shows "candidates_ok e (st_candidates s20)" "\<forall>c\<in>set (st_candidates s20). eligible c \<longrightarrow> authorized e c"
    "unique_context (env_context e)" "distinct (map mandate_key (ctx_mandates (env_context e)))"
    "validate_compile_command_shape (env_command e) = Inr ()"
proof -
  have "candidates_ok e (st_candidates s20) \<and> (\<forall>c\<in>set (st_candidates s20). eligible c \<longrightarrow> authorized e c) \<and>
    unique_context (env_context e) \<and> distinct (map mandate_key (ctx_mandates (env_context e))) \<and>
    validate_compile_command_shape (env_command e) = Inr ()"
    using assms
  proof (rule vetting_chain, goal_cases)
    case (1 s1 s2 s3 s4 s5 s6 s7 s8 s9 s10 s11 s12 s13 s14 s15 s16 s17 s18 s19)
    note sel = selection_candidates [OF 1(7) conjunct1 [OF ownership_candidates(1) [OF 1(6)]]]
    note int = integrity_candidates [OF 1(8) sel]
    note k9 = candidates_ok_narrowed [OF int(1) narrowings(1) [OF 1(9)]]
    note k10 = candidates_ok_narrowed [OF k9 narrowings(1) [OF 1(10)]]
    note k11 = candidates_ok_narrowed [OF k10 narrowings(1) [OF 1(11)]]
    note k12 = candidates_ok_narrowed [OF k11 narrowings(1) [OF 1(12)]]
    note k13 = candidates_ok_narrowed [OF k12 narrowings(1) [OF 1(13)]]
    note k14 = candidates_ok_narrowed [OF k13 narrowings(1) [OF 1(14)]]
    note k15 = candidates_ok_narrowed [OF k14 narrowings(1) [OF 1(15)]]
    note k16 = candidates_ok_narrowed [OF k15 narrowings(2) [OF 1(16)]]
    note k17 = candidates_ok_narrowed [OF k16 narrowings(3) [OF 1(17)]]
    note k18 = candidates_ok_narrowed [OF k17 narrowings(4) [OF 1(18)]]
    note k19 = candidates_ok_narrowed [OF k18 narrowings(1) [OF 1(19)]]
    note k20 = candidates_ok_narrowed [OF k19 narrowings(5) [OF 1(20)]]
    have "candidates_ok e (st_candidates s20)" by (rule k20)
    moreover have "authorized e c" if c: "c \<in> set (st_candidates s20)" "eligible c" for c
    proof -
      note c19 = eligible_befores(5) [OF 1(20) c]
      note c18 = eligible_befores(1) [OF 1(19) c19 c(2)]
      note c17 = eligible_befores(4) [OF 1(18) c18 c(2)]
      note c16 = eligible_befores(3) [OF 1(17) c17 c(2)]
      note c15 = eligible_befores(2) [OF 1(16) c16 c(2)]
      note c14 = eligible_befores(1) [OF 1(15) c15 c(2)]
      note c13 = eligible_befores(1) [OF 1(14) c14 c(2)]
      note c12 = eligible_befores(1) [OF 1(13) c13 c(2)]
      note c11 = eligible_befores(1) [OF 1(12) c12 c(2)]
      note c10 = eligible_befores(1) [OF 1(11) c11 c(2)]
      note c9 = eligible_befores(1) [OF 1(10) c10 c(2)]
      note c8 = eligible_befores(1) [OF 1(9) c9 c(2)]
      show ?thesis
        unfolding authorized_def
        using int(2) c8 c(2) item_gate_vets [OF 1(9) c9 c(2)] item_gate_vets [OF 1(10) c10 c(2)]
          item_gate_vets [OF 1(11) c11 c(2)] item_gate_vets [OF 1(12) c12 c(2)] item_gate_vets [OF 1(13) c13 c(2)]
          item_gate_vets [OF 1(14) c14 c(2)] item_gate_vets [OF 1(15) c15 c(2)]
          reidentification_vets [OF 1(18) c18 c(2)] item_gate_vets [OF 1(19) c19 c(2)]
        by blast
    qed
    ultimately show ?case
      using 1(1) ownership_candidates(3) [OF 1(6)] int(3)
      by (auto simp: request_schema_def split: sum.splits)
  qed
  then show "candidates_ok e (st_candidates s20)" "\<forall>c\<in>set (st_candidates s20). eligible c \<longrightarrow> authorized e c"
    "unique_context (env_context e)" "distinct (map mandate_key (ctx_mandates (env_context e)))"
    "validate_compile_command_shape (env_command e) = Inr ()" by blast+
qed

lemma gates_authorize:
  assumes "run_steps (compile_gates e) compile_start = Inr st"
  obtains s st' where "transformation e s = Inr st'" "st = passed AUDIT_HASH st'"
    "candidates_ok e (st_candidates s)" "\<forall>c\<in>set (st_candidates s). eligible c \<longrightarrow> authorized e c"
    "unique_context (env_context e)" "distinct (map mandate_key (ctx_mandates (env_context e)))"
    "validate_compile_command_shape (env_command e) = Inr ()"
proof -
  from assms obtain s st' where "run_steps (vetting_gates e) compile_start = Inr s" "transformation e s = Inr st'"
    "st = passed AUDIT_HASH st'"
    by (auto simp: compile_gates_split run_steps_append result_simps audit_hash_def)
  with vetting_authorizes show ?thesis by (intro that [of s st']) blast+
qed

end
