(* ===== verification/Compiler_Exports.thy ===== *)
theory Compiler_Exports
  imports Compiler_Properties
begin

text \<open>
  What \<open>_transform\<close> exports: every eligible candidate exactly once, and every output made by one
  registered rule from eligible candidates that share its scope. Then the inversion of an allowed
  compile, on which the properties rest.
\<close>

section \<open>Folds and groups\<close>

lemma mset_concat_group_add: "mset (concat (map snd (group_add k v gs))) = add_mset v (mset (concat (map snd gs)))"
  by (induction k v gs rule: group_add.induct) auto

lemma mset_concat_group_all: "mset (concat (map snd (group_all key val xs))) = mset (map val xs)"
proof -
  have "mset (concat (map snd (fold (\<lambda>x gs. group_add (key x) (val x) gs) xs gs))) =
      mset (map val xs) + mset (concat (map snd gs))" for gs
    by (induction xs arbitrary: gs) (auto simp: mset_concat_group_add)
  then show ?thesis by (simp add: group_all_def)
qed

lemma mset_concat_mset: "mset (concat xss) = sum_mset (image_mset mset (mset xss))"
  by (metis mset_concat mset_map sum_mset_sum_list)

lemma mset_concat_sort_key: "mset (concat (map snd (sort_key f gs))) = mset (concat (map snd gs))"
  by (simp add: mset_concat_mset)

lemma foldE_invariant:
  assumes "\<And>x s t. x \<in> set xs \<Longrightarrow> I s \<Longrightarrow> f x s = Inr t \<Longrightarrow> I t"
  shows "foldE f xs s = Inr t \<Longrightarrow> I s \<Longrightarrow> I t"
  using assms by (induction xs arbitrary: s) (auto simp: result_simps)

section \<open>The exported identifiers\<close>

definition exported :: "transform_state \<Rightarrow> fact_id list" where
  "exported ts = map fst (ts_exports ts)"

lemma add_output_exported [simp]:
  "exported (add_output eid members out ts) = exported ts @ map cand_id members"
  "ts_grouped (add_output eid members out ts) = ts_grouped ts"
  "ts_facts (add_output eid members out ts) = ts_facts ts @ [out]"
  "ts_refs (add_output eid members out ts) = ts_refs ts"
  "ts_by_source (add_output eid members out ts) = ts_by_source ts"
  "ts_exports (add_output eid members out ts) = ts_exports ts @ map (\<lambda>c. (cand_id c, eid)) members"
  by (simp_all add: add_output_def exported_def comp_def)

lemma add_group_Inr:
  "add_group e scope members ts = Inr ts' \<longleftrightarrow>
     (\<exists>out. transform_facts (env_hash e) (Ident (export_id e ts)) (map cand_fact members) scope = Inr out \<and>
        ts' = (add_output (export_id e ts) members out ts)\<lparr>ts_grouped := ts_grouped ts @ map cand_id members\<rparr>)"
  by (auto simp: add_group_def Let_def result_simps)

lemma safe_ref_for_exported:
  "safe_ref_for e i ts = Inr (r, ts') \<Longrightarrow> ts_exports ts' = ts_exports ts \<and> ts_grouped ts' = ts_grouped ts \<and>
     ts_facts ts' = ts_facts ts"
  by (auto simp: safe_ref_for_def result_simps split: option.splits)

lemma foldE_add_group_exported:
  "foldE (\<lambda>(k, members). add_group e (sc k) members) gs ts = Inr ts' \<Longrightarrow>
     exported ts' = exported ts @ map cand_id (concat (map snd gs)) \<and>
     ts_grouped ts' = ts_grouped ts @ map cand_id (concat (map snd gs))"
proof (induction gs arbitrary: ts)
  case (Cons g gs)
  obtain k members where g: "g = (k, members)" by force
  from Cons.prems g obtain s where s: "add_group e (sc k) members ts = Inr s"
    "foldE (\<lambda>(k, members). add_group e (sc k) members) gs s = Inr ts'" by (auto simp: result_simps)
  from s(1) have "exported s = exported ts @ map cand_id members"
    "ts_grouped s = ts_grouped ts @ map cand_id members"
    by (auto simp: add_group_Inr exported_def comp_def)
  with Cons.IH [OF s(2)] g show ?case by simp
qed simp

lemma add_single_exported:
  assumes "add_single e c ts = Inr ts'"
  shows "exported ts' = exported ts @
      (if cand_grant c \<noteq> None \<and> cand_id c \<notin> set (ts_grouped ts) then [cand_id c] else [])"
    "ts_grouped ts' = ts_grouped ts"
proof -
  have *: "exported ts' = exported ts @
      (if cand_grant c \<noteq> None \<and> cand_id c \<notin> set (ts_grouped ts) then [cand_id c] else []) \<and>
      ts_grouped ts' = ts_grouped ts"
  proof (cases "cand_grant c = None \<or> cand_id c \<in> set (ts_grouped ts)")
    case True
    with assms show ?thesis by (auto simp: add_single_def split: option.splits)
  next
    case False
    then show ?thesis
      using assms safe_ref_for_exported
      by (auto simp: add_single_def Let_def result_simps exported_def split: option.splits if_splits prod.splits)
  qed
  then show "exported ts' = exported ts @
      (if cand_grant c \<noteq> None \<and> cand_id c \<notin> set (ts_grouped ts) then [cand_id c] else [])"
    "ts_grouped ts' = ts_grouped ts" by simp_all
qed

lemma foldE_add_single_exported:
  "foldE (add_single e) cs ts = Inr ts' \<Longrightarrow>
     exported ts' = exported ts @ map cand_id (filter (\<lambda>c. cand_grant c \<noteq> None \<and> cand_id c \<notin> set (ts_grouped ts)) cs)"
proof (induction cs arbitrary: ts)
  case (Cons c cs)
  from Cons.prems obtain s where s: "add_single e c ts = Inr s" "foldE (add_single e) cs s = Inr ts'"
    by (auto simp: result_simps)
  from Cons.IH [OF s(2)] add_single_exported [OF s(1)] show ?case by simp
qed simp

definition exportable :: "candidate list \<Rightarrow> candidate list" where
  "exportable cs = filter (\<lambda>c. eligible c \<and> cand_grant c \<noteq> None) cs"

definition grouped_first :: "candidate \<Rightarrow> bool" where
  "grouped_first c \<longleftrightarrow> is_aggregate c \<or> fact_type (cand_fact c) = INCIDENT_OCCURRENCE"

text \<open>The three loops of \<open>_transform\<close>, with the groups they run over.\<close>

lemma transform_loops:
  assumes "transform e cs = Inr ts"
  obtains ag ig t1 t2 where
    "ag = group_all (\<lambda>c. fact_type (cand_fact c)) id (filter is_aggregate (exportable cs))"
    "ig = group_all (\<lambda>c. grant_max_scope (the (cand_grant c))) id
       (filter (\<lambda>c. \<not> is_aggregate c \<and> fact_type (cand_fact c) = INCIDENT_OCCURRENCE) (exportable cs))"
    "foldE (\<lambda>(_, members). add_group e AGGREGATE_ONLY members) (sort_key (\<lambda>g. fact_type_text (fst g)) ag) transform_start = Inr t1"
    "foldE (\<lambda>(scope, members). add_group e scope members) (sort_key (\<lambda>g. scope_text (fst g)) ig) t1 = Inr t2"
    "foldE (add_single e) (exportable cs) t2 = Inr ts"
  using assms unfolding transform_def Let_def bindE_Inr_iff exportable_def [symmetric] by blast

lemma transform_exported:
  assumes "transform e cs = Inr ts" "distinct (map cand_id cs)"
  shows "mset (exported ts) = mset (map cand_id (exportable cs))"
  using assms(1)
proof (rule transform_loops)
  let ?el = "exportable cs"
  let ?agg = "filter is_aggregate ?el"
  let ?inc = "filter (\<lambda>c. \<not> is_aggregate c \<and> fact_type (cand_fact c) = INCIDENT_OCCURRENCE) ?el"
  fix ag ig t1 t2
  assume ag: "ag = group_all (\<lambda>c. fact_type (cand_fact c)) id ?agg"
    and ig: "ig = group_all (\<lambda>c. grant_max_scope (the (cand_grant c))) id ?inc"
    and f1: "foldE (\<lambda>(_, members). add_group e AGGREGATE_ONLY members) (sort_key (\<lambda>g. fact_type_text (fst g)) ag) transform_start = Inr t1"
    and f2: "foldE (\<lambda>(scope, members). add_group e scope members) (sort_key (\<lambda>g. scope_text (fst g)) ig) t1 = Inr t2"
    and f3: "foldE (add_single e) ?el t2 = Inr ts"
  note e1 = foldE_add_group_exported [of e "\<lambda>_. AGGREGATE_ONLY", OF f1]
  note e2 = foldE_add_group_exported [of e "\<lambda>k. k", OF f2]
  have m1: "mset (map cand_id (concat (map snd (sort_key (\<lambda>g. fact_type_text (fst g)) ag)))) = mset (map cand_id ?agg)"
    unfolding mset_map mset_concat_sort_key unfolding ag mset_concat_group_all by simp
  have m2: "mset (map cand_id (concat (map snd (sort_key (\<lambda>g. scope_text (fst g)) ig)))) = mset (map cand_id ?inc)"
    unfolding mset_map mset_concat_sort_key unfolding ig mset_concat_group_all by simp
  have g2: "mset (ts_grouped t2) = mset (map cand_id ?agg) + mset (map cand_id ?inc)"
    and x2: "mset (exported t2) = mset (map cand_id ?agg) + mset (map cand_id ?inc)"
    using e1 e2 m1 m2 by (simp_all add: transform_start_def exported_def)
  have inj: "inj_on cand_id (set ?el)"
    using assms(2) by (auto simp: exportable_def distinct_map inj_on_def)
  have "set (ts_grouped t2) = cand_id ` (set ?agg \<union> set ?inc)"
    using arg_cong [OF g2, of set_mset] by (simp add: image_Un)
  then have grouped: "cand_id c \<in> set (ts_grouped t2) \<longleftrightarrow> grouped_first c" if "c \<in> set ?el" for c
    using that inj by (auto simp: grouped_first_def inj_on_def)
  have "filter (\<lambda>c. cand_grant c \<noteq> None \<and> cand_id c \<notin> set (ts_grouped t2)) ?el = filter (\<lambda>c. \<not> grouped_first c) ?el"
    by (rule filter_cong) (use grouped in \<open>auto simp: exportable_def\<close>)
  then have "mset (exported ts) = mset (exported t2) + mset (map cand_id (filter (\<lambda>c. \<not> grouped_first c) ?el))"
    using foldE_add_single_exported [OF f3] by simp
  also have "mset (exported t2) = mset (map cand_id (filter grouped_first ?el))"
  proof -
    have "mset (filter grouped_first xs) = mset (filter is_aggregate xs) +
        mset (filter (\<lambda>c. \<not> is_aggregate c \<and> fact_type (cand_fact c) = INCIDENT_OCCURRENCE) xs)" for xs
      by (induction xs) (auto simp: grouped_first_def)
    then show ?thesis unfolding x2 by simp
  qed
  also have "mset (map cand_id (filter grouped_first ?el)) + mset (map cand_id (filter (\<lambda>c. \<not> grouped_first c) ?el))
      = mset (map cand_id ?el)"
    by (simp flip: image_mset_union add: multiset_partition [symmetric])
  finally show ?thesis .
qed

lemma with_exports_nonempty:
  assumes "transform e cs = Inr ts" "distinct (map cand_id cs)" "c \<in> set cs" "cand_export_ids c = []"
  shows "cand_export_ids (with_exports ts c) \<noteq> [] \<longleftrightarrow> eligible c \<and> cand_grant c \<noteq> None"
proof -
  have "set (exported ts) = cand_id ` set (exportable cs)"
    using arg_cong [OF transform_exported [OF assms(1,2)], of set_mset] by simp
  moreover have "inj_on cand_id (set cs)" using assms(2) by (simp add: distinct_map)
  ultimately have "cand_id c \<in> set (exported ts) \<longleftrightarrow> eligible c \<and> cand_grant c \<noteq> None"
    using assms(3) by (auto simp: exportable_def inj_on_def)
  moreover have "cand_export_ids (with_exports ts c) \<noteq> [] \<longleftrightarrow> cand_id c \<in> set (exported ts)"
    using assms(4) by (force simp: with_exports_def exported_def filter_empty_conv)
  ultimately show ?thesis by simp
qed

section \<open>What an output is made from\<close>

definition scope_of :: "candidate \<Rightarrow> disclosure_scope" where
  "scope_of c = (case cand_grant c of None \<Rightarrow> INTERNAL_ONLY | Some g \<Rightarrow> grant_max_scope g)"

definition safe_ref_of :: "compile_env \<Rightarrow> evidence_item_id \<Rightarrow> shareable_evidence_ref \<Rightarrow> bool" where
  "safe_ref_of e i r \<longleftrightarrow>
     (\<exists>s rid. index_by se_source_evidence_id (ctx_safe_evidence_candidates (env_context e)) i = Some s \<and>
        build_safe_evidence_ref (env_hash e) s rid = Inr r)"

inductive made_from :: "compile_env \<Rightarrow> candidate list \<Rightarrow> shareable_fact \<Rightarrow> bool" for e el where
  rule: "members \<noteq> [] \<Longrightarrow> set members \<subseteq> set el \<Longrightarrow> \<forall>c\<in>set members. scope_of c = scope \<Longrightarrow>
    transform_facts (env_hash e) eid (map cand_fact members) scope = Inr out \<Longrightarrow> made_from e el out"
| photo: "c \<in> set el \<Longrightarrow> fact_type (cand_fact c) = EVIDENCE_DESCRIPTION \<Longrightarrow>
    i \<in> set (requested_evidence (env_command e) (cand_fact c)) \<Longrightarrow> safe_ref_of e i r \<Longrightarrow>
    transform_evidence_description (env_hash e) eid (cand_fact c) (scope_of c) r = Inr out \<Longrightarrow> made_from e el out"

definition outputs_ok :: "compile_env \<Rightarrow> candidate list \<Rightarrow> transform_state \<Rightarrow> bool" where
  "outputs_ok e el ts \<longleftrightarrow>
     (\<forall>out\<in>set (ts_facts ts). made_from e el out) \<and>
     (\<forall>i r. ts_by_source ts i = Some r \<longrightarrow> safe_ref_of e i r) \<and>
     (\<forall>r\<in>set (ts_refs ts). \<exists>i. safe_ref_of e i r)"

lemma outputs_ok_start: "outputs_ok e el transform_start"
  by (simp add: outputs_ok_def transform_start_def)

lemma outputs_ok_group:
  assumes "add_group e scope members ts = Inr ts'" "outputs_ok e el ts"
    "members \<noteq> []" "set members \<subseteq> set el" "\<forall>c\<in>set members. scope_of c = scope"
  shows "outputs_ok e el ts'"
proof -
  from assms(1) obtain out where
    o: "transform_facts (env_hash e) (Ident (export_id e ts)) (map cand_fact members) scope = Inr out"
    and ts': "ts' = (add_output (export_id e ts) members out ts)\<lparr>ts_grouped := ts_grouped ts @ map cand_id members\<rparr>"
    by (auto simp: add_group_Inr)
  from made_from.rule [OF assms(3-5) o] assms(2) show ?thesis by (simp add: outputs_ok_def ts')
qed

lemma safe_ref_for_ok:
  assumes "safe_ref_for e i ts = Inr (r, ts')" "outputs_ok e el ts"
  shows "safe_ref_of e i r" "outputs_ok e el ts'"
proof -
  have "safe_ref_of e i r \<and> outputs_ok e el ts'"
  proof (cases "ts_by_source ts i")
    case None
    with assms(1) obtain s where "index_by se_source_evidence_id (ctx_safe_evidence_candidates (env_context e)) i = Some s"
      "build_safe_evidence_ref (env_hash e) s (Ident (env_ids e MintSafeEvidenceRef (ts_next ts))) = Inr r"
      and ts': "ts' = ts\<lparr>ts_by_source := (ts_by_source ts)(i \<mapsto> r), ts_refs := ts_refs ts @ [r], ts_next := ts_next ts + 1\<rparr>"
      by (auto simp: safe_ref_for_def result_simps split: option.splits)
    then have r: "safe_ref_of e i r" unfolding safe_ref_of_def by blast
    with assms(2) show ?thesis unfolding outputs_ok_def ts' by auto
  next
    case (Some r')
    with assms show ?thesis
      by (auto simp: safe_ref_for_def outputs_ok_def split: option.splits)
  qed
  then show "safe_ref_of e i r" "outputs_ok e el ts'" by simp_all
qed

lemma outputs_ok_single:
  assumes "add_single e c ts = Inr ts'" "outputs_ok e el ts" "c \<in> set el"
  shows "outputs_ok e el ts'"
proof (cases "cand_grant c = None \<or> cand_id c \<in> set (ts_grouped ts)")
  case True
  with assms show ?thesis by (auto simp: add_single_def split: option.splits)
next
  case False
  then obtain g where g: "cand_grant c = Some g" "cand_id c \<notin> set (ts_grouped ts)" by auto
  then have sc: "scope_of c = grant_max_scope g" by (simp add: scope_of_def)
  let ?req = "requested_evidence (env_command e) (cand_fact c)"
  show ?thesis
  proof (cases "fact_type (cand_fact c) = EVIDENCE_DESCRIPTION \<and> ?req \<noteq> []")
    case True
    with assms(1) g obtain r t1 out where r: "safe_ref_for e (hd ?req) ts = Inr (r, t1)"
      and o: "transform_evidence_description (env_hash e) (Ident (export_id e t1)) (cand_fact c) (scope_of c) r = Inr out"
      and ts': "ts' = add_output (export_id e t1) [c] out t1"
      by (auto simp: add_single_def Let_def result_simps sc)
    note ok = safe_ref_for_ok [OF r assms(2)]
    have "made_from e el out" by (rule made_from.photo [OF assms(3) _ _ ok(1) o]) (use True in auto)
    with ok(2) show ?thesis by (simp add: outputs_ok_def ts')
  next
    case no: False
    with assms(1) g obtain out where
      o: "transform_facts (env_hash e) (Ident (export_id e ts)) (map cand_fact [c]) (scope_of c) = Inr out"
      and ts': "ts' = add_output (export_id e ts) [c] out ts"
      by (auto simp: add_single_def Let_def result_simps sc)
    have "made_from e el out" by (rule made_from.rule [OF _ _ _ o]) (use assms(3) in auto)
    with assms(2) show ?thesis by (simp add: outputs_ok_def ts')
  qed
qed

lemma aggregate_scope: "is_aggregate c \<Longrightarrow> scope_of c = AGGREGATE_ONLY"
  by (auto simp: is_aggregate_def scope_of_def split: option.splits)

lemma transform_outputs:
  assumes "transform e cs = Inr ts"
  shows "outputs_ok e (exportable cs) ts"
  using assms
proof (rule transform_loops)
  let ?el = "exportable cs"
  fix ag ig t1 t2
  assume ag: "ag = group_all (\<lambda>c. fact_type (cand_fact c)) id (filter is_aggregate ?el)"
    and ig: "ig = group_all (\<lambda>c. grant_max_scope (the (cand_grant c))) id
        (filter (\<lambda>c. \<not> is_aggregate c \<and> fact_type (cand_fact c) = INCIDENT_OCCURRENCE) ?el)"
    and f1: "foldE (\<lambda>(_, members). add_group e AGGREGATE_ONLY members) (sort_key (\<lambda>g. fact_type_text (fst g)) ag) transform_start = Inr t1"
    and f2: "foldE (\<lambda>(scope, members). add_group e scope members) (sort_key (\<lambda>g. scope_text (fst g)) ig) t1 = Inr t2"
    and f3: "foldE (add_single e) ?el t2 = Inr ts"
  have "outputs_ok e ?el t1"
    using f1
  proof (rule foldE_invariant [rotated])
    fix x s t
    assume x: "x \<in> set (sort_key (\<lambda>g. fact_type_text (fst g)) ag)" and "outputs_ok e ?el s"
      and "(\<lambda>(_, members). add_group e AGGREGATE_ONLY members) x s = Inr t"
    moreover obtain k ms where k: "x = (k, ms)" by force
    moreover from x k have "ms \<noteq> [] \<and> set ms \<subseteq> set (filter is_aggregate ?el)"
      by (auto simp: ag group_all_mem_iff)
    ultimately show "outputs_ok e ?el t"
      by (intro outputs_ok_group [of e AGGREGATE_ONLY ms s t]) (auto intro: aggregate_scope)
  qed (rule outputs_ok_start)
  with f2 have "outputs_ok e ?el t2"
  proof (rule foldE_invariant [rotated])
    fix x s t
    assume x: "x \<in> set (sort_key (\<lambda>g. scope_text (fst g)) ig)" and s: "outputs_ok e ?el s"
      and st: "(\<lambda>(scope, members). add_group e scope members) x s = Inr t"
    obtain k ms where k: "x = (k, ms)" by force
    from x k have m: "ms \<noteq> []" "set ms \<subseteq> set ?el"
        "\<forall>c\<in>set ms. grant_max_scope (the (cand_grant c)) = k"
      by (auto simp: ig group_all_mem_iff)
    then have "\<forall>c\<in>set ms. scope_of c = k"
      by (force simp: exportable_def scope_of_def)
    with m s st k show "outputs_ok e ?el t"
      by (intro outputs_ok_group [of e k ms s t]) simp_all
  qed
  with f3 show "outputs_ok e ?el ts"
    by (rule foldE_invariant [rotated]) (rule outputs_ok_single)
qed

section \<open>An allowed compile\<close>

lemma compile_allowed:
  assumes "compile H generators cmd ctx = Inr a"
  obtains e cs ts snapshot where "e = compile_env_of H generators cmd ctx"
    "candidates_ok e cs" "\<forall>c\<in>set cs. eligible c \<longrightarrow> authorized e c" "distinct (map cand_id cs)"
    "unique_context ctx" "distinct (map mandate_key (ctx_mandates ctx))"
    "validate_compile_command_shape cmd = Inr ()"
    "transform e cs = Inr ts" "ts_facts ts \<noteq> []"
    "authorization_snapshot e (map (with_exports ts) cs) = Inr snapshot"
    "\<not> unsafe_output (draft_view e ts (map (with_exports ts) cs) (H snapshot))"
    "allow_view a = (let d = draft_view e ts (map (with_exports ts) cs) (H snapshot) in d\<lparr>view_hash := hash_view H d\<rparr>)"
    "allow_included a = included_facts (map (with_exports ts) cs)"
    "allow_excluded a = excluded_facts (map (with_exports ts) cs)"
proof -
  let ?e = "compile_env_of H generators cmd ctx"
  have env: "env_hash ?e = H" "env_command ?e = cmd" "env_context ?e = ctx"
    by (simp_all add: compile_env_of_def Let_def)
  from assms obtain st v where run: "run_steps (compile_gates ?e) compile_start = Inr st"
    and v: "st_view st = Some v"
    and a: "allow_view a = v" "allow_included a = included_facts (st_candidates st)"
      "allow_excluded a = excluded_facts (st_candidates st)"
    by (auto simp: compile_def Let_def result_simps split: option.splits)
  from run show thesis
  proof (rule gates_authorize)
    fix s st'
    assume t: "transformation ?e s = Inr st'" and st: "st = passed AUDIT_HASH st'"
      and ok: "candidates_ok ?e (st_candidates s)" and au: "\<forall>c\<in>set (st_candidates s). eligible c \<longrightarrow> authorized ?e c"
      and u: "unique_context (env_context ?e)" "distinct (map mandate_key (ctx_mandates (env_context ?e)))"
        "validate_compile_command_shape (env_command ?e) = Inr ()"
    let ?cs = "st_candidates s"
    from t obtain ts snapshot where ts: "transform ?e ?cs = Inr ts" "ts_facts ts \<noteq> []"
      "authorization_snapshot ?e (map (with_exports ts) ?cs) = Inr snapshot"
      "\<not> unsafe_output (draft_view ?e ts (map (with_exports ts) ?cs) (H snapshot))"
      "st_candidates st' = map (with_exports ts) ?cs"
      "st_view st' = Some (let d = draft_view ?e ts (map (with_exports ts) ?cs) (H snapshot) in d\<lparr>view_hash := hash_view H d\<rparr>)"
      by (auto simp: transformation_def Let_def env split: sum.splits error.splits if_splits)
    have "map cand_id ?cs = map rf_fact_id (map cand_request ?cs)"
      unfolding map_map by (rule map_cong) (use ok in \<open>auto simp: candidates_ok_def\<close>)
    also have "map cand_request ?cs = sort_key rf_fact_id (cmd_requested_facts cmd)"
      using ok by (simp add: candidates_ok_def env)
    finally have "distinct (map cand_id ?cs)"
      using u(3) by (simp add: env validate_compile_command_shape_def unique_def result_simps)
    then show thesis
      using ts u ok au a v st by (intro that [of ?e ?cs ts snapshot]) (simp_all add: env)
  qed
qed

end
