(* ===== verification/Compiler_Example.thy ===== *)
theory Compiler_Example
  imports Compiler_Exports
begin

text \<open>
  A small case on which the compiler allows an export: two contributors, two reports, two facts,
  the current approved mandate of the first contributor, and a request for the first fact. The
  witnesses of the compiler's properties are stated on it.
\<close>

definition ex_hash :: hasher where "ex_hash v = Sha256Digest ''sha256:1''"

definition ex_generators :: "uuid \<Rightarrow> id_source" where "ex_generators compile_id kind n = 100 + n"

definition ex_now :: datetime where "ex_now = utc 1000000000"

definition ex_case :: community_case where
  "ex_case =
     \<lparr>case_case_id = Ident 1, case_community_id = Ident 2, case_namespace = Namespace ''DEMO'',
      case_title = ''Elevator'', case_issue_type = ''ELEVATOR'', case_current_state = READY_FOR_ACTION,
      case_report_ids = [Ident 21, Ident 22], case_fact_ids = [Ident 31, Ident 32],
      case_assessment_id = None, case_current_view_id = None, case_current_action_id = None,
      case_corroboration_count = 2, case_reason_code = ''READY'', case_version = 4,
      case_authorization_version = 3, case_created_at = utc 0, case_updated_at = utc 0,
      case_resolved_at = None, case_closed_at = None\<rparr>"

definition ex_report :: "nat \<Rightarrow> report" where
  "ex_report n =
     \<lparr>report_id = Ident (20 + n), report_case_id = Some (Ident 1), report_community_id = Ident 2,
      report_contributor_id = Ident (10 + n), report_namespace = Namespace ''DEMO'',
      report_source_message_ids = [Ident (40 + n)], report_issue_type = ''ELEVATOR'',
      report_private_summary = SensitiveStr ''stuck again'', report_occurred_at = None,
      report_location_area = None, report_evidence_ids = [], report_status = RS_ACTIVE,
      report_duplicate_of = None, report_version = 1, report_created_at = utc 0, report_updated_at = utc 0\<rparr>"

definition ex_fact :: "nat \<Rightarrow> fact" where
  "ex_fact n =
     \<lparr>fact_id = Ident (30 + n), fact_case_id = Ident 1, fact_report_id = Ident (20 + n),
      fact_community_id = Ident 2, fact_contributor_id = Ident (10 + n),
      fact_namespace = Namespace ''DEMO'', fact_type = LOCATION_AREA, fact_value = LocationArea LA_LOBBY,
      fact_sensitivity = SC_GENERAL, fact_evidence_ids = [], fact_evidence_status = ES_CORROBORATED,
      fact_source_message_ids = [Ident (40 + n)], fact_supersedes = None, fact_status = FS_ACTIVE,
      fact_version = 1, fact_created_at = utc 0, fact_updated_at = utc 0\<rparr>"

definition ex_destination :: safe_destination where
  "ex_destination =
     \<lparr>sd_destination_id = DestinationId ''manager:one'', sd_kind = PROPERTY_MANAGER,
      sd_registry_version = 1, sd_routing_token = 7, sd_display_label = ''Manager''\<rparr>"

definition ex_mandate :: disclosure_mandate where
  "ex_mandate =
     \<lparr>mandate_id = Ident 51, mandate_version = 2, mandate_case_id = Ident 1, mandate_community_id = Ident 2,
      mandate_contributor_id = Ident 11, mandate_namespace = Namespace ''DEMO'', mandate_status = MS_APPROVED,
      mandate_fact_grants = [\<lparr>grant_fact_id = Ident 31, grant_max_scope = ANONYMOUS_CASE,
        grant_allow_safe_transformation = True\<rparr>],
      mandate_identity_grant = NO_IDENTITY_GRANT,
      mandate_allowed_destination_ids = [DestinationId ''manager:one''],
      mandate_allowed_purposes = [REQUEST_ELEVATOR_REPAIR_AND_RESPONSE],
      mandate_valid_from = utc 0, mandate_expires_at = Some (utc 1500000000), mandate_proposed_at = utc 0,
      mandate_decided_at = Some (utc 10), mandate_revoked_at = None,
      mandate_decision_actor_id = Some (Ident 11), mandate_supersedes_version = Some 1,
      mandate_terms_hash = Sha256Digest ''sha256:1'', mandate_created_at = utc 10, mandate_updated_at = utc 10\<rparr>"

definition ex_pointer :: current_mandate_pointer where
  "ex_pointer =
     \<lparr>pointer_mandate_id = Ident 51, pointer_version = 2, pointer_case_id = Ident 1,
      pointer_contributor_id = Ident 11, pointer_terms_hash = Sha256Digest ''sha256:1''\<rparr>"

definition ex_context :: compile_context where
  "ex_context =
     \<lparr>ctx_case = ex_case, ctx_community_public_label = ''Riverside'', ctx_facts = [ex_fact 1, ex_fact 2],
      ctx_reports = [ex_report 1, ex_report 2], ctx_evidence_items = [], ctx_evidence_roots = [],
      ctx_mandates = [ex_mandate], ctx_mandate_pointers = [ex_pointer],
      ctx_destination_registry_entry = ex_destination, ctx_safe_evidence_candidates = []\<rparr>"

definition ex_command :: compile_command where
  "ex_command =
     \<lparr>cmd_compile_id = 99, cmd_namespace = Namespace ''DEMO'', cmd_case_id = Ident 1,
      cmd_expected_case_version = 4,
      cmd_requested_facts = [\<lparr>rf_fact_id = Ident 31, rf_necessity = NC_REQUIRED, rf_intended_usage = US_CLAIM\<rparr>],
      cmd_requested_evidence_ids = [], cmd_destination = ex_destination,
      cmd_purpose = REQUEST_ELEVATOR_REPAIR_AND_RESPONSE, cmd_requested_at = ex_now,
      cmd_policy_version = POLICY_VERSION, cmd_compiler_contract_version = COMPILER_CONTRACT_VERSION\<rparr>"

definition ex_env :: compile_env where
  "ex_env = compile_env_of ex_hash ex_generators ex_command ex_context"

section \<open>Gates 1 to 20\<close>

definition ex_candidate :: candidate where
  "ex_candidate =
     \<lparr>cand_request = \<lparr>rf_fact_id = Ident 31, rf_necessity = NC_REQUIRED, rf_intended_usage = US_CLAIM\<rparr>,
      cand_fact = ex_fact 1, cand_pointer = Some ex_pointer, cand_mandate = Some ex_mandate,
      cand_grant = Some \<lparr>grant_fact_id = Ident 31, grant_max_scope = ANONYMOUS_CASE,
        grant_allow_safe_transformation = True\<rparr>,
      cand_excluded_reasons = [], cand_export_ids = []\<rparr>"

definition ex_vetted :: compile_state where
  "ex_vetted = projr (run_steps (take 20 (compile_gates ex_env)) compile_start)"

lemma ex_vetted_run: "run_steps (take 20 (compile_gates ex_env)) compile_start = Inr ex_vetted"
  unfolding ex_vetted_def by (rule returns_projr) code_simp

lemma ex_vetted_candidates: "st_candidates ex_vetted = [ex_candidate]"
  by code_simp

section \<open>Gate 21\<close>

definition ex_shareable_fact :: shareable_fact where
  "ex_shareable_fact =
     \<lparr>sf_export_fact_id = Ident 101, sf_fact_type = LOCATION_AREA,
      sf_safe_text = ''The reported issue concerns the lobby.'', sf_effective_scope = ANONYMOUS_CASE,
      sf_evidence_status = ES_CORROBORATED, sf_contributor_count = 1, sf_transformation = TK_GENERALIZED,
      sf_transformation_rule_id = ''p1.location.common-area.v1'', sf_safe_evidence_ref_ids = [],
      sf_content_hash = Sha256Digest ''sha256:1''\<rparr>"

definition ex_transform :: transform_state where
  "ex_transform = \<lparr>ts_facts = [ex_shareable_fact], ts_refs = [], ts_by_source = Map.empty, ts_grouped = [],
     ts_next = 2, ts_exports = [(Ident 31, 101)]\<rparr>"

lemma ex_lobby: "worded ''LOBBY'' = ''lobby''"
  by code_simp

lemma ex_build: "build_shareable_fact ex_hash (Ident 101) [ex_fact 1] ''The reported issue concerns the lobby.''
    ANONYMOUS_CASE TK_GENERALIZED ''p1.location.common-area.v1'' [] = Inr ex_shareable_fact"
  by (simp add: build_shareable_fact_def validated_def shareable_fact_post_init_def check_defs checks.simps
      combined_evidence_status_def contributor_count_def ex_fact_def ex_shareable_fact_def ex_hash_def)

lemma ex_transform_facts: "transform_facts ex_hash (Ident 101) [ex_fact 1] ANONYMOUS_CASE = Inr ex_shareable_fact"
proof -
  have "fact_type (ex_fact 1) = LOCATION_AREA" "fact_value (ex_fact 1) = LocationArea LA_LOBBY"
    by (simp_all add: ex_fact_def)
  then show ?thesis
    using ex_build [unfolded One_nat_def]
    by (simp add: transform_facts_def transform_ordered_def transform_single_def ex_lobby)
qed

lemma ex_transform_run: "transform ex_env [ex_candidate] = Inr ex_transform"
proof -
  have c: "eligible ex_candidate" "\<not> is_aggregate ex_candidate" "cand_fact ex_candidate = ex_fact 1"
    "cand_grant ex_candidate = Some \<lparr>grant_fact_id = Ident 31, grant_max_scope = ANONYMOUS_CASE,
       grant_allow_safe_transformation = True\<rparr>"
    by (simp_all add: ex_candidate_def eligible_def is_aggregate_def)
  have f: "fact_type (ex_fact 1) = LOCATION_AREA" "fact_id (ex_fact 1) = Ident 31"
    by (simp_all add: ex_fact_def)
  have e: "env_hash ex_env = ex_hash" "env_ids ex_env k n = 100 + n" for k n
    by (simp_all add: ex_env_def compile_env_of_def Let_def ex_generators_def fun_eq_iff)
  have x: "export_id ex_env transform_start = 101" by (simp add: export_id_def e transform_start_def)
  have o: "add_output 101 [ex_candidate] ex_shareable_fact transform_start = ex_transform"
    by (simp only: add_output_def transform_start_def ex_transform_def c f list.map) simp
  have t: "transform_facts (env_hash ex_env) (Ident (export_id ex_env transform_start)) [cand_fact ex_candidate] ANONYMOUS_CASE
      = Inr ex_shareable_fact"
    unfolding x c e by (rule ex_transform_facts)
  have "add_single ex_env ex_candidate transform_start = Inr ex_transform"
    using t o by (simp add: add_single_def Let_def x c f [unfolded One_nat_def]) (simp add: transform_start_def)
  then show ?thesis
    by (simp add: transform_def c f [unfolded One_nat_def] group_all_def)
qed

definition ex_exported :: candidate where
  "ex_exported = with_exports ex_transform ex_candidate"

lemma ex_snapshot: "\<exists>v. authorization_snapshot ex_env cs = Inr v"
proof -
  have "concat (map fact_evidence_ids (active_case_facts ex_context)) = []"
    by (simp add: active_case_facts_def ex_context_def ex_fact_def)
  then show ?thesis
    by (simp only: authorization_snapshot_def ex_env_def compile_env_of_def Let_def compile_env.select_convs)
      (simp add: ex_command_def)
qed

lemma ex_relied: "relied_mandates [ex_exported] = [ex_mandate]"
  by code_simp

lemma ex_expiry: "view_expiry ex_now [ex_mandate] = utc 1500000000"
  by code_simp

text \<open>Every key and every string of the draft view, scanned once.\<close>

definition ex_keys :: "string list" where
  "ex_keys =
     [''value'', ''destination_id'', ''kind'', ''registry_version'', ''routing_token'', ''display_label'',
      ''mandate_id'', ''version'', ''terms_hash'', ''export_fact_id'', ''fact_type'', ''safe_text'',
      ''effective_scope'', ''evidence_status'', ''contributor_count'', ''transformation'',
      ''transformation_rule_id'', ''safe_evidence_ref_ids'', ''content_hash'', ''schema_version'',
      ''view_id'', ''case_id'', ''community_public_label'', ''case_version'', ''authorization_version'',
      ''policy_version'', ''compiler_version'', ''policy_build_hash'', ''destination'', ''purpose'',
      ''generated_at'', ''expires_at'', ''mandate_version_set'', ''authorization_snapshot_hash'',
      ''shareable_facts'', ''safe_evidence_refs'', ''audit_refs'', ''view_hash'']"

lemma ex_keys_safe: "list_all (\<lambda>k. \<not> search UNSAFE_KEY k) ex_keys"
  by code_simp

definition ex_strings :: "string list" where
  "ex_strings =
     [SHAREABLE_VIEW_SCHEMA_VERSION, uuid_text 102, uuid_text 1, ''Riverside'', POLICY_VERSION, COMPILER_VERSION,
      ''sha256:1'', ''manager:one'', ''PROPERTY_MANAGER'', uuid_text 7, ''Manager'',
      ''REQUEST_ELEVATOR_REPAIR_AND_RESPONSE'', utc_text 1000000000, utc_text 1500000000, uuid_text 51,
      uuid_text 101, ''LOCATION_AREA'', ''The reported issue concerns the lobby.'', ''ANONYMOUS_CASE'',
      ''CORROBORATED'', ''GENERALIZED'', ''p1.location.common-area.v1'', uuid_text 100]"

lemma ex_strings_plain: "list_all plain_text (digest_value EMPTY_DIGEST # ex_strings)"
  by code_simp

lemma ex_strings_safe: "list_all (\<lambda>s. \<not> search UNSAFE_VALUE s) (digest_value EMPTY_DIGEST # ex_strings)"
  using ex_strings_plain by (auto simp: list_all_iff simp del: set_simps(2) dest: plain_text_safe)

definition ex_draft :: shareable_case_view where
  "ex_draft = draft_view ex_env ex_transform [ex_exported] (Sha256Digest ''sha256:1'')"

lemma ex_draft_safe: "\<not> unsafe_output ex_draft"
proof -
  note safe = ex_keys_safe [unfolded ex_keys_def list.pred_inject]
    ex_strings_safe [unfolded ex_strings_def list.pred_inject]
  have "sort_key mandate_key [ex_mandate] = [ex_mandate]" "sort_key sf_export_fact_id [ex_shareable_fact] = [ex_shareable_fact]"
    by simp_all
  then have d: "ex_draft =
    \<lparr>view_schema_version = SHAREABLE_VIEW_SCHEMA_VERSION, view_view_id = Ident 102, view_case_id = 1,
     view_community_public_label = ''Riverside'', view_case_version = 4, view_authorization_version = 3,
     view_policy_version = POLICY_VERSION, view_compiler_version = COMPILER_VERSION,
     view_policy_build_hash = Sha256Digest ''sha256:1'', view_destination = ex_destination,
     view_purpose = REQUEST_ELEVATOR_REPAIR_AND_RESPONSE, view_generated_at = ex_now,
     view_expires_at = utc 1500000000,
     view_mandate_version_set = [\<lparr>mvr_mandate_id = 51, mvr_version = 2, mvr_terms_hash = Sha256Digest ''sha256:1''\<rparr>],
     view_authorization_snapshot_hash = Sha256Digest ''sha256:1'',
     view_shareable_facts = [ex_shareable_fact], view_safe_evidence_refs = [], view_audit_refs = [100],
     view_hash = EMPTY_DIGEST\<rparr>"
    using ex_expiry ex_relied
    by (simp add: ex_draft_def draft_view_def ex_env_def compile_env_of_def Let_def ex_generators_def ex_transform_def
        mandate_refs_def ex_command_def ex_context_def ex_case_def POLICY_BUILD_HASH_def ex_hash_def ex_mandate_def uuid_of_def)
  show ?thesis
    unfolding unsafe_output_def d j_view_def j_view_members_def
    using safe
    by (simp add: j_leaf_defs j_safe_destination_def ex_destination_def j_mandate_version_ref_def
        j_shareable_fact_def j_shareable_fact_members_def ex_shareable_fact_def ident_str_def ex_now_def
        del: One_nat_def)
qed

section \<open>The whole compile\<close>

lemma ex_env_hash: "env_hash ex_env v = Sha256Digest ''sha256:1''"
  by (simp add: ex_env_def compile_env_of_def Let_def ex_hash_def)

lemma ex_transformation:
  "\<exists>st. transformation ex_env ex_vetted = Inr st \<and> st_candidates st = [ex_exported] \<and>
     st_view st = Some (ex_draft\<lparr>view_hash := hash_view (env_hash ex_env) ex_draft\<rparr>)"
proof -
  obtain snapshot where s: "authorization_snapshot ex_env [ex_exported] = Inr snapshot"
    using ex_snapshot by blast
  have "ts_facts ex_transform \<noteq> []" by (simp add: ex_transform_def)
  then show ?thesis
    using ex_draft_safe s ex_env_hash [of snapshot]
    by (simp add: transformation_def ex_vetted_candidates ex_transform_run ex_exported_def [symmetric]
        ex_draft_def [symmetric] Let_def passed_def)
qed

definition ex_allow :: compile_allow where
  "ex_allow = projr (compile ex_hash ex_generators ex_command ex_context)"

lemma ex_compile_result:
  "\<exists>a. compile ex_hash ex_generators ex_command ex_context = Inr a \<and>
     allow_view a = ex_draft\<lparr>view_hash := hash_view ex_hash ex_draft\<rparr> \<and> allow_included a = included_facts [ex_exported]"
proof -
  have steps: "compile_gates ex_env = take 20 (compile_gates ex_env) @ [transformation ex_env, audit_hash]"
    by (simp add: compile_gates_def Let_def)
  have h: "env_hash ex_env = ex_hash" by (simp add: ex_env_def compile_env_of_def Let_def)
  obtain st where st: "transformation ex_env ex_vetted = Inr st" "st_candidates st = [ex_exported]"
    "st_view st = Some (ex_draft\<lparr>view_hash := hash_view ex_hash ex_draft\<rparr>)"
    using ex_transformation h by auto
  have "run_steps (compile_gates ex_env) compile_start = Inr (passed AUDIT_HASH st)"
    by (subst steps) (simp add: run_steps_append ex_vetted_run st(1) audit_hash_def)
  with st(2,3) show ?thesis
    by (simp add: compile_def Let_def ex_env_def [symmetric] passed_def)
qed

lemma ex_compile: "compile ex_hash ex_generators ex_command ex_context = Inr ex_allow"
  and ex_allow_view: "allow_view ex_allow = ex_draft\<lparr>view_hash := hash_view ex_hash ex_draft\<rparr>"
  and ex_allow_included: "allow_included ex_allow = included_facts [ex_exported]"
  using ex_compile_result by (auto simp: ex_allow_def)

end
