(* ===== verification/Noninterference.thy ===== *)
theory Noninterference
  imports Compiler_Exports
begin

text \<open>
  The compiler reads no private text. \<open>redact_context keep\<close> replaces every free-text value, time of day,
  report summary, private object key and extracted text of a compile context, and the name in every
  identity fact that \<open>keep\<close> does not hold of. Each of the 20 gates before the transformation acts on
  the redacted context as on the original, whatever \<open>keep\<close> is (\<open>private_step\<close>); the transformation does so
  when \<open>keep\<close> holds of the candidates that are still eligible (\<open>transformation_redact\<close>). So the whole
  compile returns the same result, be it an export, a denial or an exception
  (\<open>compile_redact_kept\<close>); \<open>Export_Properties\<close> takes for \<open>keep\<close> the facts whose owners released them.
\<close>

section \<open>Redaction\<close>

definition redact_report :: "report \<Rightarrow> report" where
  "redact_report r = r\<lparr>report_private_summary := SensitiveStr [], report_issue_type := [],
     report_occurred_at := None, report_location_area := None\<rparr>"

definition redact_item :: "evidence_item \<Rightarrow> evidence_item" where
  "redact_item x = x\<lparr>item_private_object_key := SensitiveStr [],
     item_extracted_text := map_option (\<lambda>_. SensitiveStr []) (item_extracted_text x)\<rparr>"

definition redact_case :: "community_case \<Rightarrow> community_case" where
  "redact_case k = k\<lparr>case_title := [], case_issue_type := [], case_reason_code := []\<rparr>"

definition redact_context :: "(fact \<Rightarrow> bool) \<Rightarrow> compile_context \<Rightarrow> compile_context" where
  "redact_context keep ctx = ctx\<lparr>ctx_case := redact_case (ctx_case ctx),
     ctx_facts := map (redact_fact keep) (ctx_facts ctx),
     ctx_reports := map redact_report (ctx_reports ctx),
     ctx_evidence_items := map redact_item (ctx_evidence_items ctx)\<rparr>"

definition redact_env :: "(fact \<Rightarrow> bool) \<Rightarrow> compile_env \<Rightarrow> compile_env" where
  "redact_env keep e = e\<lparr>env_context := redact_context keep (env_context e)\<rparr>"

definition redact_candidate :: "(fact \<Rightarrow> bool) \<Rightarrow> candidate \<Rightarrow> candidate" where
  "redact_candidate keep c = c\<lparr>cand_fact := redact_fact keep (cand_fact c)\<rparr>"

definition redact_state :: "(fact \<Rightarrow> bool) \<Rightarrow> compile_state \<Rightarrow> compile_state" where
  "redact_state keep st = st\<lparr>st_candidates := map (redact_candidate keep) (st_candidates st)\<rparr>"

lemma redact_fact_fields [simp]:
  "fact_case_id (redact_fact keep f) = fact_case_id f" "fact_report_id (redact_fact keep f) = fact_report_id f"
  "fact_community_id (redact_fact keep f) = fact_community_id f" "fact_namespace (redact_fact keep f) = fact_namespace f"
  "fact_sensitivity (redact_fact keep f) = fact_sensitivity f" "fact_evidence_ids (redact_fact keep f) = fact_evidence_ids f"
  "fact_source_message_ids (redact_fact keep f) = fact_source_message_ids f"
  "fact_status (redact_fact keep f) = fact_status f" "fact_version (redact_fact keep f) = fact_version f"
  by (simp_all add: redact_fact_def)

lemma redact_report_fields [simp]:
  "report_id (redact_report r) = report_id r" "report_case_id (redact_report r) = report_case_id r"
  "report_community_id (redact_report r) = report_community_id r"
  "report_contributor_id (redact_report r) = report_contributor_id r"
  "report_namespace (redact_report r) = report_namespace r"
  "report_source_message_ids (redact_report r) = report_source_message_ids r"
  "report_status (redact_report r) = report_status r" "report_duplicate_of (redact_report r) = report_duplicate_of r"
  "report_version (redact_report r) = report_version r"
  by (simp_all add: redact_report_def)

lemma redact_item_fields [simp]:
  "item_id (redact_item x) = item_id x" "item_root_id (redact_item x) = item_root_id x"
  "item_community_id (redact_item x) = item_community_id x" "item_case_id (redact_item x) = item_case_id x"
  "item_namespace (redact_item x) = item_namespace x" "item_submitted_by (redact_item x) = item_submitted_by x"
  "item_media_type (redact_item x) = item_media_type x" "item_byte_length (redact_item x) = item_byte_length x"
  "item_sha256 (redact_item x) = item_sha256 x"
  "item_malware_scan_status (redact_item x) = item_malware_scan_status x"
  "item_extraction_status (redact_item x) = item_extraction_status x"
  "item_extracted_text (redact_item x) = None \<longleftrightarrow> item_extracted_text x = None"
  "item_version (redact_item x) = item_version x"
  by (simp_all add: redact_item_def)

lemma redact_case_fields [simp]:
  "case_case_id (redact_case k) = case_case_id k" "case_community_id (redact_case k) = case_community_id k"
  "case_namespace (redact_case k) = case_namespace k" "case_version (redact_case k) = case_version k"
  "case_current_state (redact_case k) = case_current_state k"
  "case_fact_ids (redact_case k) = case_fact_ids k" "case_report_ids (redact_case k) = case_report_ids k"
  "case_corroboration_count (redact_case k) = case_corroboration_count k"
  "case_authorization_version (redact_case k) = case_authorization_version k"
  by (simp_all add: redact_case_def)

lemma redact_context_fields [simp]:
  "ctx_case (redact_context keep c) = redact_case (ctx_case c)"
  "ctx_facts (redact_context keep c) = map (redact_fact keep) (ctx_facts c)"
  "ctx_reports (redact_context keep c) = map redact_report (ctx_reports c)"
  "ctx_evidence_items (redact_context keep c) = map redact_item (ctx_evidence_items c)"
  "ctx_evidence_roots (redact_context keep c) = ctx_evidence_roots c"
  "ctx_mandates (redact_context keep c) = ctx_mandates c"
  "ctx_mandate_pointers (redact_context keep c) = ctx_mandate_pointers c"
  "ctx_destination_registry_entry (redact_context keep c) = ctx_destination_registry_entry c"
  "ctx_safe_evidence_candidates (redact_context keep c) = ctx_safe_evidence_candidates c"
  "ctx_community_public_label (redact_context keep c) = ctx_community_public_label c"
  by (simp_all add: redact_context_def)

lemma redact_env_fields [simp]:
  "env_hash (redact_env keep e) = env_hash e" "env_ids (redact_env keep e) = env_ids e"
  "env_command (redact_env keep e) = env_command e" "env_audit_id (redact_env keep e) = env_audit_id e"
  "env_context (redact_env keep e) = redact_context keep (env_context e)"
  by (simp_all add: redact_env_def)

lemma redact_candidate_fields [simp]:
  "cand_request (redact_candidate keep c) = cand_request c" "cand_fact (redact_candidate keep c) = redact_fact keep (cand_fact c)"
  "cand_pointer (redact_candidate keep c) = cand_pointer c" "cand_mandate (redact_candidate keep c) = cand_mandate c"
  "cand_grant (redact_candidate keep c) = cand_grant c"
  "cand_excluded_reasons (redact_candidate keep c) = cand_excluded_reasons c"
  "cand_export_ids (redact_candidate keep c) = cand_export_ids c"
  "eligible (redact_candidate keep c) = eligible c" "required (redact_candidate keep c) = required c"
  "is_aggregate (redact_candidate keep c) = is_aggregate c"
  "redact_candidate keep (exclude r c) = exclude r (redact_candidate keep c)"
  by (simp_all add: redact_candidate_def eligible_def required_def is_aggregate_def exclude_def)

lemma redact_state_fields [simp]:
  "st_audit (redact_state keep st) = st_audit st" "st_view (redact_state keep st) = st_view st"
  "st_aggregate_groups (redact_state keep st) = st_aggregate_groups st"
  "st_candidates (redact_state keep st) = map (redact_candidate keep) (st_candidates st)"
  by (simp_all add: redact_state_def)

lemma redact_state_passed [simp]:
  "passed g (redact_state keep st) = redact_state keep (passed g st)"
  "gate_complete g rs (redact_state keep st) = redact_state keep (gate_complete g rs st)"
  by (simp_all add: passed_def gate_complete_def redact_state_def)

lemma redact_state_update [simp]:
  "(redact_state keep st)\<lparr>st_candidates := map (redact_candidate keep) cs\<rparr> = redact_state keep (st\<lparr>st_candidates := cs\<rparr>)"
  by (simp add: redact_state_def)

lemma refuse_redact [simp]: "refuse (redact_env keep e) (redact_state keep st) g r s = refuse e st g r s"
  by (simp add: refuse_def deny_def)

lemma deny_redact [simp]: "deny (redact_env keep e) (redact_state keep st) g r s b = deny e st g r s b"
  by (simp add: deny_def)

lemma refuse_left [simp]: "map_sum id f (refuse e st g r s) = refuse e st g r s"
  by (simp add: refuse_def)

section \<open>Lookups\<close>

lemma index_by_map:
  "(\<And>x. key (f x) = key x) \<Longrightarrow> index_by key (map f xs) k = map_option f (index_by key xs k)"
proof -
  assume "\<And>x. key (f x) = key x"
  then have "rev (map (\<lambda>x. (key x, x)) (map f xs)) = map (\<lambda>(k, v). (k, f v)) (rev (map (\<lambda>x. (key x, x)) xs))"
    by (simp add: rev_map comp_def)
  then show ?thesis by (simp add: index_by_def map_of_map del: map_map)
qed

lemma map_result_cong_map:
  "(\<And>x. x \<in> set xs \<Longrightarrow> g (f x) = map_sum id h (k x)) \<Longrightarrow>
     map_result g (map f xs) = map_sum id (map h) (map_result k xs)"
  by (induction xs) (auto split: sum.splits)

lemma filter_redact_keys [simp]:
  "map (\<lambda>c. fact_id (cand_fact (redact_candidate keep c))) cs = map cand_id cs"
  by simp

lemma group_all_map: "group_all key val (map f xs) = group_all (key \<circ> f) (val \<circ> f) xs"
  by (simp add: group_all_def fold_map comp_def)

lemma map_filter_map: "List.map_filter g (map f xs) = List.map_filter (g \<circ> f) xs"
  by (simp add: List.map_filter_def comp_def filter_map)

section \<open>Independence reads no text\<close>

lemma report_lookup [simp]:
  "index_by report_id (map redact_report rs) i = map_option redact_report (index_by report_id rs i)"
  by (rule index_by_map) simp

lemma item_lookup [simp]:
  "index_by item_id (map redact_item xs) i = map_option redact_item (index_by item_id xs i)"
  by (rule index_by_map) simp

lemma fact_lookup [simp]:
  "index_by fact_id (map (redact_fact keep) fs) i = map_option (redact_fact keep) (index_by fact_id fs i)"
  by (rule index_by_map) simp

lemma evidence_source_redact [simp]:
  "evidence_source (map redact_item items) roots (redact_fact keep f) = evidence_source items roots f"
  by (rule ext) (simp add: evidence_source_def split: option.splits)

lemma duplicate_origin_redact [simp]:
  "duplicate_origin_check (map redact_report rs) (redact_report r) = duplicate_origin_check rs r"
  by (simp add: duplicate_origin_check_def split: option.splits)

lemma fact_contribution_redact [simp]:
  "fact_contribution (map redact_report rs) (map redact_item items) roots (redact_fact keep f) =
     fact_contribution rs items roots f"
  by (simp add: fact_contribution_def cong: if_cong split: option.splits)

lemma map_result_map: "map_result g (map f xs) = map_result (\<lambda>x. g (f x)) xs"
  by (induction xs) (simp_all cong: sum.case_cong)

lemma independent_sources_redact:
  "independent_sources (map (redact_fact keep) fs) (map redact_report rs) (map redact_item items) roots =
     independent_sources fs rs items roots"
  by (simp add: independent_sources_def map_result_map comp_def)

section \<open>Every gate\<close>

locale private_step =
  fixes step :: "compile_env \<Rightarrow> step"
  assumes redacts: "step (redact_env keep e) (redact_state keep st) = map_sum id (redact_state keep) (step e st)"
begin

lemma redacts_Inr: "step e st = Inr st' \<Longrightarrow> step (redact_env keep e) (redact_state keep st) = Inr (redact_state keep st')"
  by (simp add: redacts)

lemma redacts_Inl: "step e st = Inl s \<Longrightarrow> step (redact_env keep e) (redact_state keep st) = Inl s"
  by (simp add: redacts)

end

interpretation private_schema: private_step request_schema
  by unfold_locales (simp add: request_schema_def split: sum.splits)

interpretation private_namespace: private_step namespace_community
  by unfold_locales (simp add: namespace_community_def)

interpretation private_identity: private_step case_identity_version
  by unfold_locales (simp add: case_identity_version_def Let_def)

lemma foreign_redact [simp]:
  "foreign_fact (redact_context keep ctx) = foreign_fact ctx"
  "foreign_evidence (redact_context keep ctx) = foreign_evidence ctx"
  by (rule ext, simp add: foreign_fact_def foreign_evidence_def in_case_def list_ex_iff)+

interpretation private_references: private_step cross_case_references
  by unfold_locales (simp add: cross_case_references_def split: option.splits)

interpretation private_existence: private_step existence
  by unfold_locales (simp add: existence_def Let_def image_image split: option.splits)

lemma make_candidates_redact:
  "make_candidates cmd (redact_context keep ctx) = map_sum id (map (redact_candidate keep)) (make_candidates cmd ctx)"
proof -
  have "map_result (\<lambda>r. case index_by fact_id (map (redact_fact keep) (ctx_facts ctx)) (rf_fact_id r) of
            None \<Rightarrow> Inl (KeyError (ident_str (rf_fact_id r)))
          | Some f \<Rightarrow> Inr (new_candidate r f)) (map (\<lambda>x. x) rs) =
        map_sum id (map (redact_candidate keep)) (map_result (\<lambda>r. case index_by fact_id (ctx_facts ctx) (rf_fact_id r) of
            None \<Rightarrow> Inl (KeyError (ident_str (rf_fact_id r)))
          | Some f \<Rightarrow> Inr (new_candidate r f)) rs)" for rs
    by (rule map_result_cong_map) (simp add: new_candidate_def redact_candidate_def split: option.splits)
  then show ?thesis by (simp add: make_candidates_def)
qed

lemma fact_lineage_redact [simp]:
  "fact_lineage_ok (redact_context keep ctx) (redact_fact keep f) = fact_lineage_ok ctx f"
  by (simp add: fact_lineage_ok_def split: option.splits)

lemma evidence_lineage_redact [simp]:
  "evidence_lineage_ok (redact_context keep ctx) (map (redact_candidate keep) cs) i = evidence_lineage_ok ctx cs i"
proof -
  have "(\<lambda>c. Some (fact_contributor_id (cand_fact c))) `
          {c \<in> (redact_candidate keep) ` set cs. i \<in> set (fact_evidence_ids (cand_fact c))} =
        (\<lambda>c. Some (fact_contributor_id (cand_fact c))) ` {c \<in> set cs. i \<in> set (fact_evidence_ids (cand_fact c))}"
    by (simp add: Compr_image_eq image_image)
  then show ?thesis by (simp add: evidence_lineage_ok_def split: option.splits)
qed

lemma unique_context_redact [simp]: "unique_context (redact_context keep ctx) = unique_context ctx"
  by (simp add: unique_context_def comp_def)

interpretation private_ownership: private_step ownership
proof
  fix keep and e :: compile_env and st :: compile_state
  show "ownership (redact_env keep e) (redact_state keep st) = map_sum id (redact_state keep) (ownership e st)"
  proof (cases "make_candidates (env_command e) (env_context e)")
    case (Inl err)
    then show ?thesis by (simp add: ownership_def Let_def make_candidates_redact)
  next
    case (Inr cs)
    then show ?thesis
      by (auto simp: ownership_def Let_def make_candidates_redact find_map split: option.splits)
  qed
qed

section \<open>The item gates\<close>

lemma item_loop_redact:
  "(\<And>c. ev' (redact_candidate keep c) = ev c) \<Longrightarrow>
     item_loop ev' (map (redact_candidate keep) cs) =
       map_sum (apfst (redact_candidate keep)) (apfst (map (redact_candidate keep))) (item_loop ev cs)"
proof (induction cs)
  case (Cons c cs)
  have ih: "item_loop ev' (map (redact_candidate keep) cs) =
      map_sum (apfst (redact_candidate keep)) (apfst (map (redact_candidate keep))) (item_loop ev cs)"
    using Cons by blast
  show ?case
    using Cons.prems [of c] ih
    by (cases "if eligible c then ev c else None"; cases "item_loop ev cs")
      (auto simp: apfst_def map_prod_def split: if_splits prod.splits)
qed simp

lemma apply_item_gate_redact:
  assumes "\<And>c. ev' (redact_candidate keep c) = ev c"
  shows "apply_item_gate (redact_env keep e) g ev' (redact_state keep st) = map_sum id (redact_state keep) (apply_item_gate e g ev st)"
  using item_loop_redact [of ev' keep ev "st_candidates st", OF assms]
  by (cases "item_loop ev (st_candidates st)") (auto simp: apply_item_gate_def split: prod.splits)

lemma approval_redact [simp]: "approval_reason (redact_candidate keep c) = approval_reason c"
  by (simp add: approval_reason_def Let_def cong: if_cong option.case_cong)

lemma revocation_redact [simp]: "revocation_reason now (redact_candidate keep c) = revocation_reason now c"
  by (simp add: revocation_reason_def Let_def cong: if_cong option.case_cong)

lemma expiration_redact [simp]: "expiration_reason now (redact_candidate keep c) = expiration_reason now c"
  by (simp add: expiration_reason_def Let_def cong: if_cong option.case_cong)

lemma destination_redact [simp]: "destination_reason d r (redact_candidate keep c) = destination_reason d r c"
  by (simp add: destination_reason_def Let_def cong: if_cong option.case_cong)

lemma purpose_redact [simp]: "purpose_reason p (redact_candidate keep c) = purpose_reason p c"
  by (simp add: purpose_reason_def Let_def cong: if_cong option.case_cong)

lemma hard_internal_redact [simp]: "hard_internal (redact_fact keep f) = hard_internal f"
  by (simp add: hard_internal_def)

lemma scope_redact [simp]: "scope_reason (redact_candidate keep c) = scope_reason c"
  by (simp add: scope_reason_def Let_def cong: if_cong option.case_cong)

lemma identity_redact [simp]: "identity_reason (redact_candidate keep c) = identity_reason c"
  by (simp add: identity_reason_def Let_def cong: if_cong option.case_cong)

lemma is_location_redact [simp]: "is_location (redact_value b v) = is_location v"
  by (cases v) (simp_all add: is_location_def)

lemma reidentification_reason_redact [simp]:
  "reidentification_reason (redact_candidate keep c) = reidentification_reason c"
  by (simp add: reidentification_reason_def Let_def cong: if_cong option.case_cong)

lemma requested_evidence_redact [simp]: "requested_evidence cmd (redact_fact keep f) = requested_evidence cmd f"
  by (simp add: requested_evidence_def)

lemma minimum_necessity_redact [simp]:
  "minimum_necessity_reason cmd (redact_candidate keep c) = minimum_necessity_reason cmd c"
  by (simp add: minimum_necessity_reason_def Let_def cong: if_cong option.case_cong)

interpretation private_approval: private_step "\<lambda>e. apply_item_gate e MANDATE_APPROVAL approval_reason"
  by unfold_locales (rule apply_item_gate_redact, simp)

interpretation private_revocation:
  private_step "\<lambda>e. apply_item_gate e REVOCATION (revocation_reason (cmd_requested_at (env_command e)))"
  by unfold_locales (rule apply_item_gate_redact, simp)

interpretation private_expiration:
  private_step "\<lambda>e. apply_item_gate e EXPIRATION (expiration_reason (cmd_requested_at (env_command e)))"
  by unfold_locales (rule apply_item_gate_redact, simp)

interpretation private_destination: private_step "\<lambda>e. apply_item_gate e DESTINATION
    (destination_reason (cmd_destination (env_command e)) (ctx_destination_registry_entry (env_context e)))"
  by unfold_locales (rule apply_item_gate_redact, simp)

interpretation private_purpose:
  private_step "\<lambda>e. apply_item_gate e PURPOSE (purpose_reason (cmd_purpose (env_command e)))"
  by unfold_locales (rule apply_item_gate_redact, simp)

interpretation private_scope: private_step "\<lambda>e. apply_item_gate e DISCLOSURE_SCOPE scope_reason"
  by unfold_locales (rule apply_item_gate_redact, simp)

interpretation private_identity_grant: private_step "\<lambda>e. apply_item_gate e IDENTITY identity_reason"
  by unfold_locales (rule apply_item_gate_redact, simp)

interpretation private_necessity:
  private_step "\<lambda>e. apply_item_gate e MINIMUM_NECESSITY (minimum_necessity_reason (env_command e))"
  by unfold_locales (rule apply_item_gate_redact, simp)

interpretation private_selection: private_step current_mandate_selection
proof
  fix keep and e :: compile_env and st :: compile_state
  let ?sel = "\<lambda>c. c\<lparr>cand_pointer := index_by pointer_contributor_id (ctx_mandate_pointers (env_context e))
                (fact_contributor_id (cand_fact c))\<rparr>"
  have s: "?sel (redact_candidate keep c) = redact_candidate keep (?sel c)" for c
    by (simp add: redact_candidate_def)
  have "map ?sel (map (redact_candidate keep) cs) = map (redact_candidate keep) (map ?sel cs)" for cs
    unfolding map_map comp_def s ..
  moreover have "apply_item_gate (redact_env keep e) CURRENT_MANDATE_SELECTION
      (\<lambda>c. if cand_pointer c = None then Some CR_MANDATE_NOT_FOUND else None) (redact_state keep t) =
    map_sum id (redact_state keep) (apply_item_gate e CURRENT_MANDATE_SELECTION
      (\<lambda>c. if cand_pointer c = None then Some CR_MANDATE_NOT_FOUND else None) t)" for t
    by (rule apply_item_gate_redact) simp
  ultimately show "current_mandate_selection (redact_env keep e) (redact_state keep st) =
      map_sum id (redact_state keep) (current_mandate_selection e st)"
    by (simp add: current_mandate_selection_def Let_def comp_def del: map_map)
qed

lemma bind_mandate_redact [simp]:
  "bind_mandate H ms (redact_candidate keep c) = map_option (redact_candidate keep) (bind_mandate H ms c)"
  by (simp add: bind_mandate_def mandate_integrity_def redact_candidate_def split: option.splits)

interpretation private_integrity: private_step mandate_version_integrity
proof
  fix keep and e :: compile_env and st :: compile_state
  let ?bind = "bind_mandate (env_hash e) (ctx_mandates (env_context e))"
  have f: "List.find (\<lambda>c. eligible c \<and> ?bind c = None) (map (redact_candidate keep) cs) =
      map_option (redact_candidate keep) (List.find (\<lambda>c. eligible c \<and> ?bind c = None) cs)" for cs
    by (simp add: find_map)
  show "mandate_version_integrity (redact_env keep e) (redact_state keep st) =
      map_sum id (redact_state keep) (mandate_version_integrity e st)"
  proof (cases "List.find (\<lambda>c. eligible c \<and> ?bind c = None) (st_candidates st)")
    case None
    then have bound: "eligible c \<Longrightarrow> ?bind c \<noteq> None" if "c \<in> set (st_candidates st)" for c
      using that by (auto simp: find_None_iff)
    have "map (\<lambda>c. if eligible c then the (?bind c) else c) (map (redact_candidate keep) (st_candidates st)) =
        map (redact_candidate keep) (map (\<lambda>c. if eligible c then the (?bind c) else c) (st_candidates st))"
      using bound by (auto simp: option.map_sel)
    with None f show ?thesis
      by (simp add: mandate_version_integrity_def Let_def del: map_map bind_mandate_redact)
  next
    case (Some c)
    with f show ?thesis
      by (simp add: mandate_version_integrity_def Let_def del: map_map bind_mandate_redact)
  qed
qed

section \<open>The group gates\<close>

lemma exclude_group_redact:
  "exclude_group r is (map (redact_candidate keep) cs) =
     map_sum (redact_candidate keep) (map (redact_candidate keep)) (exclude_group r is cs)"
proof (induction r "is" cs rule: exclude_group.induct)
  case (2 r i "is" cs)
  have m: "map (\<lambda>c. if cand_id c = i then exclude r c else c) (map (redact_candidate keep) cs) =
      map (redact_candidate keep) (map (\<lambda>c. if cand_id c = i then exclude r c else c) cs)"
    by simp
  show ?case
  proof (cases "List.find (\<lambda>c. cand_id c = i \<and> required c) cs")
    case None
    with "2.IH" [OF None] m show ?thesis by (simp add: find_map del: map_map)
  qed (simp add: find_map)
qed simp

lemma group_contributors_redact [simp]:
  "group_contributors (map (redact_candidate keep) cs) is = group_contributors cs is"
  by (simp add: group_contributors_def Compr_image_eq image_image)

interpretation private_aggregation: private_step aggregation_threshold
proof
  fix keep and e :: compile_env and st :: compile_state
  have g: "group_all (\<lambda>c. fact_type (cand_fact c)) cand_id
        (filter (\<lambda>c. eligible c \<and> is_aggregate c) (map (redact_candidate keep) cs)) =
      group_all (\<lambda>c. fact_type (cand_fact c)) cand_id (filter (\<lambda>c. eligible c \<and> is_aggregate c) cs)" for cs
    by (simp add: filter_map group_all_map comp_def)
  have u: "(redact_state keep st)\<lparr>st_candidates := map (redact_candidate keep) cs, st_aggregate_groups := gs\<rparr> =
      redact_state keep (st\<lparr>st_candidates := cs, st_aggregate_groups := gs\<rparr>)" for cs gs
    by (simp add: redact_state_def)
  show "aggregation_threshold (redact_env keep e) (redact_state keep st) = map_sum id (redact_state keep) (aggregation_threshold e st)"
    by (auto simp: aggregation_threshold_def Let_def g u exclude_group_redact split: sum.splits)
qed

lemma active_case_facts_redact [simp]:
  "active_case_facts (redact_context keep ctx) = map (redact_fact keep) (active_case_facts ctx)"
  by (simp add: active_case_facts_def filter_map comp_def in_case_def)

interpretation private_independence: private_step independence
  by unfold_locales
    (simp add: independence_def Let_def independent_source_count_def independent_sources_redact
      split: sum.splits error.splits)

lemma redact_value_is: "is_impact v \<Longrightarrow> impact_code_of (redact_value b v) = impact_code_of v"
  by (cases v) (simp_all add: is_impact_def)

lemma bucket_count_redact [simp]:
  "aggregate_category_bucket_count t (map (redact_candidate keep) cs) = aggregate_category_bucket_count t cs"
proof (cases "\<forall>c\<in>set cs. is_impact (fact_value (cand_fact c))")
  case True
  then have "(\<lambda>c. impact_code_of (redact_value (keep (cand_fact c)) (fact_value (cand_fact c)))) ` set cs =
      (\<lambda>c. impact_code_of (fact_value (cand_fact c))) ` set cs"
    by (intro image_cong) (simp_all add: redact_value_is)
  then show ?thesis by (simp add: aggregate_category_bucket_count_def list_all_iff image_image)
qed (simp add: aggregate_category_bucket_count_def list_all_iff)

lemma bucket_loop_redact:
  "bucket_loop gs (map (redact_candidate keep) cs) rs =
     map_sum (redact_candidate keep) (apfst (map (redact_candidate keep))) (bucket_loop gs cs rs)"
proof (induction gs cs rs rule: bucket_loop.induct)
  case (2 t "is" gs cs rs)
  have m: "filter (\<lambda>c. cand_id c \<in> set is \<and> eligible c) (map (redact_candidate keep) cs) =
      map (redact_candidate keep) (filter (\<lambda>c. cand_id c \<in> set is \<and> eligible c) cs)"
    by (simp add: filter_map comp_def)
  let ?members = "filter (\<lambda>c. cand_id c \<in> set is \<and> eligible c) cs"
  show ?case
  proof (cases "?members = [] \<or> aggregate_category_bucket_count t ?members > 1")
    case True
    with 2 m show ?thesis by (simp add: Let_def)
  next
    case False
    have k: "map cand_id (map (redact_candidate keep) ?members) = map cand_id ?members" by simp
    show ?thesis
      using False 2(2) [OF refl False] m
      by (cases "exclude_group CR_REIDENTIFICATION_RISK (map cand_id ?members) cs")
        (simp_all add: Let_def exclude_group_redact comp_def)
  qed
qed simp

interpretation private_reidentification: private_step reidentification
proof
  fix keep and e :: compile_env and st :: compile_state
  note loop = item_loop_redact [of reidentification_reason keep, OF reidentification_reason_redact]
  show "reidentification (redact_env keep e) (redact_state keep st) = map_sum id (redact_state keep) (reidentification e st)"
    by (cases "item_loop reidentification_reason (st_candidates st)")
      (auto simp: reidentification_def loop bucket_loop_redact split: sum.splits prod.splits)
qed

lemma evidence_is_safe_redact [simp]:
  "evidence_is_safe (redact_context keep ctx) (redact_candidate keep c) i = evidence_is_safe ctx c i"
  by (simp add: evidence_is_safe_def split: option.splits)

lemma evidence_unsafe_redact [simp]:
  "evidence_unsafe cmd (redact_context keep ctx) (redact_candidate keep c) = evidence_unsafe cmd ctx c"
  by (simp add: evidence_unsafe_def Let_def)

interpretation private_evidence: private_step evidence_safety
proof
  fix keep and e :: compile_env and st :: compile_state
  show "evidence_safety (redact_env keep e) (redact_state keep st) = map_sum id (redact_state keep) (evidence_safety e st)"
    by (cases "List.find (\<lambda>c. eligible c \<and> evidence_unsafe (env_command e) (env_context e) c) (st_candidates st)")
      (auto simp: evidence_safety_def Let_def find_map exclude_group_redact split: sum.splits
        simp del: exclude_group.simps)
qed

section \<open>The transformation\<close>

lemma add_output_redact [simp]: "add_output eid (map (redact_candidate (\<lambda>_. True)) cs) out ts = add_output eid cs out ts"
  by (simp add: add_output_def comp_def)

lemma add_group_redact [simp]:
  "add_group (redact_env keep e) scope (map (redact_candidate (\<lambda>_. True)) cs) ts = add_group e scope cs ts"
proof -
  have "map cand_fact (map (redact_candidate (\<lambda>_. True)) cs) = map (redact_fact (\<lambda>_. True)) (map cand_fact cs)" by simp
  then show ?thesis
    by (simp add: add_group_def Let_def export_id_def transform_facts_redact comp_def del: map_map)
      (simp add: comp_def)
qed

lemma safe_ref_for_redact [simp]: "safe_ref_for (redact_env keep e) = safe_ref_for e"
  by (intro ext) (simp add: safe_ref_for_def split: option.splits)

lemma transform_description_redact [simp]:
  "transform_evidence_description H eid (redact_fact (\<lambda>_. True) f) scope r = transform_evidence_description H eid f scope r"
  using build_shareable_fact_redact [of H eid _ "[f]"]
  by (cases "fact_value f") (simp_all add: transform_evidence_description_def)

lemma add_single_redact [simp]: "add_single (redact_env keep e) (redact_candidate (\<lambda>_. True) c) ts = add_single e c ts"
  using transform_facts_redact [of "[cand_fact c]" "\<lambda>_. True" "env_hash e"] add_output_redact [of _ "[c]"]
  by (simp add: add_single_def Let_def export_id_def cong: if_cong split: option.splits)

lemma foldE_map: "(\<And>x s. f' (g x) s = f x s) \<Longrightarrow> foldE f' (map g xs) s = foldE f xs s"
proof (induction xs arbitrary: s)
  case (Cons x xs)
  have "foldE f' (map g xs) = foldE f xs" by (rule ext) (rule Cons.IH, rule Cons.prems)
  with Cons.prems show ?case by simp
qed simp

text \<open>Grouping candidates commutes with redaction.\<close>

lemma group_add_map:
  "group_add k (f v) (map (\<lambda>(k, vs). (k, map f vs)) gs) = map (\<lambda>(k, vs). (k, map f vs)) (group_add k v gs)"
  by (induction k v gs rule: group_add.induct) auto

lemma group_all_redact:
  "(\<And>c. key (redact_candidate (\<lambda>_. True) c) = key c) \<Longrightarrow>
     group_all key id (map (redact_candidate (\<lambda>_. True)) cs) =
       map (\<lambda>(k, vs). (k, map (redact_candidate (\<lambda>_. True)) vs)) (group_all key id cs)"
proof -
  assume k: "\<And>c. key (redact_candidate (\<lambda>_. True) c) = key c"
  have "fold (\<lambda>x gs. group_add (key x) (id x) gs) (map (redact_candidate (\<lambda>_. True)) cs) (map (\<lambda>(k, vs). (k, map (redact_candidate (\<lambda>_. True)) vs)) gs) =
      map (\<lambda>(k, vs). (k, map (redact_candidate (\<lambda>_. True)) vs)) (fold (\<lambda>x gs. group_add (key x) (id x) gs) cs gs)" for gs
    by (induction cs arbitrary: gs) (simp_all add: k group_add_map)
  from this [of "[]"] show ?thesis by (simp add: group_all_def)
qed

lemma transform_redact_kept:
  "transform (redact_env keep e) (map (redact_candidate (\<lambda>_. True)) cs) = transform e cs"
proof -
  have el: "filter (\<lambda>c. eligible c \<and> cand_grant c \<noteq> None) (map (redact_candidate (\<lambda>_. True)) cs) =
      map (redact_candidate (\<lambda>_. True)) (filter (\<lambda>c. eligible c \<and> cand_grant c \<noteq> None) cs)" for cs
    by (simp add: filter_map comp_def)
  have ag: "filter is_aggregate (map (redact_candidate (\<lambda>_. True)) cs) = map (redact_candidate (\<lambda>_. True)) (filter is_aggregate cs)" for cs
    by (simp add: filter_map comp_def)
  have inc: "filter (\<lambda>c. \<not> is_aggregate c \<and> fact_type (cand_fact c) = INCIDENT_OCCURRENCE) (map (redact_candidate (\<lambda>_. True)) cs) =
      map (redact_candidate (\<lambda>_. True)) (filter (\<lambda>c. \<not> is_aggregate c \<and> fact_type (cand_fact c) = INCIDENT_OCCURRENCE) cs)" for cs
    by (simp add: filter_map comp_def)
  have gr: "group_all (\<lambda>c. fact_type (cand_fact c)) id (map (redact_candidate (\<lambda>_. True)) cs) =
        map (\<lambda>(k, vs). (k, map (redact_candidate (\<lambda>_. True)) vs)) (group_all (\<lambda>c. fact_type (cand_fact c)) id cs)"
    "group_all (\<lambda>c. grant_max_scope (the (cand_grant c))) id (map (redact_candidate (\<lambda>_. True)) cs) =
        map (\<lambda>(k, vs). (k, map (redact_candidate (\<lambda>_. True)) vs)) (group_all (\<lambda>c. grant_max_scope (the (cand_grant c))) id cs)" for cs
    by (rule group_all_redact, simp)+
  have so: "sort_key (\<lambda>g. h (fst g)) (map (\<lambda>(k, vs). (k, map (redact_candidate (\<lambda>_. True)) vs)) gs) =
      map (\<lambda>(k, vs). (k, map (redact_candidate (\<lambda>_. True)) vs)) (sort_key (\<lambda>g. h (fst g)) gs)"
    for h :: "'k \<Rightarrow> string" and gs :: "('k \<times> candidate list) list"
    by (rule sort_key_map) (simp add: case_prod_beta)
  have gf: "foldE (\<lambda>(_, members). add_group (redact_env keep e) AGGREGATE_ONLY members)
        (map (\<lambda>(k, vs). (k, map (redact_candidate (\<lambda>_. True)) vs)) gs) ts =
      foldE (\<lambda>(_, members). add_group e AGGREGATE_ONLY members) gs ts" for gs :: "(fact_type \<times> candidate list) list" and ts
    by (rule foldE_map) (simp add: case_prod_beta)
  have sf: "foldE (\<lambda>(scope, members). add_group (redact_env keep e) scope members)
        (map (\<lambda>(k, vs). (k, map (redact_candidate (\<lambda>_. True)) vs)) gs) ts =
      foldE (\<lambda>(scope, members). add_group e scope members) gs ts" for gs ts
    by (rule foldE_map) (simp add: case_prod_beta)
  have si: "foldE (add_single (redact_env keep e)) (map (redact_candidate (\<lambda>_. True)) cs) = foldE (add_single e) cs" for cs
    by (rule ext, rule foldE_map) simp
  show ?thesis
    unfolding transform_def Let_def el ag inc gr so gf sf si ..
qed

text \<open>Only eligible candidates with a grant are transformed, so only their names have to be kept.\<close>

lemma transform_redact:
  assumes "\<And>c. c \<in> set cs \<Longrightarrow> eligible c \<Longrightarrow> keep (cand_fact c)"
  shows "transform (redact_env keep e) (map (redact_candidate keep) cs) = transform e cs"
proof -
  have "redact_candidate keep c = redact_candidate (\<lambda>_. True) c" if "keep (cand_fact c)" for c
    using that by (simp add: redact_candidate_def redact_fact_def)
  then have "filter (\<lambda>c. eligible c \<and> cand_grant c \<noteq> None) (map (redact_candidate keep) cs) =
      filter (\<lambda>c. eligible c \<and> cand_grant c \<noteq> None) (map (redact_candidate (\<lambda>_. True)) cs)"
    using assms by (auto simp: filter_map comp_def)
  then have "transform (redact_env keep e) (map (redact_candidate keep) cs) =
      transform (redact_env keep e) (map (redact_candidate (\<lambda>_. True)) cs)"
    unfolding transform_def by (simp only:)
  then show ?thesis by (simp only: transform_redact_kept)
qed

section \<open>The snapshot and the view\<close>

lemma j_redact [simp]:
  "j_evaluated_fact (redact_fact keep f) = j_evaluated_fact f"
  "j_corroboration_fact (redact_fact keep f) = j_corroboration_fact f"
  "j_corroboration_report (redact_report r) = j_corroboration_report r"
  "j_corroboration_evidence (redact_item x) = j_corroboration_evidence x"
  "j_evaluated_evidence s (redact_item x) = j_evaluated_evidence s x"
  by (simp_all add: j_evaluated_fact_def j_corroboration_fact_def j_corroboration_report_def
      j_corroboration_evidence_def j_evaluated_evidence_def)

lemma j_list_redact [simp]:
  "j_list j_corroboration_fact (map (redact_fact keep) fs) = j_list j_corroboration_fact fs"
  "j_list j_corroboration_report (map redact_report rs) = j_list j_corroboration_report rs"
  "j_list j_corroboration_evidence (map redact_item xs) = j_list j_corroboration_evidence xs"
  "j_list (\<lambda>x. j_evaluated_evidence (safe (item_id x)) x) (map redact_item xs) =
     j_list (\<lambda>x. j_evaluated_evidence (safe (item_id x)) x) xs"
  "j_list (\<lambda>c. j_evaluated_fact (cand_fact c)) (map (redact_candidate keep) cs) =
     j_list (\<lambda>c. j_evaluated_fact (cand_fact c)) cs"
  by (simp_all add: j_list_def comp_def)

lemma evidence_items_redact:
  "map_result (evidence_item_at (redact_context keep ctx)) is =
     map_sum id (map redact_item) (map_result (evidence_item_at ctx) is)"
proof -
  have "map_result (evidence_item_at (redact_context keep ctx)) (map (\<lambda>i. i) is) =
      map_sum id (map redact_item) (map_result (evidence_item_at ctx) is)"
    by (rule map_result_cong_map) (simp add: evidence_item_at_def split: option.splits)
  then show ?thesis by simp
qed

lemma map_sum_bindE: "bindE (map_sum id h m) k = bindE m (\<lambda>x. k (h x))"
  by (cases m) simp_all

lemma authorization_snapshot_redact:
  "authorization_snapshot (redact_env keep e) (map (redact_candidate keep) cs) = authorization_snapshot e cs"
proof -
  have f: "sort_key fact_id (map (redact_fact keep) fs) = map (redact_fact keep) (sort_key fact_id fs)" for fs
    by (rule sort_key_map) simp
  have r: "sort_key report_id (map redact_report rs) = map redact_report (sort_key report_id rs)" for rs
    by (rule sort_key_map) simp
  show ?thesis
    by (simp add: authorization_snapshot_def Let_def evidence_items_redact map_sum_bindE f r filter_map comp_def
        image_image)
qed

lemma with_exports_redact [simp]: "with_exports ts (redact_candidate keep c) = redact_candidate keep (with_exports ts c)"
  by (simp add: with_exports_def redact_candidate_def)

lemma relied_mandates_redact [simp]: "relied_mandates (map (redact_candidate keep) cs) = relied_mandates cs"
  by (simp add: relied_mandates_def filter_map map_filter_map comp_def)

lemma draft_view_redact [simp]:
  "draft_view (redact_env keep e) ts (map (redact_candidate keep) cs) h = draft_view e ts cs h"
  by (simp add: draft_view_def Let_def)

lemma transformation_redact:
  assumes "\<And>c. c \<in> set (st_candidates st) \<Longrightarrow> eligible c \<Longrightarrow> keep (cand_fact c)"
  shows "transformation (redact_env keep e) (redact_state keep st) = map_sum id (redact_state keep) (transformation e st)"
proof -
  have w: "map (with_exports ts) (map (redact_candidate keep) cs) = map (redact_candidate keep) (map (with_exports ts) cs)"
    for ts cs by simp
  have u: "(redact_state keep st)\<lparr>st_candidates := map (redact_candidate keep) cs, st_view := v\<rparr> =
      redact_state keep (st\<lparr>st_candidates := cs, st_view := v\<rparr>)" for cs v
    by (simp add: redact_state_def)
  note t = transform_redact [of "st_candidates st" keep e, OF assms]
  show ?thesis
    by (auto simp: transformation_def t w u authorization_snapshot_redact Let_def
        simp del: map_map split: sum.splits error.splits)
qed

interpretation private_hash: private_step "\<lambda>_. audit_hash"
  by unfold_locales (simp add: audit_hash_def)

section \<open>The gates before the transformation\<close>

lemma run_steps_redact:
  "list_all private_step ss \<Longrightarrow>
     run_steps (map (\<lambda>s. s (redact_env keep e)) ss) (redact_state keep st) =
       map_sum id (redact_state keep) (run_steps (map (\<lambda>s. s e) ss) st)"
proof (induction ss arbitrary: st)
  case (Cons s ss)
  then have s: "private_step s" and ss: "list_all private_step ss" by simp_all
  show ?case
    using private_step.redacts [OF s, of keep e st] Cons.IH [OF ss] by (cases "s e st") simp_all
qed simp

definition private_gates :: "(compile_env \<Rightarrow> step) list" where
  "private_gates =
     [request_schema, namespace_community, case_identity_version, cross_case_references, existence, ownership,
      current_mandate_selection, mandate_version_integrity,
      \<lambda>e. apply_item_gate e MANDATE_APPROVAL approval_reason,
      \<lambda>e. apply_item_gate e REVOCATION (revocation_reason (cmd_requested_at (env_command e))),
      \<lambda>e. apply_item_gate e EXPIRATION (expiration_reason (cmd_requested_at (env_command e))),
      \<lambda>e. apply_item_gate e DESTINATION
        (destination_reason (cmd_destination (env_command e)) (ctx_destination_registry_entry (env_context e))),
      \<lambda>e. apply_item_gate e PURPOSE (purpose_reason (cmd_purpose (env_command e))),
      \<lambda>e. apply_item_gate e DISCLOSURE_SCOPE scope_reason,
      \<lambda>e. apply_item_gate e IDENTITY identity_reason,
      aggregation_threshold, independence, reidentification,
      \<lambda>e. apply_item_gate e MINIMUM_NECESSITY (minimum_necessity_reason (env_command e)),
      evidence_safety]"

lemma private_gates_all: "list_all private_step private_gates"
  unfolding private_gates_def
  by (simp only: list.pred_inject private_schema.private_step_axioms private_namespace.private_step_axioms
      private_identity.private_step_axioms private_references.private_step_axioms
      private_existence.private_step_axioms private_ownership.private_step_axioms
      private_selection.private_step_axioms private_integrity.private_step_axioms
      private_approval.private_step_axioms private_revocation.private_step_axioms
      private_expiration.private_step_axioms private_destination.private_step_axioms
      private_purpose.private_step_axioms private_scope.private_step_axioms
      private_identity_grant.private_step_axioms private_aggregation.private_step_axioms
      private_independence.private_step_axioms private_reidentification.private_step_axioms
      private_necessity.private_step_axioms private_evidence.private_step_axioms simp_thms)

lemma vetting_gates_private: "vetting_gates e = map (\<lambda>s. s e) private_gates"
  by (simp add: vetting_gates_def compile_gates_def private_gates_def Let_def)

lemma vetting_redact:
  "run_steps (vetting_gates (redact_env keep e)) compile_start =
     map_sum id (redact_state keep) (run_steps (vetting_gates e) compile_start)"
proof -
  have "redact_state keep compile_start = compile_start"
    by (simp add: redact_state_def compile_start_def)
  with run_steps_redact [OF private_gates_all, of keep e compile_start] show ?thesis
    by (simp only: vetting_gates_private)
qed

lemma included_facts_redact [simp]: "included_facts (map (redact_candidate keep) cs) = included_facts cs"
  by (simp add: included_facts_def filter_map comp_def)

lemma excluded_facts_redact [simp]: "excluded_facts (map (redact_candidate keep) cs) = excluded_facts cs"
  by (simp add: excluded_facts_def filter_map comp_def)

text \<open>
  The whole run is the same on the redacted context whenever \<open>keep\<close> covers the facts that are still
  eligible when the vetting gates have run.
\<close>

lemma compile_redact_kept:
  fixes H generators cmd ctx
  defines "e \<equiv> compile_env_of H generators cmd ctx"
  assumes kept: "\<And>st c. run_steps (vetting_gates e) compile_start = Inr st \<Longrightarrow> c \<in> set (st_candidates st) \<Longrightarrow>
      eligible c \<Longrightarrow> keep (cand_fact c)"
  shows "compile H generators cmd (redact_context keep ctx) = compile H generators cmd ctx"
proof -
  have e: "compile_env_of H generators cmd (redact_context keep ctx) = redact_env keep e"
    by (simp add: e_def compile_env_of_def Let_def redact_env_def)
  have "run_steps (compile_gates (redact_env keep e)) compile_start =
      map_sum id (redact_state keep) (run_steps (compile_gates e) compile_start)"
  proof (cases "run_steps (vetting_gates e) compile_start")
    case (Inr st)
    have "transformation (redact_env keep e) (redact_state keep st) = map_sum id (redact_state keep) (transformation e st)"
      by (rule transformation_redact) (rule kept [OF Inr])
    then show ?thesis
      by (cases "transformation e st") (simp_all add: compile_gates_split run_steps_append vetting_redact Inr audit_hash_def)
  qed (simp add: compile_gates_split run_steps_append vetting_redact)
  then show ?thesis
    by (simp add: compile_def Let_def e e_def [symmetric] map_sum_bindE cong: option.case_cong)
qed

end
