(* ===== verification/Export_Properties.thy ===== *)
theory Export_Properties
  imports Compiler_Example Noninterference
begin

text \<open>
  The properties of an export: what an ALLOW of \<open>PrivacyCompiler.compile\<close> guarantees about the view,
  the included facts and the audit, and what a DENY records. Each is instantiated at the allowed
  compile of \<open>Compiler_Example\<close>.
\<close>

section \<open>Audit\<close>

lemma compile_runs:
  assumes "compile H generators cmd ctx = Inr a"
  obtains st where "run_steps (compile_gates (compile_env_of H generators cmd ctx)) compile_start = Inr st"
    "allow_audit_decisions a = st_audit st"
  using assms by (auto simp: compile_def Let_def result_simps split: option.splits)

lemma compile_denies:
  assumes "compile H generators cmd ctx = Inl (Denied d)"
  shows "run_steps (compile_gates (compile_env_of H generators cmd ctx)) compile_start = Inl (Denied d)"
  using assms by (auto simp: compile_def Let_def result_simps split: option.splits)

lemma clean_start [simp]: "clean_audit []" "st_audit compile_start = []"
  by (simp_all add: clean_audit_def compile_start_def)

text \<open>
  C22. An allowed compile has passed all 22 gates, in order, one audit entry each and none of them a
  denial.
\<close>

theorem allow_audits_every_gate:
  assumes "compile H generators cmd ctx = Inr a"
  shows "map audit_gate (allow_audit_decisions a) = compiler_gates \<and> length (allow_audit_decisions a) = 22 \<and>
    (\<forall>d\<in>set (allow_audit_decisions a). audit_outcome d \<noteq> GO_DENIED)"
proof -
  from assms obtain st where r: "run_steps (compile_gates (compile_env_of H generators cmd ctx)) compile_start = Inr st"
    and a: "allow_audit_decisions a = st_audit st" by (rule compile_runs)
  from run_steps_audit_passes [OF compile_gates_audited r] have
    m: "map audit_gate (st_audit st) = compiler_gates" and c: "clean_audit (st_audit st)" by simp_all
  from m have "length (st_audit st) = length compiler_gates" by (metis length_map)
  with m c show ?thesis by (simp add: a clean_audit_def compiler_gates_def)
qed

theorem allow_audits_every_gate_witness:
  "length (allow_audit_decisions ex_allow) = 22"
  using allow_audits_every_gate [OF ex_compile] by blast

text \<open>
  C23. A denial names one reason, and its audit is a prefix of the gate order that ends with the gate
  that denied, with that reason; no earlier gate denied.
\<close>

theorem deny_audits_prefix:
  assumes "compile H generators cmd ctx = Inl (Denied d)"
  shows "\<exists>n r subject. n < 22 \<and> map audit_gate (deny_audit_decisions d) = take (Suc n) compiler_gates \<and>
    deny_reasons d = [\<lparr>reason_code = r, reason_subject_ref = subject, reason_retryable = False\<rparr>] \<and>
    audit_outcome (last (deny_audit_decisions d)) = GO_DENIED \<and>
    audit_reason_codes (last (deny_audit_decisions d)) = [r] \<and>
    (\<forall>x\<in>set (butlast (deny_audit_decisions d)). audit_outcome x \<noteq> GO_DENIED)"
proof -
  from run_steps_audit_denies [OF compile_gates_audited compile_denies [OF assms]]
  obtain n as r subject where n: "n < length compiler_gates"
    and d: "deny_audit_decisions d = as @ [\<lparr>audit_gate = compiler_gates ! n, audit_outcome = GO_DENIED, audit_reason_codes = [r]\<rparr>]"
    and as: "map audit_gate as = take n compiler_gates" "clean_audit as"
    and r: "deny_reasons d = [\<lparr>reason_code = r, reason_subject_ref = subject, reason_retryable = False\<rparr>]"
    by auto
  have "length compiler_gates = 22" by (simp add: compiler_gates_def)
  with n d as r show ?thesis
    by (intro exI [of _ n] exI [of _ r] exI [of _ subject]) (simp add: take_Suc_conv_app_nth clean_audit_def)
qed

definition ex_denied :: compile_deny where
  "ex_denied = (case compile ex_hash ex_generators (ex_command\<lparr>cmd_namespace := Namespace ''OTHER''\<rparr>) ex_context of
     Inl (Denied d) \<Rightarrow> d | _ \<Rightarrow> undefined)"

theorem deny_audits_prefix_witness:
  "\<exists>n. n < 22 \<and> map audit_gate (deny_audit_decisions ex_denied) = take (Suc n) compiler_gates \<and>
    audit_outcome (last (deny_audit_decisions ex_denied)) = GO_DENIED"
proof -
  let ?cmd = "ex_command\<lparr>cmd_namespace := Namespace ''OTHER''\<rparr>"
  have "validate_compile_command_shape ?cmd = Inr ()" by code_simp
  then have "\<exists>d. compile ex_hash ex_generators ?cmd ex_context = Inl (Denied d)"
    by (simp add: compile_def Let_def compile_gates_def request_schema_def namespace_community_def compile_env_of_def
        ex_command_def ex_context_def ex_case_def)
  then have "compile ex_hash ex_generators ?cmd ex_context = Inl (Denied ex_denied)"
    by (auto simp: ex_denied_def)
  from deny_audits_prefix [OF this] show ?thesis by blast
qed

section \<open>Authorization\<close>

text \<open>
  What the owner of a fact must have decided for it to leave: \<open>m\<close> is the current mandate of the fact's
  contributor, unaltered, approved by that contributor, in force at the time of the request, for this
  destination and purpose, and \<open>g\<close> is its grant for the fact.
\<close>

definition released ::
    "hasher \<Rightarrow> compile_command \<Rightarrow> compile_context \<Rightarrow> fact \<Rightarrow> disclosure_mandate \<Rightarrow> fact_grant \<Rightarrow> bool" where
  "released H cmd ctx f m g \<longleftrightarrow>
     f \<in> set (ctx_facts ctx) \<and> fact_id f \<in> rf_fact_id ` set (cmd_requested_facts cmd) \<and>
     fact_status f = FS_ACTIVE \<and> \<not> hard_internal f \<and>
     m \<in> set (ctx_mandates ctx) \<and>
     (\<exists>p\<in>set (ctx_mandate_pointers ctx). pointer_contributor_id p = fact_contributor_id f \<and>
        pointer_mandate_id p = mandate_id m \<and> pointer_version p = mandate_version m) \<and>
     mandate_contributor_id m = fact_contributor_id f \<and> mandate_case_id m = fact_case_id f \<and>
     hash_mandate_terms H m = mandate_terms_hash m \<and>
     mandate_status m = MS_APPROVED \<and> mandate_decision_actor_id m = Some (fact_contributor_id f) \<and>
     instant (mandate_valid_from m) \<le> instant (cmd_requested_at cmd) \<and>
     (\<forall>x. mandate_expires_at m = Some x \<longrightarrow> instant (cmd_requested_at cmd) < instant x) \<and>
     cmd_destination cmd = ctx_destination_registry_entry ctx \<and>
     sd_destination_id (cmd_destination cmd) \<in> set (mandate_allowed_destination_ids m) \<and>
     cmd_purpose cmd \<in> set (mandate_allowed_purposes m) \<and>
     g \<in> set (mandate_fact_grants m) \<and> grant_fact_id g = fact_id f \<and>
     grant_max_scope g \<noteq> INTERNAL_ONLY \<and> grant_allow_safe_transformation g \<and>
     (fact_type f = IDENTITY_ATTRIBUTE \<longrightarrow>
        identity_externally_shareable (mandate_identity_grant m) \<and> grant_max_scope g \<in> {NAMED_CASE, EXTERNAL_ACTION})"

lemma scope_reason_None:
  "scope_reason c = None \<Longrightarrow> fact_status (cand_fact c) = FS_ACTIVE \<and> \<not> hard_internal (cand_fact c) \<and>
     (\<exists>g. cand_grant c = Some g \<and> grant_max_scope g \<noteq> INTERNAL_ONLY \<and> grant_allow_safe_transformation g)"
  by (auto simp: scope_reason_def Let_def split: if_splits option.splits)

lemma mandate_reasons_None:
  assumes "cand_mandate c = Some m"
  shows "approval_reason c = None \<Longrightarrow> revocation_reason now c = None \<Longrightarrow> expiration_reason now c = None \<Longrightarrow>
      mandate_status m = MS_APPROVED \<and> mandate_decision_actor_id m = Some (mandate_contributor_id m) \<and>
      instant (mandate_valid_from m) \<le> instant now \<and> \<not> opt_test (\<lambda>x. instant now \<ge> instant x) (mandate_expires_at m)"
    and "destination_reason dest entry c = None \<Longrightarrow> dest = entry \<and> sd_destination_id dest \<in> set (mandate_allowed_destination_ids m)"
    and "purpose_reason p c = None \<Longrightarrow> p \<in> set (mandate_allowed_purposes m)"
    and "identity_reason c = None \<Longrightarrow> cand_grant c = Some g \<Longrightarrow> fact_type (cand_fact c) = IDENTITY_ATTRIBUTE \<Longrightarrow>
      identity_externally_shareable (mandate_identity_grant m) \<and> grant_max_scope g \<in> {NAMED_CASE, EXTERNAL_ACTION}"
  using assms
  by (auto simp: approval_reason_def revocation_reason_def expiration_reason_def destination_reason_def
      purpose_reason_def identity_reason_def Let_def split: if_splits)

lemma opt_test_expiry: "\<not> opt_test (\<lambda>x. instant now \<ge> instant x) d \<longleftrightarrow> (\<forall>x. d = Some x \<longrightarrow> instant now < instant x)"
  by (cases d) auto

lemma authorized_released:
  assumes ok: "candidates_ok (compile_env_of H generators cmd ctx) cs" and c: "c \<in> set cs"
    and au: "authorized (compile_env_of H generators cmd ctx) c"
  obtains m g where "cand_mandate c = Some m" "cand_grant c = Some g" "scope_of c = grant_max_scope g"
    "released H cmd ctx (cand_fact c) m g"
proof -
  let ?e = "compile_env_of H generators cmd ctx"
  have env: "env_hash ?e = H" "env_command ?e = cmd" "env_context ?e = ctx" by (simp_all add: compile_env_of_def Let_def)
  note A = au [unfolded authorized_def env bound_def]
  from A obtain p m where p: "cand_mandate c = Some m" "p \<in> set (ctx_mandate_pointers ctx)" "m \<in> set (ctx_mandates ctx)"
    "mandate_key m = (pointer_mandate_id p, pointer_version p)" "mandate_integrity H (cand_fact c) p m"
    "cand_grant c = List.find (\<lambda>g. grant_fact_id g = cand_id c) (mandate_fact_grants m)" by blast
  from A have "scope_reason c = None" by blast
  from scope_reason_None [OF this] obtain g where g: "fact_status (cand_fact c) = FS_ACTIVE" "\<not> hard_internal (cand_fact c)"
    "cand_grant c = Some g" "grant_max_scope g \<noteq> INTERNAL_ONLY" "grant_allow_safe_transformation g" by blast
  have gm: "g \<in> set (mandate_fact_grants m)" "grant_fact_id g = cand_id c"
    using find_SomeD [of _ _ g] p(6) g(3) by auto
  have req: "fact_id (cand_fact c) \<in> rf_fact_id ` set (cmd_requested_facts cmd)" "cand_fact c \<in> set (ctx_facts ctx)"
  proof -
    from ok have r: "map cand_request cs = sort_key rf_fact_id (cmd_requested_facts cmd)"
      and f: "cand_fact c \<in> set (ctx_facts ctx)" "cand_id c = rf_fact_id (cand_request c)"
      using c by (auto simp: candidates_ok_def env)
    have "set (map cand_request cs) = set (cmd_requested_facts cmd)" unfolding r by simp
    with c have "cand_request c \<in> set (cmd_requested_facts cmd)" by (metis imageI set_map)
    with f show "fact_id (cand_fact c) \<in> rf_fact_id ` set (cmd_requested_facts cmd)" "cand_fact c \<in> set (ctx_facts ctx)" by auto
  qed
  note M = mandate_reasons_None [OF p(1)]
  have approved: "mandate_status m = MS_APPROVED \<and> mandate_decision_actor_id m = Some (mandate_contributor_id m) \<and>
      instant (mandate_valid_from m) \<le> instant (cmd_requested_at cmd) \<and>
      \<not> opt_test (\<lambda>x. instant (cmd_requested_at cmd) \<ge> instant x) (mandate_expires_at m)"
    by (rule M(1)) (use A in blast)+
  have dest: "cmd_destination cmd = ctx_destination_registry_entry ctx \<and>
      sd_destination_id (cmd_destination cmd) \<in> set (mandate_allowed_destination_ids m)"
    by (rule M(2)) (use A in blast)
  have purpose: "cmd_purpose cmd \<in> set (mandate_allowed_purposes m)"
    by (rule M(3)) (use A in blast)
  have ident: "fact_type (cand_fact c) = IDENTITY_ATTRIBUTE \<Longrightarrow>
      identity_externally_shareable (mandate_identity_grant m) \<and> grant_max_scope g \<in> {NAMED_CASE, EXTERNAL_ACTION}"
    by (rule M(4) [OF _ g(3)]) (use A in blast)
  have int: "pointer_contributor_id p = fact_contributor_id (cand_fact c)" "pointer_mandate_id p = mandate_id m"
    "pointer_version p = mandate_version m" "mandate_contributor_id m = fact_contributor_id (cand_fact c)"
    "mandate_case_id m = fact_case_id (cand_fact c)" "hash_mandate_terms H m = mandate_terms_hash m"
    using p(4,5) by (simp_all add: mandate_integrity_def mandate_key_def)
  have pointer: "\<exists>p\<in>set (ctx_mandate_pointers ctx). pointer_contributor_id p = fact_contributor_id (cand_fact c) \<and>
      pointer_mandate_id p = mandate_id m \<and> pointer_version p = mandate_version m"
    using p(2) int(1-3) by blast
  have "released H cmd ctx (cand_fact c) m g"
    unfolding released_def opt_test_expiry [symmetric]
    using approved [unfolded int(4)] dest purpose ident pointer int(4-6) p(3) g(1,2,4,5) gm req by blast
  with p(1) g(3) show thesis by (intro that [of m g]) (simp_all add: scope_of_def)
qed

text \<open>
  How the text of an exported fact comes from facts: a rule applied to all of them at the scope exported,
  or, for one evidence description, the caption of the safe derivative of an evidence item that the
  request names and the fact cites.
\<close>

definition rendered_from ::
    "hasher \<Rightarrow> compile_command \<Rightarrow> compile_context \<Rightarrow> fact list \<Rightarrow> shareable_fact \<Rightarrow> bool" where
  "rendered_from H cmd ctx fs out \<longleftrightarrow>
     transform_facts H (sf_export_fact_id out) fs (sf_effective_scope out) = Inr out \<or>
     (\<exists>f s r. fs = [f] \<and> s \<in> set (ctx_safe_evidence_candidates ctx) \<and>
        se_source_evidence_id s \<in> set (requested_evidence cmd f) \<and> build_safe_evidence_ref H s (ser_id r) = Inr r \<and>
        transform_evidence_description H (sf_export_fact_id out) f (sf_effective_scope out) r = Inr out)"

lemma safe_ref_id: "build_safe_evidence_ref H s rid = Inr r \<Longrightarrow> ser_id r = rid"
  by (auto simp: build_safe_evidence_ref_def result_simps)

lemma made_from_members:
  assumes "made_from e el out"
  obtains members where "members \<noteq> []" "set members \<subseteq> set el"
    "\<forall>c\<in>set members. scope_of c = sf_effective_scope out \<and> fact_type (cand_fact c) = sf_fact_type out"
    "sf_contributor_count out = contributor_count (map cand_fact members)"
    "sf_content_hash out = env_hash e (JObj (j_shareable_fact_members out))"
    "rendered_from (env_hash e) (env_command e) (env_context e) (map cand_fact members) out"
  using assms
proof (cases rule: made_from.cases)
  case (rule members scope eid)
  note t = transform_facts_types [OF rule(4)]
  from rule t show thesis by (intro that [of members]) (auto simp: rendered_from_def)
next
  case (photo c i r eid)
  from photo(5) have b: "build_shareable_fact (env_hash e) eid [cand_fact c] (ser_caption r) (scope_of c) TK_GENERALIZED
      ''p1.evidence.photo.v1'' [ser_id r] = Inr out"
    by (auto simp: transform_evidence_description_def split: fact_value.splits)
  note d = build_shareable_factD [OF b]
  from photo(4) obtain s rid where s: "s \<in> set (ctx_safe_evidence_candidates (env_context e))"
    "se_source_evidence_id s = i" "build_safe_evidence_ref (env_hash e) s rid = Inr r"
    by (auto simp: safe_ref_of_def dest: index_by_SomeD)
  then have "rendered_from (env_hash e) (env_command e) (env_context e) [cand_fact c] out"
    unfolding rendered_from_def using photo(3,5) safe_ref_id [OF s(3)] d(2,5)
    by (intro disjI2 exI [of _ "cand_fact c"] exI [of _ s] exI [of _ r]) simp
  then show thesis by (intro that [of "[c]"]) (use photo d in auto)
qed

text \<open>
  C2. Every fact of an exported view is rendered from requested facts of the case that all their owners
  released: each under the current, unaltered, approved, unexpired mandate of its own contributor, for
  the destination and purpose of the request, at exactly the scope of that grant. The exported record
  is the result of the transformation rule on these facts and this scope alone (or of the photo rule on
  the one fact and a safe derivative of an evidence item that fact cites), and the count of contributors
  shown is theirs.
\<close>

theorem exported_facts_released:
  assumes "compile H generators cmd ctx = Inr a" "out \<in> set (view_shareable_facts (allow_view a))"
  shows "\<exists>fs. fs \<noteq> [] \<and> rendered_from H cmd ctx fs out \<and> sf_contributor_count out = contributor_count fs \<and>
    (\<forall>f\<in>set fs. fact_type f = sf_fact_type out \<and>
       (\<exists>m g. released H cmd ctx f m g \<and> grant_max_scope g = sf_effective_scope out))"
  using assms(1)
proof (rule compile_allowed)
  fix e cs ts snapshot
  assume e: "e = compile_env_of H generators cmd ctx" and ok: "candidates_ok e cs"
    and au: "\<forall>c\<in>set cs. eligible c \<longrightarrow> authorized e c" and t: "transform e cs = Inr ts"
    and v: "allow_view a = (let d = draft_view e ts (map (with_exports ts) cs) (H snapshot) in d\<lparr>view_hash := hash_view H d\<rparr>)"
  have "out \<in> set (ts_facts ts)" using assms(2) by (simp add: v Let_def draft_view_def)
  with transform_outputs [OF t] have "made_from e (exportable cs) out" by (simp add: outputs_ok_def)
  then obtain members where m: "members \<noteq> []" "set members \<subseteq> set (exportable cs)"
    "\<forall>c\<in>set members. scope_of c = sf_effective_scope out \<and> fact_type (cand_fact c) = sf_fact_type out"
    "sf_contributor_count out = contributor_count (map cand_fact members)"
    "rendered_from (env_hash e) (env_command e) (env_context e) (map cand_fact members) out"
    by (rule made_from_members)
  have env: "env_hash e = H" "env_command e = cmd" "env_context e = ctx" by (simp_all add: e compile_env_of_def Let_def)
  have "\<exists>mm g. released H cmd ctx (cand_fact c) mm g \<and> grant_max_scope g = sf_effective_scope out" if "c \<in> set members" for c
  proof -
    from that m(2) have c: "c \<in> set cs" "eligible c" by (auto simp: exportable_def)
    with au have "authorized e c" by blast
    with ok c(1) obtain mm g where "scope_of c = grant_max_scope g" "released H cmd ctx (cand_fact c) mm g"
      unfolding e by (rule authorized_released) blast
    with m(3) that show ?thesis by auto
  qed
  with m env show ?thesis by (intro exI [of _ "map cand_fact members"]) auto
qed

lemma ex_view_facts: "view_shareable_facts (allow_view ex_allow) = [ex_shareable_fact]"
proof -
  have "allow_view ex_allow = ex_draft\<lparr>view_hash := hash_view ex_hash ex_draft\<rparr>"
    by (rule ex_allow_view)
  then show ?thesis by (simp add: ex_draft_def draft_view_def Let_def ex_transform_def)
qed

theorem exported_facts_released_witness:
  "\<exists>fs f m g. rendered_from ex_hash ex_command ex_context fs ex_shareable_fact \<and> f \<in> set fs \<and>
     released ex_hash ex_command ex_context f m g \<and> grant_max_scope g = ANONYMOUS_CASE"
proof -
  have "ex_shareable_fact \<in> set (view_shareable_facts (allow_view ex_allow))" by (simp add: ex_view_facts)
  from exported_facts_released [OF ex_compile this] obtain fs where "fs \<noteq> []"
    "rendered_from ex_hash ex_command ex_context fs ex_shareable_fact" "\<forall>f\<in>set fs. \<exists>m g. released ex_hash ex_command ex_context f m g \<and> grant_max_scope g = sf_effective_scope ex_shareable_fact"
    by blast
  moreover have "sf_effective_scope ex_shareable_fact = ANONYMOUS_CASE" by (simp add: ex_shareable_fact_def)
  ultimately show ?thesis by (metis list.set_intros(1) neq_Nil_conv)
qed

section \<open>Included and excluded facts\<close>

lemma cand_fact_with_exports [simp]: "cand_fact (with_exports ts c) = cand_fact c"
  "cand_excluded_reasons (with_exports ts c) = cand_excluded_reasons c" "cand_request (with_exports ts c) = cand_request c"
  "cand_mandate (with_exports ts c) = cand_mandate c"
  by (simp_all add: with_exports_def)

lemma eligible_with_exports [simp]: "eligible (with_exports ts c) = eligible c"
  by (simp add: eligible_def)

text \<open>After gate 21 a candidate carries export identifiers exactly when it is still eligible.\<close>

lemma exported_iff_eligible:
  assumes "candidates_ok (compile_env_of H generators cmd ctx) cs" "c \<in> set cs" "distinct (map cand_id cs)"
    "\<forall>c\<in>set cs. eligible c \<longrightarrow> authorized (compile_env_of H generators cmd ctx) c"
    "transform (compile_env_of H generators cmd ctx) cs = Inr ts"
  shows "cand_export_ids (with_exports ts c) \<noteq> [] \<longleftrightarrow> eligible c"
proof -
  have "cand_export_ids c = []" using assms(1,2) by (simp add: candidates_ok_def)
  from with_exports_nonempty [OF assms(5,3,2) this]
  have "cand_export_ids (with_exports ts c) \<noteq> [] \<longleftrightarrow> eligible c \<and> cand_grant c \<noteq> None" .
  moreover have "cand_grant c \<noteq> None" if "eligible c"
  proof -
    from assms(2,4) that have "authorized (compile_env_of H generators cmd ctx) c" by blast
    with assms(1,2) show ?thesis by (auto elim: authorized_released)
  qed
  ultimately show ?thesis by blast
qed

lemma candidate_requests:
  assumes "candidates_ok (compile_env_of H generators cmd ctx) cs"
  shows "map cand_request cs = sort_key rf_fact_id (cmd_requested_facts cmd)"
    "set (map cand_request cs) = set (cmd_requested_facts cmd)"
    "mset (map cand_id cs) = mset (map rf_fact_id (cmd_requested_facts cmd))"
proof -
  show requests: "map cand_request cs = sort_key rf_fact_id (cmd_requested_facts cmd)"
    using assms by (simp add: candidates_ok_def compile_env_of_def Let_def)
  then show "set (map cand_request cs) = set (cmd_requested_facts cmd)" by simp
  have "map cand_id cs = map (rf_fact_id \<circ> cand_request) cs" by (rule map_cong) (use assms in \<open>auto simp: candidates_ok_def\<close>)
  also have "\<dots> = map rf_fact_id (sort_key rf_fact_id (cmd_requested_facts cmd))" unfolding requests [symmetric] by simp
  finally show "mset (map cand_id cs) = mset (map rf_fact_id (cmd_requested_facts cmd))" by simp
qed

lemma included_ids:
  assumes "\<And>c. c \<in> set cs \<Longrightarrow> cand_export_ids (with_exports ts c) \<noteq> [] \<longleftrightarrow> eligible c"
  shows "map inc_fact_id (included_facts (map (with_exports ts) cs)) = map cand_id (filter eligible cs)"
proof -
  have "filter (\<lambda>c. cand_export_ids (with_exports ts c) \<noteq> []) cs = filter eligible cs" by (rule filter_cong) (use assms in auto)
  then show ?thesis by (simp add: included_facts_def filter_map comp_def)
qed

lemma excluded_ids:
  "map exc_fact_id (excluded_facts (map (with_exports ts) cs)) = map cand_id (filter (\<lambda>c. \<not> eligible c) cs)"
  by (simp add: excluded_facts_def filter_map comp_def eligible_def)

text \<open>
  C8. An allowed compile accounts for every requested fact exactly once, as included or as excluded
  with a reason; a fact requested as REQUIRED is always included; and every included fact was released
  by its owner.
\<close>

theorem allow_partitions_request:
  assumes "compile H generators cmd ctx = Inr a"
  shows "mset (map inc_fact_id (allow_included a)) + mset (map exc_fact_id (allow_excluded a)) =
      mset (map rf_fact_id (cmd_requested_facts cmd)) \<and>
    (\<forall>r\<in>set (cmd_requested_facts cmd). rf_necessity r = NC_REQUIRED \<longrightarrow>
       rf_fact_id r \<in> inc_fact_id ` set (allow_included a)) \<and>
    (\<forall>i\<in>set (allow_included a). \<exists>f m g. fact_id f = inc_fact_id i \<and> released H cmd ctx f m g) \<and>
    (\<forall>x\<in>set (allow_excluded a). exc_reason_codes x \<noteq> [])"
  using assms
proof (rule compile_allowed)
  fix e cs ts snapshot
  assume e: "e = compile_env_of H generators cmd ctx" and ok: "candidates_ok e cs"
    and au: "\<forall>c\<in>set cs. eligible c \<longrightarrow> authorized e c" and d: "distinct (map cand_id cs)"
    and t: "transform e cs = Inr ts"
    and inc: "allow_included a = included_facts (map (with_exports ts) cs)"
    and exc: "allow_excluded a = excluded_facts (map (with_exports ts) cs)"
  have ex: "cand_export_ids (with_exports ts c) \<noteq> [] \<longleftrightarrow> eligible c" if "c \<in> set cs" for c
    using exported_iff_eligible [of H generators cmd ctx cs c ts] that ok au d t unfolding e by blast
  have i: "map inc_fact_id (allow_included a) = map cand_id (filter eligible cs)"
    using ex unfolding inc by (rule included_ids)
  have x: "map exc_fact_id (allow_excluded a) = map cand_id (filter (\<lambda>c. \<not> eligible c) cs)"
    unfolding exc by (rule excluded_ids)
  note requests = candidate_requests [OF ok [unfolded e]]
  have "mset (map cand_id (filter eligible cs)) + mset (map cand_id (filter (\<lambda>c. \<not> eligible c) cs)) = mset (map cand_id cs)"
    by (simp flip: image_mset_union add: multiset_partition [symmetric])
  with requests(3) have part: "mset (map inc_fact_id (allow_included a)) + mset (map exc_fact_id (allow_excluded a)) =
      mset (map rf_fact_id (cmd_requested_facts cmd))" unfolding i x by simp
  have req: "rf_fact_id r \<in> inc_fact_id ` set (allow_included a)"
    if "r \<in> set (cmd_requested_facts cmd)" "rf_necessity r = NC_REQUIRED" for r
  proof -
    from that(1) requests(2) obtain c where c: "c \<in> set cs" "cand_request c = r" by (metis imageE set_map)
    with ok that(2) have "eligible c" "cand_id c = rf_fact_id r" by (auto simp: candidates_ok_def required_def)
    with c(1) have "rf_fact_id r \<in> set (map inc_fact_id (allow_included a))" unfolding i by force
    then show ?thesis by simp
  qed
  have rel: "\<exists>f m g. fact_id f = inc_fact_id y \<and> released H cmd ctx f m g" if "y \<in> set (allow_included a)" for y
  proof -
    from that have "inc_fact_id y \<in> set (map cand_id (filter eligible cs))" unfolding i [symmetric] by simp
    then obtain c where c: "c \<in> set cs" "eligible c" "cand_id c = inc_fact_id y" by auto
    with au have "authorized e c" by blast
    with ok c(1) obtain m g where "released H cmd ctx (cand_fact c) m g" unfolding e by (rule authorized_released)
    with c(3) show ?thesis by blast
  qed
  have "\<forall>x\<in>set (allow_excluded a). exc_reason_codes x \<noteq> []"
    by (auto simp: exc excluded_facts_def)
  with part req rel show ?thesis by blast
qed

theorem allow_partitions_request_witness:
  "Ident 31 \<in> inc_fact_id ` set (allow_included ex_allow)"
  using allow_partitions_request [OF ex_compile] by (simp add: ex_command_def)

section \<open>The view\<close>

text \<open>
  C15. An exported view contains no text the output scan rejects: neither a safe text nor a caption
  matches the unsafe-value expression.
\<close>

theorem exported_texts_safe:
  assumes "compile H generators cmd ctx = Inr a"
  shows "(\<forall>f\<in>set (view_shareable_facts (allow_view a)). \<not> search UNSAFE_VALUE (sf_safe_text f)) \<and>
    (\<forall>r\<in>set (view_safe_evidence_refs (allow_view a)). \<not> search UNSAFE_VALUE (ser_caption r)) \<and>
    \<not> search UNSAFE_VALUE (view_community_public_label (allow_view a))"
  using assms
proof (rule compile_allowed)
  fix e cs ts snapshot
  let ?d = "draft_view e ts (map (with_exports ts) cs) (H snapshot)"
  assume s: "\<not> unsafe_output ?d" and v: "allow_view a = (let d = ?d in d\<lparr>view_hash := hash_view H d\<rparr>)"
  have "view_community_public_label ?d \<in> strings_of (j_view ?d)"
    by (simp add: j_view_def j_view_members_def)
  with s have "\<not> search UNSAFE_VALUE (view_community_public_label ?d)"
    unfolding unsafe_output_def using unsafe_walk_strings(1) by blast
  with s unsafe_output_safe_text [of _ ?d] unsafe_output_caption [of _ ?d] show ?thesis
    unfolding v Let_def by auto
qed

theorem exported_texts_safe_witness: "\<not> search UNSAFE_VALUE ''The reported issue concerns the lobby.''"
proof -
  have "\<forall>f\<in>set (view_shareable_facts (allow_view ex_allow)). \<not> search UNSAFE_VALUE (sf_safe_text f)"
    using exported_texts_safe [OF ex_compile] by blast
  then show ?thesis by (simp add: ex_view_facts ex_shareable_fact_def)
qed

lemma view_expiry_bounds:
  assumes "\<And>m x. m \<in> set ms \<Longrightarrow> mandate_expires_at m = Some x \<Longrightarrow> instant t < instant x"
  shows "instant t < instant (view_expiry t ms)" "instant (view_expiry t ms) \<le> instant t + 900000000"
    "m \<in> set ms \<Longrightarrow> mandate_expires_at m = Some x \<Longrightarrow> instant (view_expiry t ms) \<le> instant x"
proof -
  let ?lim = "add_micros t (seconds VIEW_LIFETIME_SECONDS)" and ?exp = "List.map_filter mandate_expires_at ms"
  have exp: "set ?exp = {x. \<exists>m\<in>set ms. mandate_expires_at m = Some x}" by (force simp: List.map_filter_def)
  have lim: "instant ?lim = instant t + 900000000" by (simp add: seconds_def VIEW_LIFETIME_SECONDS_def)
  from dt_min_mem [of ?lim ?exp] have "dt_min ?lim ?exp = ?lim \<or> (\<exists>m\<in>set ms. mandate_expires_at m = Some (dt_min ?lim ?exp))"
    unfolding exp by simp
  with assms lim show "instant t < instant (view_expiry t ms)" unfolding view_expiry_def by fastforce
  show "instant (view_expiry t ms) \<le> instant t + 900000000"
    using dt_min_le [of ?lim ?lim ?exp] lim by (simp add: view_expiry_def)
  show "instant (view_expiry t ms) \<le> instant x" if "m \<in> set ms" "mandate_expires_at m = Some x"
    unfolding view_expiry_def using exp that by (intro dt_min_le) blast
qed

text \<open>
  C21. A view expires after the request, at most fifteen minutes later and not after the expiry of any
  mandate it relies on; the mandate of every included fact is among those it lists; its hash is the hash of
  its own content.
\<close>

theorem view_bounds:
  assumes "compile H generators cmd ctx = Inr a"
  shows "instant (cmd_requested_at cmd) < instant (view_expires_at (allow_view a)) \<and>
    instant (view_expires_at (allow_view a)) \<le> instant (cmd_requested_at cmd) + 900000000 \<and>
    (\<forall>i\<in>set (allow_included a). \<exists>f m g. fact_id f = inc_fact_id i \<and> released H cmd ctx f m g \<and>
       (\<forall>x. mandate_expires_at m = Some x \<longrightarrow> instant (view_expires_at (allow_view a)) \<le> instant x) \<and>
       \<lparr>mvr_mandate_id = uuid_of (mandate_id m), mvr_version = mandate_version m, mvr_terms_hash = mandate_terms_hash m\<rparr>
         \<in> set (view_mandate_version_set (allow_view a))) \<and>
    view_hash (allow_view a) = hash_view H (allow_view a)"
  using assms
proof (rule compile_allowed)
  fix e cs ts snapshot
  let ?cs = "map (with_exports ts) cs"
  let ?d = "draft_view e ts ?cs (H snapshot)"
  assume e: "e = compile_env_of H generators cmd ctx" and ok: "candidates_ok e cs"
    and au: "\<forall>c\<in>set cs. eligible c \<longrightarrow> authorized e c" and t: "transform e cs = Inr ts"
    and d: "distinct (map cand_id cs)"
    and v: "allow_view a = (let d = ?d in d\<lparr>view_hash := hash_view H d\<rparr>)"
    and inc: "allow_included a = included_facts ?cs"
  have env: "env_command e = cmd" by (simp add: e compile_env_of_def Let_def)
  let ?ms = "relied_mandates ?cs"
  have expiry: "view_expires_at (allow_view a) = view_expiry (cmd_requested_at cmd) ?ms"
    and refs: "view_mandate_version_set (allow_view a) = mandate_refs ?ms"
    by (simp_all add: v Let_def draft_view_def env)
  have ex: "cand_export_ids (with_exports ts c) \<noteq> [] \<longleftrightarrow> eligible c" if "c \<in> set cs" for c
    using exported_iff_eligible [of H generators cmd ctx cs c ts] that ok au d t unfolding e by blast
  have rel: "\<exists>m g. cand_mandate c = Some m \<and> released H cmd ctx (cand_fact c) m g" if "c \<in> set cs" "eligible c" for c
  proof -
    from that au have "authorized e c" by blast
    with ok that(1) obtain m g where "cand_mandate c = Some m" "released H cmd ctx (cand_fact c) m g"
      unfolding e by (rule authorized_released)
    then show ?thesis by blast
  qed
  have ms: "set ?ms = {m. \<exists>c\<in>set cs. eligible c \<and> cand_mandate c = Some m}"
    using ex by (auto simp: relied_mandates_def List.map_filter_def) force
  have live: "instant (cmd_requested_at cmd) < instant x" if m: "m \<in> set ?ms" "mandate_expires_at m = Some x" for m x
  proof -
    from m(1) obtain c where "c \<in> set cs" "eligible c" "cand_mandate c = Some m" unfolding ms by blast
    with rel obtain g where "released H cmd ctx (cand_fact c) m g" by fastforce
    with m(2) show ?thesis by (simp add: released_def)
  qed
  have bounds: "instant (cmd_requested_at cmd) < instant (view_expiry (cmd_requested_at cmd) ?ms)"
    "instant (view_expiry (cmd_requested_at cmd) ?ms) \<le> instant (cmd_requested_at cmd) + 900000000"
    by (rule view_expiry_bounds, erule live, assumption)+
  have each: "\<exists>f m g. fact_id f = inc_fact_id i \<and> released H cmd ctx f m g \<and>
       (\<forall>x. mandate_expires_at m = Some x \<longrightarrow> instant (view_expires_at (allow_view a)) \<le> instant x) \<and>
       \<lparr>mvr_mandate_id = uuid_of (mandate_id m), mvr_version = mandate_version m, mvr_terms_hash = mandate_terms_hash m\<rparr>
         \<in> set (view_mandate_version_set (allow_view a))" if "i \<in> set (allow_included a)" for i
  proof -
    from that obtain c where c: "c \<in> set cs" "cand_export_ids (with_exports ts c) \<noteq> []" "inc_fact_id i = cand_id c"
      by (auto simp: inc included_facts_def)
    with ex have "eligible c" by blast
    from rel [OF c(1) this] obtain m g where m: "cand_mandate c = Some m" "released H cmd ctx (cand_fact c) m g" by blast
    with c(1) \<open>eligible c\<close> have m_in: "m \<in> set ?ms" unfolding ms by blast
    moreover have "instant (view_expires_at (allow_view a)) \<le> instant x" if "mandate_expires_at m = Some x" for x
      unfolding expiry by (rule view_expiry_bounds(3), erule live, assumption, rule m_in, rule that)
    ultimately show ?thesis
      using m(2) c(3) by (intro exI [of _ "cand_fact c"] exI [of _ m] exI [of _ g]) (auto simp: refs mandate_refs_def)
  qed
  have "view_hash (allow_view a) = hash_view H (allow_view a)"
    by (simp add: v Let_def hash_view_def j_view_members_def)
  with bounds(1,2) each show ?thesis unfolding expiry by blast
qed

theorem view_bounds_witness: "instant ex_now < instant (view_expires_at (allow_view ex_allow))"
proof -
  have "cmd_requested_at ex_command = ex_now" by (simp add: ex_command_def)
  with view_bounds [OF ex_compile] show ?thesis by simp
qed

section \<open>Corroboration and types\<close>

text \<open>
  C14. Nothing is exported from an uncorroborated case: an ALLOW implies that two active facts of the
  case, by different contributors, have different origins, and that the case's own recorded count is at
  least two.
\<close>

theorem allow_corroborated:
  assumes "compile H generators cmd ctx = Inr a"
  shows "2 \<le> case_corroboration_count (ctx_case ctx) \<and>
    (\<exists>n. independent_source_count (active_case_facts ctx) (ctx_reports ctx) (ctx_evidence_items ctx)
           (ctx_evidence_roots ctx) = Inr n \<and> 2 \<le> n)"
proof -
  let ?e = "compile_env_of H generators cmd ctx"
  from assms obtain st where r: "run_steps (compile_gates ?e) compile_start = Inr st" by (rule compile_runs)
  have "compile_gates ?e = take 16 (compile_gates ?e) @ independence ?e # drop 17 (compile_gates ?e)"
    by (simp add: compile_gates_def Let_def)
  with r obtain s t where i: "independence ?e s = Inr t" using run_steps_split by metis
  have c: "env_context ?e = ctx" by (simp add: compile_env_of_def Let_def)
  from i show ?thesis
    by (auto simp: independence_def Let_def c CORROBORATION_MIN_def split: sum.splits error.splits if_splits)
qed

theorem allow_corroborated_witness:
  "\<exists>n. independent_source_count (active_case_facts ex_context) (ctx_reports ex_context) (ctx_evidence_items ex_context)
         (ctx_evidence_roots ex_context) = Inr n \<and> 2 \<le> n"
  using allow_corroborated [OF ex_compile] by blast

text \<open>
  C16. No unit, health, management or commitment fact is ever part of an exported view, whatever mandate
  was given; nothing is exported at the internal scope, and each fact's content hash covers its members.
\<close>

theorem protected_facts_never_exported:
  assumes "compile H generators cmd ctx = Inr a" "out \<in> set (view_shareable_facts (allow_view a))"
  shows "sf_fact_type out \<in> {INCIDENT_OCCURRENCE, SERVICE_IMPACT, LOCATION_AREA, IDENTITY_ATTRIBUTE, CONTRADICTION,
      EVIDENCE_DESCRIPTION} \<and> sf_effective_scope out \<noteq> INTERNAL_ONLY \<and>
    sf_content_hash out = H (JObj (j_shareable_fact_members out))"
  using assms(1)
proof (rule compile_allowed)
  fix e cs ts snapshot
  assume e: "e = compile_env_of H generators cmd ctx" and ok: "candidates_ok e cs"
    and au: "\<forall>c\<in>set cs. eligible c \<longrightarrow> authorized e c" and t: "transform e cs = Inr ts"
    and v: "allow_view a = (let d = draft_view e ts (map (with_exports ts) cs) (H snapshot) in d\<lparr>view_hash := hash_view H d\<rparr>)"
  have "out \<in> set (ts_facts ts)" using assms(2) by (simp add: v Let_def draft_view_def)
  with transform_outputs [OF t] have "made_from e (exportable cs) out" by (simp add: outputs_ok_def)
  then obtain members where m: "members \<noteq> []" "set members \<subseteq> set (exportable cs)"
    "\<forall>c\<in>set members. scope_of c = sf_effective_scope out \<and> fact_type (cand_fact c) = sf_fact_type out"
    "sf_content_hash out = env_hash e (JObj (j_shareable_fact_members out))"
    by (rule made_from_members)
  from m(1) obtain c where "c \<in> set members" by (cases members) auto
  with m(2,3) have c: "c \<in> set cs" "eligible c" "scope_of c = sf_effective_scope out" "fact_type (cand_fact c) = sf_fact_type out"
    by (auto simp: exportable_def)
  with au have a': "authorized e c" by blast
  with ok c(1) obtain mm g where g: "scope_of c = grant_max_scope g" "released H cmd ctx (cand_fact c) mm g"
    unfolding e by (rule authorized_released)
  have "fact_type (cand_fact c) \<in> MINIMUM_NECESSARY_TYPES"
    using a' by (auto simp: authorized_def minimum_necessity_reason_def Let_def split: if_splits)
  moreover have "env_hash e = H" by (simp add: e compile_env_of_def Let_def)
  ultimately show ?thesis
    using g c(3,4) m(4) by (auto simp: released_def MINIMUM_NECESSARY_TYPES_def)
qed

theorem protected_facts_never_exported_witness:
  "sf_content_hash ex_shareable_fact = ex_hash (JObj (j_shareable_fact_members ex_shareable_fact))"
proof -
  have "ex_shareable_fact \<in> set (view_shareable_facts (allow_view ex_allow))" by (simp add: ex_view_facts)
  from protected_facts_never_exported [OF ex_compile this] show ?thesis by blast
qed

section \<open>The evidence gate\<close>

text \<open>
  C40. Gate 20 acts on the first unsafe candidate and on no other. With no eligible candidate whose
  requested evidence is unsafe it passes and changes nothing; when the first one is required the compile
  is denied for it; when the first one is optional that candidate, and only that one, is excluded with
  \<open>UNSAFE_EVIDENCE\<close>, so that every later unsafe candidate stays eligible, a required one too.
\<close>

theorem evidence_gate_acts_on_first:
  assumes handles: "distinct (map se_source_evidence_id (ctx_safe_evidence_candidates (env_context e)))"
      "distinct (map se_export_handle_id (ctx_safe_evidence_candidates (env_context e)))"
    and ids: "distinct (map cand_id (st_candidates st))"
  shows "case List.find (\<lambda>c. eligible c \<and> evidence_unsafe (env_command e) (env_context e) c) (st_candidates st) of
      None \<Rightarrow> evidence_safety e st = Inr (passed EVIDENCE_SAFETY st)
    | Some c \<Rightarrow>
        if required c then evidence_safety e st = refuse e st EVIDENCE_SAFETY CR_UNSAFE_EVIDENCE (Some (ident_str (cand_id c)))
        else \<exists>st' pre post. evidence_safety e st = Inr st' \<and> st_candidates st = pre @ c # post \<and>
          st_candidates st' = pre @ exclude CR_UNSAFE_EVIDENCE c # post \<and>
          \<not> eligible (exclude CR_UNSAFE_EVIDENCE c)"
proof (cases "List.find (\<lambda>c. eligible c \<and> evidence_unsafe (env_command e) (env_context e) c) (st_candidates st)")
  case None
  then show ?thesis using handles by (simp add: evidence_safety_def Let_def)
next
  case (Some c)
  let ?cs = "st_candidates st"
  let ?ex = "\<lambda>x. if cand_id x = cand_id c then exclude CR_UNSAFE_EVIDENCE x else x"
  from find_SomeD [OF Some] obtain pre post where split: "?cs = pre @ c # post"
    by (meson split_list)
  have "distinct (map cand_id pre @ cand_id c # map cand_id post)"
    using ids by (simp only: split map_append list.map)
  then have away: "cand_id c \<notin> cand_id ` set pre" "cand_id c \<notin> cand_id ` set post" by simp_all
  have same: "map ?ex xs = xs" if "cand_id c \<notin> cand_id ` set xs" for xs
    using that by (induction xs) auto
  have no_pre: "List.find (\<lambda>x. cand_id x = cand_id c \<and> required x) pre = None"
    and no_post: "List.find (\<lambda>x. cand_id x = cand_id c \<and> required x) post = None"
    using away by (auto simp: find_None_iff image_iff)
  show ?thesis
  proof (cases "required c")
    case True
    have "List.find (\<lambda>x. cand_id x = cand_id c \<and> required x) ?cs = Some c"
      using True by (simp add: split find_append no_pre)
    then show ?thesis
      using handles True by (simp add: Some evidence_safety_def Let_def)
  next
    case False
    have none: "List.find (\<lambda>x. cand_id x = cand_id c \<and> required x) ?cs = None"
      using False by (simp add: split find_append no_pre no_post)
    have m: "map ?ex ?cs = pre @ exclude CR_UNSAFE_EVIDENCE c # post"
      by (simp add: split same away)
    let ?st = "gate_complete EVIDENCE_SAFETY [CR_UNSAFE_EVIDENCE] (st\<lparr>st_candidates := pre @ exclude CR_UNSAFE_EVIDENCE c # post\<rparr>)"
    have "evidence_safety e st = Inr ?st"
      unfolding evidence_safety_def Let_def Some option.case using handles by (simp add: none m)
    moreover have "st_candidates ?st = pre @ exclude CR_UNSAFE_EVIDENCE c # post"
      "\<not> eligible (exclude CR_UNSAFE_EVIDENCE c)"
      by (simp_all add: exclude_def eligible_def)
    ultimately show ?thesis
      using split unfolding Some option.case if_not_P [OF False] by blast
  qed
qed

definition ex_evidence_candidate :: "nat \<Rightarrow> candidate" where
  "ex_evidence_candidate n = new_candidate
     \<lparr>rf_fact_id = Ident (30 + n), rf_necessity = (if n = 1 then NC_OPTIONAL else NC_REQUIRED), rf_intended_usage = US_EVIDENCE\<rparr>
     (ex_fact n)"

definition ex_evidence_state :: compile_state where
  "ex_evidence_state = compile_start\<lparr>st_candidates := [ex_evidence_candidate 1, ex_evidence_candidate 2]\<rparr>"

theorem evidence_gate_acts_on_first_witness:
  "\<exists>st'. evidence_safety ex_env ex_evidence_state = Inr st' \<and>
     st_candidates st' = [exclude CR_UNSAFE_EVIDENCE (ex_evidence_candidate 1), ex_evidence_candidate 2] \<and>
     eligible (ex_evidence_candidate 2) \<and> required (ex_evidence_candidate 2) \<and>
     evidence_unsafe (env_command ex_env) (env_context ex_env) (ex_evidence_candidate 2)"
proof -
  have ctx: "ctx_safe_evidence_candidates (env_context ex_env) = []"
    by (simp add: ex_env_def compile_env_of_def Let_def ex_context_def)
  have unsafe: "evidence_unsafe (env_command ex_env) (env_context ex_env) (ex_evidence_candidate n)" for n
    by (simp add: evidence_unsafe_def requested_evidence_def ex_evidence_candidate_def new_candidate_def ex_fact_def Let_def)
  have el: "eligible (ex_evidence_candidate n)" for n
    by (simp add: eligible_def ex_evidence_candidate_def new_candidate_def)
  have cs: "st_candidates ex_evidence_state = [ex_evidence_candidate 1, ex_evidence_candidate 2]"
    by (simp add: ex_evidence_state_def)
  have req: "\<not> required (ex_evidence_candidate 1)" "required (ex_evidence_candidate 2)"
    by (simp_all add: ex_evidence_candidate_def new_candidate_def required_def)
  have ids: "distinct (map cand_id (st_candidates ex_evidence_state))"
    by (simp add: cs ex_evidence_candidate_def new_candidate_def ex_fact_def)
  have diff: "ex_evidence_candidate 1 \<noteq> ex_evidence_candidate 2" using req by metis
  have find: "List.find (\<lambda>c. eligible c \<and> evidence_unsafe (env_command ex_env) (env_context ex_env) c)
      [ex_evidence_candidate 1, ex_evidence_candidate 2] = Some (ex_evidence_candidate 1)"
    by (simp add: unsafe el)
  have handles: "distinct (map se_source_evidence_id (ctx_safe_evidence_candidates (env_context ex_env)))"
    "distinct (map se_export_handle_id (ctx_safe_evidence_candidates (env_context ex_env)))"
    by (simp_all add: ctx)
  have "\<exists>st' pre post. evidence_safety ex_env ex_evidence_state = Inr st' \<and>
      [ex_evidence_candidate 1, ex_evidence_candidate 2] = pre @ ex_evidence_candidate 1 # post \<and>
      st_candidates st' = pre @ exclude CR_UNSAFE_EVIDENCE (ex_evidence_candidate 1) # post"
    using evidence_gate_acts_on_first [OF handles ids, unfolded cs find option.case if_not_P [OF req(1)]] by blast
  then show ?thesis
    using req(2) unsafe el diff by (auto simp: Cons_eq_append_conv)
qed

section \<open>Noninterference\<close>

text \<open>A fact that may leave the case: some current mandate and grant of its owner release it.\<close>

definition may_leave :: "hasher \<Rightarrow> compile_command \<Rightarrow> compile_context \<Rightarrow> fact \<Rightarrow> bool" where
  "may_leave H cmd ctx f \<longleftrightarrow> (\<exists>m g. released H cmd ctx f m g)"

lemma compile_redact: "compile H generators cmd (redact_context (may_leave H cmd ctx) ctx) = compile H generators cmd ctx"
proof (rule compile_redact_kept)
  fix st c
  assume run: "run_steps (vetting_gates (compile_env_of H generators cmd ctx)) compile_start = Inr st"
    and c: "c \<in> set (st_candidates st)" "eligible c"
  have "authorized (compile_env_of H generators cmd ctx) c" using vetting_authorizes(2) [OF run] c by blast
  from authorized_released [OF vetting_authorizes(1) [OF run] c(1) this] show "may_leave H cmd ctx (cand_fact c)"
    unfolding may_leave_def by blast
qed

text \<open>
  C1. The private text of a case has no influence on a compile: two contexts that are the same once
  \<open>redact_context\<close> has erased all free text give the same result, be it the export with its hashes, the
  denial with its reason and audit, or the exception. Erased are the free-text values of facts with their
  times of day, report summaries, private object keys, extracted texts, the titles of the case, and the
  name in every identity fact that its owner has not released for this request (\<open>may_leave\<close>): the name of a
  released one is the only text a compile reads, and C2 says when it leaves.
\<close>

theorem private_text_never_read:
  "redact_context (may_leave H cmd ctx) ctx = redact_context (may_leave H cmd ctx') ctx' \<Longrightarrow>
     compile H generators cmd ctx = compile H generators cmd ctx'"
  by (metis compile_redact)

text \<open>The example with other private words, and with an identity fact whose name no grant releases.\<close>

definition ex_named_fact :: "string \<Rightarrow> fact" where
  "ex_named_fact name = (ex_fact 2)\<lparr>fact_id := Ident 33, fact_type := IDENTITY_ATTRIBUTE,
     fact_value := IdentityAttribute name, fact_sensitivity := SC_IDENTITY\<rparr>"

definition ex_other_context :: compile_context where
  "ex_other_context = ex_context\<lparr>ctx_reports :=
     [(ex_report 1)\<lparr>report_private_summary := SensitiveStr ''my mother in unit 4B was trapped''\<rparr>, ex_report 2]\<rparr>"

definition ex_named_context :: "string \<Rightarrow> compile_context" where
  "ex_named_context name = ex_context\<lparr>ctx_case := ex_case\<lparr>case_fact_ids := [Ident 31, Ident 32, Ident 33]\<rparr>,
     ctx_facts := [ex_fact 1, ex_fact 2, ex_named_fact name]\<rparr>"

theorem private_text_never_read_witness:
  "ctx_reports ex_other_context \<noteq> ctx_reports ex_context \<and>
     compile ex_hash ex_generators ex_command ex_other_context = Inr ex_allow \<and>
     ctx_facts (ex_named_context ''Asha'') \<noteq> ctx_facts (ex_named_context ''Ravi'') \<and>
     compile ex_hash ex_generators ex_command (ex_named_context ''Asha'') =
     compile ex_hash ex_generators ex_command (ex_named_context ''Ravi'')"
proof (intro conjI)
  show "ctx_reports ex_other_context \<noteq> ctx_reports ex_context"
    by (simp add: ex_other_context_def ex_context_def ex_report_def)
  have "may_leave ex_hash ex_command ex_other_context = may_leave ex_hash ex_command ex_context"
    by (intro ext) (simp add: may_leave_def released_def ex_other_context_def)
  then have "redact_context (may_leave ex_hash ex_command ex_other_context) ex_other_context =
      redact_context (may_leave ex_hash ex_command ex_context) ex_context"
    by (simp add: ex_other_context_def redact_context_def redact_report_def ex_context_def)
  from private_text_never_read [OF this, of ex_generators] ex_compile
  show "compile ex_hash ex_generators ex_command ex_other_context = Inr ex_allow" by simp
  show "ctx_facts (ex_named_context ''Asha'') \<noteq> ctx_facts (ex_named_context ''Ravi'')"
    by (simp add: ex_named_context_def ex_named_fact_def ex_fact_def)
  have unreleased: "\<not> may_leave ex_hash ex_command ctx (ex_named_fact name)" for ctx name
    by (simp add: may_leave_def released_def ex_named_fact_def ex_command_def)
  have plain: "redact_fact keep (ex_fact n) = ex_fact n" for keep n
    by (simp add: redact_fact_def ex_fact_def)
  have named: "redact_fact keep (ex_named_fact n) = ex_named_fact []" if "\<not> keep (ex_named_fact n)" for keep n
    using that by (simp add: redact_fact_def ex_named_fact_def)
  have "redact_context (may_leave ex_hash ex_command (ex_named_context n)) (ex_named_context n) =
      redact_context (\<lambda>_. True) (ex_named_context [])" for n
    by (simp add: ex_named_context_def redact_context_def plain named unreleased)
      (simp add: redact_fact_def ex_named_fact_def)
  then show "compile ex_hash ex_generators ex_command (ex_named_context ''Asha'') =
      compile ex_hash ex_generators ex_command (ex_named_context ''Ravi'')"
    by (intro private_text_never_read) simp
qed

end
