(* ===== verification/Send_Authority.thy ===== *)
theory Send_Authority
  imports Shareable_View Lifecycle
begin

text \<open>
  The authority a send asks for: \<open>src/chorus/application/services/send_authorization.py\<close>, the
  frozen lifetimes and keys of \<open>action_authorization.py\<close>, the request and the fence record
  (\<open>src/chorus/ports\<close>) and the three fence operations of
  \<open>src/chorus/infrastructure/dynamodb/core.py\<close>. The fence row of a case is a \<open>send_fence option\<close>; the
  conditions the code puts on the stored row are conditions on it. A stored shareable view is the
  compiled view, which \<open>services/view_records.py\<close> copies field by field. Each function takes what
  the code has loaded when it runs; the order of the loads is the business of \<open>Send_Protocol\<close>.
\<close>

section \<open>Lifetimes and keys\<close>

definition APPROVAL_LIFETIME :: int where "APPROVAL_LIFETIME = seconds (15 * 60)"
definition SEND_FENCE_LIFETIME :: int where "SEND_FENCE_LIFETIME = seconds 60"
definition MIN_SEND_FENCE_WINDOW :: int where "MIN_SEND_FENCE_WINDOW = seconds 5"
definition SEND_RECOVERY_WINDOW :: int where "SEND_RECOVERY_WINDOW = SEND_FENCE_LIFETIME"

lemmas window_defs = SEND_FENCE_LIFETIME_def MIN_SEND_FENCE_WINDOW_def SEND_RECOVERY_WINDOW_def
  APPROVAL_LIFETIME_def seconds_def

definition approval_expires_at :: "datetime \<Rightarrow> datetime \<Rightarrow> datetime" where
  "approval_expires_at approved_at view_end = dt_min (add_micros approved_at APPROVAL_LIFETIME) [view_end]"

definition execution_send_key ::
    "hasher \<Rightarrow> namespace \<Rightarrow> action_id \<Rightarrow> execution_id \<Rightarrow> digest \<Rightarrow> digest \<Rightarrow> approval_id \<Rightarrow> string" where
  "execution_send_key H ns action execution proposal_sha view_sha appr = digest_value (H (JObj
     [(''schema'', JStr ''action-execution-send-key/v1''), (''namespace'', JStr (ns_value ns)),
      (''action_id'', j_ident action), (''execution_id'', j_ident execution),
      (''proposal_hash'', j_digest proposal_sha), (''view_hash'', j_digest view_sha),
      (''approval_id'', j_ident appr)]))"

text \<open>The separator is the unit separator, character 31.\<close>

definition domain_key_hash :: "hasher \<Rightarrow> string \<Rightarrow> string \<Rightarrow> digest" where
  "domain_key_hash H domain value = H (JObj
     [(''schema'', JStr ''action-command-key/v1''), (''key'', JStr (domain @ [char_of (31 :: nat)] @ value))])"

definition send_claim_key_hash :: "hasher \<Rightarrow> string \<Rightarrow> digest" where
  "send_claim_key_hash H execution_key = domain_key_hash H ''send-claim'' execution_key"

definition send_result_key_hash :: "hasher \<Rightarrow> string \<Rightarrow> digest" where
  "send_result_key_hash H execution_key = domain_key_hash H ''send-result'' execution_key"

section \<open>The fence\<close>

record send_fence =
  fence_namespace :: namespace
  fence_community_id :: community_id
  fence_case_id :: case_id
  fence_execution_id :: execution_id
  fence_action_id :: action_id
  fence_approval_id :: approval_id
  fence_view_id :: view_id
  fence_snapshot_hash :: digest
  fence_acquired_at :: datetime
  fence_expires_at :: datetime

definition send_fence_post_init :: "send_fence \<Rightarrow> unit result" where
  "send_fence_post_init f = checks
     [utc_check (fence_acquired_at f), utc_check (fence_expires_at f),
      (instant (fence_expires_at f) \<le> instant (fence_acquired_at f),
       ValueError ''fence expiry must be after acquisition'')]"

text \<open>A fence is live strictly before its deadline; the condition every fenced write carries.\<close>

definition expired_or_absent :: "int \<Rightarrow> send_fence option \<Rightarrow> bool" where
  "expired_or_absent now row \<longleftrightarrow>
     (case row of None \<Rightarrow> True | Some f \<Rightarrow> instant (fence_expires_at f) \<le> now)"

abbreviation require_no_live_send_fence :: "int \<Rightarrow> send_fence option \<Rightarrow> bool" where
  "require_no_live_send_fence \<equiv> expired_or_absent"

abbreviation fence_conflict :: error where
  "fence_conflict \<equiv> PersistenceConflictError ''WRITE''"

text \<open>
  \<open>acquire_send_fence\<close>: the conditional put, and, when it conflicts, the read that follows. The row
  may change between the two, so the read has its own argument.
\<close>

definition put_fence :: "send_fence \<Rightarrow> send_fence option \<Rightarrow> send_fence option result" where
  "put_fence f row =
     (if expired_or_absent (instant (fence_acquired_at f)) row then Inr (Some f) else Inl fence_conflict)"

definition fence_after_conflict :: "send_fence \<Rightarrow> send_fence option \<Rightarrow> send_fence result" where
  "fence_after_conflict f row =
     (case row of
        None \<Rightarrow> Inl fence_conflict
      | Some existing \<Rightarrow>
          if fence_execution_id existing \<noteq> fence_execution_id f then Inl fence_conflict else Inr existing)"

definition acquire_send_fence ::
    "send_fence \<Rightarrow> send_fence option \<Rightarrow> send_fence option \<Rightarrow> (send_fence option \<times> send_fence) result" where
  "acquire_send_fence f row later =
     (case put_fence f row of
        Inr row' \<Rightarrow> Inr (row', f)
      | Inl e \<Rightarrow> bindE (fence_after_conflict f later) (\<lambda>existing. Inr (later, existing)))"

definition release_send_fence :: "execution_id \<Rightarrow> send_fence option \<Rightarrow> send_fence option result" where
  "release_send_fence execution row =
     (case row of
        None \<Rightarrow> Inl fence_conflict
      | Some f \<Rightarrow> if fence_execution_id f = execution then Inr None else Inl fence_conflict)"

text \<open>\<open>SendAuthorization.release\<close> catches the conflict, records it and returns.\<close>

definition authority_release :: "execution_id \<Rightarrow> send_fence option \<Rightarrow> send_fence option" where
  "authority_release execution row = (case release_send_fence execution row of Inl e \<Rightarrow> row | Inr row' \<Rightarrow> row')"

section \<open>The request\<close>

record send_authorization_request =
  req_namespace :: namespace
  req_community_id :: community_id
  req_case_id :: case_id
  req_action_id :: action_id
  req_execution_id :: execution_id
  req_approval_id :: approval_id
  req_proposal_hash :: digest
  req_view_id :: view_id
  req_view_hash :: digest
  req_authorization_version :: int
  req_policy_version :: string
  req_compiler_version :: string
  req_policy_build_hash :: digest
  req_destination_id :: destination_id
  req_registry_version :: int
  req_routing_token :: uuid
  req_purpose :: purpose
  req_snapshot_hash :: digest
  req_requested_at :: datetime

definition send_authorization_request_post_init :: "send_authorization_request \<Rightarrow> unit result" where
  "send_authorization_request_post_init r = checks
     [(req_authorization_version r < 1 \<or> req_registry_version r < 1, ValueError ''versions must be positive'')]"

record current_view_pointer =
  vp_view_id :: view_id
  vp_view_hash :: digest
  vp_case_version :: int
  vp_authorization_version :: int
  vp_expires_at :: datetime
  vp_version :: int

record current_action_pointer =
  ap_action_id :: action_id
  ap_execution_id :: execution_id
  ap_proposal_hash :: digest
  ap_view_id :: view_id
  ap_view_hash :: digest
  ap_case_version :: int
  ap_authorization_version :: int
  ap_status :: action_proposal_status
  ap_version :: int

text \<open>The deployment values the authority is built with.\<close>

record authority_config =
  auth_policy_version :: string
  auth_compiler_version :: string
  auth_policy_build_hash :: digest
  auth_purpose :: purpose

datatype send_denial =
    CASE_NOT_ACTION_PROPOSED | AUTHORIZATION_VERSION_MOVED | VIEW_NOT_CURRENT | VIEW_EXPIRED
  | APPROVAL_EXPIRED | APPROVAL_NOT_APPROVED | APPROVAL_NOT_BOUND | PROPOSAL_NOT_CURRENT
  | MANDATE_AUTHORITY_MOVED | MANDATE_EXPIRED | DESTINATION_REGISTRY_CHANGED | ROUTING_TOKEN_CHANGED
  | POLICY_BUILD_CHANGED | PURPOSE_MISMATCH | AUTHORIZATION_WINDOW_TOO_SHORT

section \<open>The live mandates\<close>

text \<open>
  The Core rows of one case the authority reads: the case, the current pointer of each mandate and
  the append-only mandate versions.
\<close>

record core_rows =
  core_case :: community_case
  core_pointers :: "mandate_id \<Rightarrow> current_mandate_pointer option"
  core_versions :: "mandate_id \<times> int \<Rightarrow> disclosure_mandate option"

text \<open>One round of the loop of \<open>_live_relied_mandates\<close>: the pointer, then the version it names.\<close>

definition live_mandate :: "core_rows \<Rightarrow> mandate_version_ref \<Rightarrow> disclosure_mandate option result" where
  "live_mandate core ref =
     (case core_pointers core (Ident (mvr_mandate_id ref)) of
        None \<Rightarrow> Inr None
      | Some p \<Rightarrow>
          (case core_versions core (Ident (mvr_mandate_id ref), pointer_version p) of
             None \<Rightarrow> Inl (NotFoundError ''DISCLOSURE_MANDATE'')
           | Some m \<Rightarrow> Inr (Some m)))"

fun live_relied_mandates ::
    "core_rows \<Rightarrow> mandate_version_ref list \<Rightarrow> disclosure_mandate list option result" where
  "live_relied_mandates core [] = Inr (Some [])"
| "live_relied_mandates core (ref # refs) =
     bindE (live_mandate core ref) (\<lambda>found. case found of
        None \<Rightarrow> Inr None
      | Some m \<Rightarrow> bindE (live_relied_mandates core refs) (\<lambda>rest. Inr (map_option (Cons m) rest)))"

definition MANDATE_AUTHORITY_SCHEMA :: string where
  "MANDATE_AUTHORITY_SCHEMA = ''send-mandate-authority/v1''"

text \<open>A stable sort on \<open>(str(mandate_id), version)\<close> is a sort on the version, then on the identifier.\<close>

type_synonym authority_entry = "uuid \<times> int \<times> digest"

fun entry_id_text :: "authority_entry \<Rightarrow> string" where
  "entry_id_text (i, n, h) = uuid_text i"

fun entry_version :: "authority_entry \<Rightarrow> int" where
  "entry_version (i, n, h) = n"

fun j_authority_entry :: "authority_entry \<Rightarrow> jval" where
  "j_authority_entry (i, n, h) =
     JObj [(''mandate_id'', j_uuid i), (''version'', JInt n), (''terms_hash'', j_digest h)]"

definition j_authority :: "authority_entry list \<Rightarrow> jval" where
  "j_authority entries = JObj
     [(''schema'', JStr MANDATE_AUTHORITY_SCHEMA),
      (''mandates'', j_list j_authority_entry (sort_key entry_id_text (sort_key entry_version entries)))]"

definition mandate_entry :: "disclosure_mandate \<Rightarrow> authority_entry" where
  "mandate_entry m = (uuid_of (mandate_id m), mandate_version m, mandate_terms_hash m)"

definition relied_entry :: "mandate_version_ref \<Rightarrow> authority_entry" where
  "relied_entry r = (mvr_mandate_id r, mvr_version r, mvr_terms_hash r)"

definition mandate_authority_hash :: "hasher \<Rightarrow> disclosure_mandate list \<Rightarrow> digest" where
  "mandate_authority_hash H ms =
     H (j_authority (map mandate_entry ms))"

definition relied_authority_hash :: "hasher \<Rightarrow> mandate_version_ref list \<Rightarrow> digest" where
  "relied_authority_hash H refs =
     H (j_authority (map relied_entry refs))"

definition mandate_denials ::
    "hasher \<Rightarrow> mandate_version_ref list \<Rightarrow> disclosure_mandate list option \<Rightarrow> int \<Rightarrow> send_denial list" where
  "mandate_denials H refs found now =
     (case found of
        None \<Rightarrow> [MANDATE_AUTHORITY_MOVED]
      | Some ms \<Rightarrow>
          (if mandate_authority_hash H ms \<noteq> relied_authority_hash H refs then [MANDATE_AUTHORITY_MOVED] else []) @
          concat (map (\<lambda>m.
            (if mandate_status m \<noteq> MS_APPROVED then [MANDATE_AUTHORITY_MOVED] else []) @
            (if opt_test (\<lambda>e. instant e \<le> now) (mandate_expires_at m) then [MANDATE_EXPIRED] else [])) ms))"

section \<open>The denials\<close>

definition case_denials :: "send_authorization_request \<Rightarrow> community_case \<Rightarrow> send_denial list" where
  "case_denials r c =
     (if case_current_state c \<noteq> ACTION_PROPOSED then [CASE_NOT_ACTION_PROPOSED] else []) @
     (if case_authorization_version c \<noteq> req_authorization_version r then [AUTHORIZATION_VERSION_MOVED] else [])"

definition view_hash_verifies :: "hasher \<Rightarrow> shareable_case_view \<Rightarrow> bool" where
  "view_hash_verifies H v \<longleftrightarrow> hash_view H v = view_hash v"

definition view_denials ::
    "hasher \<Rightarrow> send_authorization_request \<Rightarrow> shareable_case_view \<Rightarrow> int \<Rightarrow> send_denial list" where
  "view_denials H r v now =
     (if view_hash v \<noteq> req_view_hash r \<or> \<not> view_hash_verifies H v then [VIEW_NOT_CURRENT] else []) @
     (if view_authorization_version v \<noteq> req_authorization_version r then [AUTHORIZATION_VERSION_MOVED] else []) @
     (if instant (view_expires_at v) \<le> now then [VIEW_EXPIRED] else [])"

definition pointer_denials ::
    "send_authorization_request \<Rightarrow> current_view_pointer option \<Rightarrow> current_action_pointer option \<Rightarrow> send_denial list" where
  "pointer_denials r view_pointer action_pointer =
     (if \<not> opt_test (\<lambda>p. vp_view_id p = req_view_id r \<and> vp_view_hash p = req_view_hash r) view_pointer
      then [VIEW_NOT_CURRENT] else []) @
     (if \<not> opt_test (\<lambda>p. ap_action_id p = req_action_id r \<and> ap_execution_id p = req_execution_id r \<and>
            ap_proposal_hash p = req_proposal_hash r \<and> ap_status p = AP_DRAFT) action_pointer
      then [PROPOSAL_NOT_CURRENT] else [])"

definition require_approval_integrity ::
    "hasher \<Rightarrow> approval \<Rightarrow> send_authorization_request \<Rightarrow> unit result" where
  "require_approval_integrity H a r = checks
     [(hash_approval H a \<noteq> appr_hash a, IntegrityError ''APPROVAL''),
      (appr_case_id a \<noteq> req_case_id r \<or> appr_action_id a \<noteq> req_action_id r \<or>
       appr_execution_id a \<noteq> req_execution_id r \<or> appr_proposal_hash a \<noteq> req_proposal_hash r \<or>
       appr_view_hash a \<noteq> req_view_hash r, IntegrityError ''APPROVAL'')]"

definition artifact_denials ::
    "hasher \<Rightarrow> send_authorization_request \<Rightarrow> shareable_case_view \<Rightarrow> action_proposal \<Rightarrow> approval \<Rightarrow> int \<Rightarrow>
     send_denial list result" where
  "artifact_denials H r v p a now =
     bindE (checks [(prop_hash p \<noteq> req_proposal_hash r \<or> hash_action_proposal H p \<noteq> prop_hash p \<or>
                     prop_view_id p \<noteq> view_view_id v \<or> prop_view_hash p \<noteq> view_hash v,
                     IntegrityError ''ACTION_PROPOSAL'')]) (\<lambda>_.
     bindE (require_approval_integrity H a r) (\<lambda>_. Inr
       ((if appr_decision a \<noteq> AD_APPROVED then [APPROVAL_NOT_APPROVED] else []) @
        (if instant (appr_expires_at a) \<le> now then [APPROVAL_EXPIRED] else []))))"

definition configuration_denials ::
    "authority_config \<Rightarrow> send_authorization_request \<Rightarrow> shareable_case_view \<Rightarrow> send_denial list" where
  "configuration_denials cfg r v =
     (if view_policy_version v \<noteq> auth_policy_version cfg \<or> view_compiler_version v \<noteq> auth_compiler_version cfg \<or>
         view_policy_build_hash v \<noteq> auth_policy_build_hash cfg \<or>
         req_policy_version r \<noteq> auth_policy_version cfg \<or> req_compiler_version r \<noteq> auth_compiler_version cfg \<or>
         req_policy_build_hash r \<noteq> auth_policy_build_hash cfg
      then [POLICY_BUILD_CHANGED] else []) @
     (if sd_destination_id (view_destination v) \<noteq> req_destination_id r \<or>
         sd_registry_version (view_destination v) \<noteq> req_registry_version r
      then [DESTINATION_REGISTRY_CHANGED] else []) @
     (if sd_routing_token (view_destination v) \<noteq> req_routing_token r then [ROUTING_TOKEN_CHANGED] else []) @
     (if view_purpose v \<noteq> auth_purpose cfg \<or> req_purpose r \<noteq> auth_purpose cfg then [PURPOSE_MISMATCH] else [])"

section \<open>The expiry\<close>

definition fence_expiry ::
    "shareable_case_view \<Rightarrow> approval \<Rightarrow> disclosure_mandate list option \<Rightarrow> datetime \<Rightarrow> datetime" where
  "fence_expiry v a found now =
     (let candidates = [view_expires_at v, appr_expires_at a] @
            List.map_filter mandate_expires_at (case found of None \<Rightarrow> [] | Some ms \<Rightarrow> ms);
          latest = dt_min (add_micros now SEND_FENCE_LIFETIME) candidates;
          least = add_micros now 1 in
      if instant latest < instant least then least else latest)"

definition window_too_short :: "datetime \<Rightarrow> datetime \<Rightarrow> bool" where
  "window_too_short expires now \<longleftrightarrow> instant expires - instant now < MIN_SEND_FENCE_WINDOW"

definition requested_fence :: "send_authorization_request \<Rightarrow> datetime \<Rightarrow> datetime \<Rightarrow> send_fence" where
  "requested_fence r now expires =
     \<lparr>fence_namespace = req_namespace r, fence_community_id = req_community_id r,
      fence_case_id = req_case_id r, fence_execution_id = req_execution_id r,
      fence_action_id = req_action_id r, fence_approval_id = req_approval_id r,
      fence_view_id = req_view_id r, fence_snapshot_hash = req_snapshot_hash r,
      fence_acquired_at = now, fence_expires_at = expires\<rparr>"

definition held_by_another :: "send_fence option \<Rightarrow> execution_id \<Rightarrow> int \<Rightarrow> bool" where
  "held_by_another held execution now \<longleftrightarrow>
     (case held of None \<Rightarrow> False
      | Some f \<Rightarrow> now < instant (fence_expires_at f) \<and> fence_execution_id f \<noteq> execution)"

section \<open>The decision\<close>

text \<open>
  Every denial together, from the values that were read while the fence was held. \<open>now\<close> is the
  reading at the start of the revalidation and \<open>later\<close> the one \<open>_artifact_denials\<close> takes itself.
\<close>

definition denials_of ::
    "hasher \<Rightarrow> authority_config \<Rightarrow> send_authorization_request \<Rightarrow> community_case \<Rightarrow> shareable_case_view \<Rightarrow>
     current_view_pointer option \<Rightarrow> current_action_pointer option \<Rightarrow> send_denial list \<Rightarrow>
     disclosure_mandate list option \<Rightarrow> int \<Rightarrow> send_denial list" where
  "denials_of H cfg r c v view_pointer action_pointer artifacts found now = fromkeys
     (case_denials r c @ view_denials H r v now @ pointer_denials r view_pointer action_pointer @
      artifacts @ configuration_denials cfg r v @ mandate_denials H (view_mandate_version_set v) found now)"

datatype authorization_outcome =
    SendDenied "send_denial list"
  | SendGranted (granted_fence: send_fence) (granted_replayed: bool)

text \<open>What one request reads of the Shareable table.\<close>

record shareable_reads =
  sr_view :: shareable_case_view
  sr_view_pointer :: "current_view_pointer option"
  sr_action_pointer :: "current_action_pointer option"
  sr_proposal :: action_proposal
  sr_approval :: approval

text \<open>
  \<open>authorize\<close> when nothing else moves while it runs: its answer and the fence row it leaves. The
  three instants are its three readings of the clock.
\<close>

definition authorize ::
    "hasher \<Rightarrow> authority_config \<Rightarrow> send_authorization_request \<Rightarrow> core_rows \<Rightarrow> shareable_reads \<Rightarrow>
     send_fence option \<Rightarrow> datetime \<Rightarrow> int \<Rightarrow> int \<Rightarrow> authorization_outcome result \<times> send_fence option" where
  "authorize H cfg r core s row now now' later =
     (case live_relied_mandates core (view_mandate_version_set (sr_view s)) of
        Inl e \<Rightarrow> (Inl e, row)
      | Inr found \<Rightarrow>
          let expires = fence_expiry (sr_view s) (sr_approval s) found now in
          if window_too_short expires now then (Inr (SendDenied [AUTHORIZATION_WINDOW_TOO_SHORT]), row)
          else
            let f = requested_fence r now expires in
            if held_by_another row (req_execution_id r) (instant now)
            then (Inl (SendAuthorizationInProgressError ''SEND_FENCE_ACTIVE''), row)
            else
              (case acquire_send_fence f row row of
                 Inl e \<Rightarrow> (Inl (SendAuthorizationInProgressError ''SEND_FENCE_ACTIVE''), row)
               | Inr (row', acquired) \<Rightarrow>
                   let replayed = opt_test (\<lambda>h. fence_execution_id h = req_execution_id r) row;
                       released = authority_release (req_execution_id r) row' in
                   (case artifact_denials H r (sr_view s) (sr_proposal s) (sr_approval s) later of
                      Inl e \<Rightarrow> (Inl e, released)
                    | Inr artifacts \<Rightarrow>
                        let denials = denials_of H cfg r (core_case core) (sr_view s) (sr_view_pointer s)
                              (sr_action_pointer s) artifacts found now' in
                        if denials \<noteq> [] then (Inr (SendDenied denials), released)
                        else (Inr (SendGranted acquired replayed), row'))))"

section \<open>What a grant says\<close>

lemma denials_of_Nil_iff:
  "denials_of H cfg r c v vp ap artifacts found now = [] \<longleftrightarrow>
     case_denials r c = [] \<and> view_denials H r v now = [] \<and> pointer_denials r vp ap = [] \<and> artifacts = [] \<and>
     configuration_denials cfg r v = [] \<and> mandate_denials H (view_mandate_version_set v) found now = []"
  by (simp add: denials_of_def)

lemma mandate_denials_Nil_iff:
  "mandate_denials H refs found now = [] \<longleftrightarrow>
     (\<exists>ms. found = Some ms \<and> mandate_authority_hash H ms = relied_authority_hash H refs \<and>
        (\<forall>m\<in>set ms. mandate_status m = MS_APPROVED \<and>
           \<not> opt_test (\<lambda>e. instant e \<le> now) (mandate_expires_at m)))"
  by (auto simp: mandate_denials_def split: option.splits)

lemma case_denials_Nil_iff:
  "case_denials r c = [] \<longleftrightarrow>
     case_current_state c = ACTION_PROPOSED \<and> case_authorization_version c = req_authorization_version r"
  by (simp add: case_denials_def)

lemma fence_expiry_le:
  assumes "\<not> window_too_short (fence_expiry v a found now) now"
  shows "instant (fence_expiry v a found now) \<le> instant now + SEND_FENCE_LIFETIME"
    and "instant (fence_expiry v a found now) \<le> instant (view_expires_at v)"
    and "instant (fence_expiry v a found now) \<le> instant (appr_expires_at a)"
    and "found = Some ms \<Longrightarrow> m \<in> set ms \<Longrightarrow> mandate_expires_at m = Some e \<Longrightarrow>
      instant (fence_expiry v a found now) \<le> instant e"
proof -
  let ?cs = "[view_expires_at v, appr_expires_at a] @
    List.map_filter mandate_expires_at (case found of None \<Rightarrow> [] | Some ms \<Rightarrow> ms)"
  let ?l = "dt_min (add_micros now SEND_FENCE_LIFETIME) ?cs"
  have eq: "fence_expiry v a found now = ?l"
    using assms by (auto simp: fence_expiry_def window_too_short_def Let_def window_defs split: if_splits)
  have le: "instant (fence_expiry v a found now) \<le> instant e"
    if "e \<in> insert (add_micros now SEND_FENCE_LIFETIME) (set ?cs)" for e
    using dt_min_le [OF that] eq by simp
  show "instant (fence_expiry v a found now) \<le> instant now + SEND_FENCE_LIFETIME"
    using le [of "add_micros now SEND_FENCE_LIFETIME"] by simp
  show "instant (fence_expiry v a found now) \<le> instant (view_expires_at v)"
    "instant (fence_expiry v a found now) \<le> instant (appr_expires_at a)"
    by (rule le; simp)+
  assume "found = Some ms" "m \<in> set ms" "mandate_expires_at m = Some e"
  then have "e \<in> set (List.map_filter mandate_expires_at ms)" by (force simp: map_filter_def)
  with \<open>found = Some ms\<close> show "instant (fence_expiry v a found now) \<le> instant e" by (intro le) simp
qed

end
