(* ===== verification/Send_Action.thy ===== *)
theory Send_Action
  imports Send_Authority
begin

text \<open>
  \<open>src/chorus/application/commands/send_action.py\<close>: what a delivery does with the execution it
  finds, the local verification, the claim and its owner, and the row each outcome writes. The
  rendering of the preview is an argument (\<open>render\<close>): \<open>services/action_renderer.py\<close> is not modelled,
  and nothing here depends on what it returns. Reason codes are their texts.
\<close>

section \<open>The replay table\<close>

datatype send_replay_outcome = SR_CONFLICT | SR_PROCEED | SR_IN_PROGRESS | SR_ALREADY_SENT
  | SR_TERMINAL_FAILED | SR_QUARANTINED

fun REPLAY_TABLE :: "execution_state \<Rightarrow> send_replay_outcome" where
  "REPLAY_TABLE EX_DRAFT = SR_CONFLICT"
| "REPLAY_TABLE EX_APPROVED = SR_PROCEED"
| "REPLAY_TABLE EX_SENDING = SR_IN_PROGRESS"
| "REPLAY_TABLE EX_SENT = SR_ALREADY_SENT"
| "REPLAY_TABLE EX_FAILED = SR_TERMINAL_FAILED"
| "REPLAY_TABLE EX_SEND_UNKNOWN = SR_QUARANTINED"

lemma REPLAY_TABLE_PROCEED_iff: "REPLAY_TABLE s = SR_PROCEED \<longleftrightarrow> s = EX_APPROVED"
  by (cases s) simp_all

section \<open>The command and the deployment\<close>

record send_command =
  cmd_namespace :: namespace
  cmd_community_id :: community_id
  cmd_case_id :: case_id
  cmd_action_id :: action_id
  cmd_execution_id :: execution_id
  cmd_approval_id :: approval_id
  cmd_expected_version :: int
  cmd_actor_id_hash :: digest

definition send_command_post_init :: "send_command \<Rightarrow> unit result" where
  "send_command_post_init c = checks
     [(cmd_expected_version c < 1, ValueError ''expected_execution_version must be positive'')]"

definition TEMPLATE_VERSION :: string where "TEMPLATE_VERSION = ''email/property-manager/v1''"

record sender_config =
  snd_destination :: safe_destination
  snd_from_identity_id :: string
  snd_template_version :: string

definition send_request_hash :: "hasher \<Rightarrow> send_command \<Rightarrow> digest" where
  "send_request_hash H c = H (JObj
     [(''schema'', JStr ''send-action-http-request/v1''), (''case_id'', j_ident (cmd_case_id c)),
      (''action_id'', j_ident (cmd_action_id c)), (''execution_id'', j_ident (cmd_execution_id c)),
      (''approval_id'', j_ident (cmd_approval_id c)),
      (''expected_execution_version'', JInt (cmd_expected_version c))])"

text \<open>The address of a send-domain idempotency record: the actor and the hash of the attempt's key.\<close>

type_synonym proof_key = "digest \<times> digest"

definition claim_proof_key :: "hasher \<Rightarrow> send_command \<Rightarrow> string \<Rightarrow> proof_key" where
  "claim_proof_key H c execution_key = (cmd_actor_id_hash c, send_claim_key_hash H execution_key)"

definition result_proof_key :: "hasher \<Rightarrow> send_command \<Rightarrow> string \<Rightarrow> proof_key" where
  "result_proof_key H c execution_key = (cmd_actor_id_hash c, send_result_key_hash H execution_key)"

section \<open>Local verification\<close>

definition configuration_reasons :: "sender_config \<Rightarrow> shareable_case_view \<Rightarrow> string list" where
  "configuration_reasons cfg v =
     (let d = view_destination v; current = snd_destination cfg in
      (if sd_destination_id d \<noteq> sd_destination_id current \<or> sd_registry_version d \<noteq> sd_registry_version current \<or>
          sd_display_label d \<noteq> sd_display_label current \<or> sd_kind d \<noteq> sd_kind current
       then [''DESTINATION_REGISTRY_CHANGED''] else []) @
      (if sd_routing_token d \<noteq> sd_routing_token current then [''ROUTING_TOKEN_CHANGED''] else []) @
      (if snd_template_version cfg \<noteq> TEMPLATE_VERSION then [''TEMPLATE_VERSION_CHANGED''] else []))"

definition load_and_verify ::
    "hasher \<Rightarrow> sender_config \<Rightarrow> send_command \<Rightarrow> action_execution \<Rightarrow> action_proposal \<Rightarrow> shareable_case_view \<Rightarrow>
     approval \<Rightarrow> current_action_pointer option \<Rightarrow> int \<Rightarrow> string list result" where
  "load_and_verify H cfg c x p v a pointer now =
     bindE (checks
       [(hash_action_proposal H p \<noteq> prop_hash p, IntegrityError ''ACTION_PROPOSAL''),
        (hash_view H v \<noteq> view_hash v, IntegrityError ''SHAREABLE_VIEW''),
        (hash_approval H a \<noteq> appr_hash a, IntegrityError ''APPROVAL''),
        (appr_execution_id a \<noteq> cmd_execution_id c \<or> appr_action_id a \<noteq> cmd_action_id c \<or>
         appr_case_id a \<noteq> cmd_case_id c \<or> appr_proposal_hash a \<noteq> prop_hash p \<or>
         appr_view_hash a \<noteq> prop_view_hash p, IntegrityError ''APPROVAL''),
        (exec_approval_id x \<noteq> Some (appr_id a), IntegrityError ''ACTION_EXECUTION''),
        (exec_version x \<noteq> cmd_expected_version c, StateTransitionError ''CONFLICT'')]) (\<lambda>_.
     Inr (fromkeys
       ((if appr_decision a \<noteq> AD_APPROVED then [''APPROVAL_NOT_APPROVED''] else []) @
        (if instant (appr_expires_at a) \<le> now then [''APPROVAL_EXPIRED''] else []) @
        (if instant (view_expires_at v) \<le> now then [''VIEW_EXPIRED''] else []) @
        (if \<not> opt_test (\<lambda>q. ap_action_id q = cmd_action_id c \<and> ap_execution_id q = cmd_execution_id c \<and>
               ap_proposal_hash q = prop_hash p \<and> ap_status q = AP_DRAFT) pointer
         then [''SUPERSEDED_PROPOSAL''] else []) @
        configuration_reasons cfg v)))"

definition authorization_request ::
    "action_proposal \<Rightarrow> shareable_case_view \<Rightarrow> approval \<Rightarrow> datetime \<Rightarrow> send_authorization_request" where
  "authorization_request p v a now =
     \<lparr>req_namespace = appr_namespace a, req_community_id = appr_community_id a,
      req_case_id = appr_case_id a, req_action_id = appr_action_id a,
      req_execution_id = appr_execution_id a, req_approval_id = appr_id a,
      req_proposal_hash = prop_hash p, req_view_id = view_view_id v, req_view_hash = view_hash v,
      req_authorization_version = view_authorization_version v,
      req_policy_version = view_policy_version v, req_compiler_version = view_compiler_version v,
      req_policy_build_hash = view_policy_build_hash v,
      req_destination_id = sd_destination_id (view_destination v),
      req_registry_version = sd_registry_version (view_destination v),
      req_routing_token = sd_routing_token (view_destination v), req_purpose = view_purpose v,
      req_snapshot_hash = view_authorization_snapshot_hash v, req_requested_at = now\<rparr>"

section \<open>The claim and its owner\<close>

definition send_claim_owner_hash ::
    "hasher \<Rightarrow> namespace \<Rightarrow> action_id \<Rightarrow> execution_id \<Rightarrow> uuid \<Rightarrow> digest" where
  "send_claim_owner_hash H ns action execution nonce = H (JObj
     [(''domain'', JStr ''send-claim-owner/v1''), (''namespace'', JStr (ns_value ns)),
      (''action_id'', j_ident action), (''execution_id'', j_ident execution),
      (''claim_nonce'', j_uuid nonce), (''attempt_number'', JInt 1)])"

definition ses_request_token_hash ::
    "hasher \<Rightarrow> namespace \<Rightarrow> action_id \<Rightarrow> execution_id \<Rightarrow> string \<Rightarrow> digest" where
  "ses_request_token_hash H ns action execution key = H (JObj
     [(''domain'', JStr ''ses-request-token/v1''), (''namespace'', JStr (ns_value ns)),
      (''action_id'', j_ident action), (''execution_id'', j_ident execution),
      (''idempotency_key'', JStr key), (''attempt_number'', JInt 1)])"

text \<open>The keyword arguments the command leaves out.\<close>

definition execution_move :: "action_execution \<Rightarrow> execution_state \<Rightarrow> int \<Rightarrow> execution_command" where
  "execution_move x target now =
     \<lparr>xc_target = target, xc_expected_version = exec_version x, xc_now = utc now,
      xc_reconciliation_proof = False, xc_approval_id = None, xc_idempotency_key = None,
      xc_claim_owner_hash = None, xc_rendered_message_hash = None, xc_ses_request_token_hash = None,
      xc_ses_message_id = None, xc_started_at = None, xc_finished_at = None, xc_failure_code = None,
      xc_failure_detail_safe = None, xc_reconciled_at = None\<rparr>"

definition claim_execution ::
    "action_execution \<Rightarrow> digest \<Rightarrow> digest \<Rightarrow> digest \<Rightarrow> int \<Rightarrow> action_execution result" where
  "claim_execution x owner preview token now = transition_action_execution x
     ((execution_move x EX_SENDING now)
        \<lparr>xc_claim_owner_hash := Some owner, xc_rendered_message_hash := Some preview,
         xc_ses_request_token_hash := Some token, xc_started_at := Some (utc now)\<rparr>)"

definition owns :: "action_execution \<Rightarrow> digest \<Rightarrow> bool" where
  "owns durable owner \<longleftrightarrow> exec_state durable = EX_SENDING \<and> exec_claim_owner_hash durable = Some owner"

section \<open>The outcomes\<close>

datatype ses_outcome =
    SesAccepted string
  | SesDefiniteFailure string "string option"
  | SesUnknown string

definition succeed :: "action_execution \<Rightarrow> string \<Rightarrow> int \<Rightarrow> action_execution result" where
  "succeed claimed message_id now = transition_action_execution claimed
     ((execution_move claimed EX_SENT now)
        \<lparr>xc_ses_message_id := Some message_id, xc_finished_at := Some (utc now)\<rparr>)"

definition fail_execution ::
    "action_execution \<Rightarrow> string list \<Rightarrow> string option \<Rightarrow> int \<Rightarrow> action_execution result" where
  "fail_execution x reason_codes safe_detail now = transition_action_execution x
     ((execution_move x EX_FAILED now)
        \<lparr>xc_finished_at := Some (utc now),
         xc_failure_code := Some (case reason_codes of [] \<Rightarrow> ''SES_REJECTED'' | first # _ \<Rightarrow> first),
         xc_failure_detail_safe := safe_detail\<rparr>)"

definition quarantine :: "action_execution \<Rightarrow> int \<Rightarrow> action_execution result" where
  "quarantine claimed now = transition_action_execution claimed
     ((execution_move claimed EX_SEND_UNKNOWN now)\<lparr>xc_finished_at := Some (utc now)\<rparr>)"

fun record_outcome :: "action_execution \<Rightarrow> ses_outcome \<Rightarrow> int \<Rightarrow> action_execution result" where
  "record_outcome claimed (SesAccepted message_id) now = succeed claimed message_id now"
| "record_outcome claimed (SesDefiniteFailure failure safe_detail) now = fail_execution claimed [failure] safe_detail now"
| "record_outcome claimed (SesUnknown reason) now = quarantine claimed now"

text \<open>An exception out of the sender counts as an unknown outcome.\<close>

fun classified :: "ses_outcome option \<Rightarrow> ses_outcome" where
  "classified None = SesUnknown ''SES_TRANSPORT_AMBIGUOUS''"
| "classified (Some outcome) = outcome"

section \<open>Facts the protocol uses\<close>

lemma claim_executionD:
  assumes "claim_execution x owner preview token now = Inr y"
  shows "exec_state x = EX_APPROVED" "exec_state y = EX_SENDING" "exec_version y = exec_version x + 1"
    "exec_claim_owner_hash y = Some owner"
proof -
  note D = transition_action_executionD [OF assms [unfolded claim_execution_def]]
  show "exec_version y = exec_version x + 1" by (rule D(4))
  show "exec_state y = EX_SENDING" using D(3) by (simp add: execution_move_def)
  then show "exec_state x = EX_APPROVED" using D(2) by (auto simp: ACTION_EXECUTION_EDGES_def)
  show "exec_claim_owner_hash y = Some owner"
    unfolding D(8) by (simp add: move_execution_def execution_move_def)
qed

text \<open>The rows a delivery writes apart from the claim never start a send.\<close>

lemma outcome_target:
  "fail_execution x codes safe_detail now = Inr y \<Longrightarrow> exec_state y = EX_FAILED"
  "record_outcome x outcome now = Inr y \<Longrightarrow> exec_state y \<noteq> EX_SENDING"
  by (cases outcome;
      force simp: fail_execution_def succeed_def quarantine_def execution_move_def
        dest: transition_action_executionD(3))+

end
