(* ===== verification/Send_Protocol.thy ===== *)
theory Send_Protocol
  imports Send_Action
begin

text \<open>
  The sends of one case as a concurrent program. A worker is one run of \<open>SendAction.execute\<close>
  (\<open>commands/send_action.py\<close>) with \<open>SendAuthorization.authorize\<close> inside it; every await of the code
  is a point where the others may move, so each worker advances one stored read or write at a time,
  and its phase holds the values the code keeps in local variables. Beside the workers run the
  clock, the commands that change the Core rows of the case (with the fence condition, where the
  code stages it, and without, where it does not), the commands that move an execution, and the
  reconciliation of \<open>commands/reconcile_send_outcome.py\<close>.

  The stored effect of a transaction and the answer its sender gets are separate: a staged write
  may land at any later moment at which its conditions hold, once, and \<open>unit_of_work.commit\<close> may
  answer or raise whatever landed. This allows every behaviour of \<open>commit\<close> and of its recovery by
  commit proof. The views, proposals and approvals are immutable rows, so they are a part of the
  environment. The pointers of the Shareable table may have any value at each read. \<open>advance\<close> is one
  move, named by a choice; it is executable.
\<close>

section \<open>The environment and the state\<close>

record send_env =
  senv_hash :: hasher
  senv_authority :: authority_config
  senv_sender :: sender_config
  senv_render :: "action_proposal \<Rightarrow> shareable_case_view \<Rightarrow> string \<Rightarrow> string \<Rightarrow> digest result"
  senv_view :: "view_id \<Rightarrow> shareable_case_view option"
  senv_proposal :: "action_id \<Rightarrow> action_proposal option"
  senv_approval :: "approval_id \<Rightarrow> approval option"
  senv_workers :: nat
  senv_command :: "nat \<Rightarrow> send_command"
  senv_nonce :: "nat \<Rightarrow> uuid"

text \<open>\<open>_SendState\<close>, and what a worker keeps once it owns the claim.\<close>

record send_state =
  snd_proposal :: action_proposal
  snd_approval :: approval
  snd_view :: shareable_case_view

record attempt =
  att_claimed :: action_execution
  att_state :: send_state
  att_request :: send_authorization_request

record observed =
  obs_now :: int
  obs_case :: community_case
  obs_view_pointer :: "current_view_pointer option"
  obs_action_pointer :: "current_action_pointer option"
  obs_artifacts :: "send_denial list"

datatype phase =
    Fresh
  | Loaded action_execution
  | Failing action_execution "string list"
  | Claiming send_state
  | Claim_answered send_state
  | Owning attempt
  | Reading_expiry attempt datetime "disclosure_mandate list" "mandate_version_ref list"
  | Fencing attempt send_fence
  | Putting attempt send_fence
  | Conflicted attempt send_fence
  | Holding attempt send_fence
  | Checking attempt send_fence int community_case
  | Reading_mandates attempt send_fence observed "disclosure_mandate list" "mandate_version_ref list"
  | Withdrawing attempt send_fence "string list option"
  | Resolving attempt send_fence
  | Resolved attempt send_fence
  | Called attempt send_fence
  | Aborting attempt send_fence "string list"
  | Closing attempt send_fence
  | Finished

record staged_write =
  stg_base :: action_execution
  stg_new :: action_execution
  stg_proof :: proof_key

record send_sys =
  sys_clock :: int
  sys_core :: core_rows
  sys_fence :: "send_fence option"
  sys_rows :: "execution_id \<Rightarrow> action_execution option"
  sys_proofs :: "proof_key list"
  sys_staged :: "nat \<Rightarrow> staged_write list"
  sys_phase :: "nat \<Rightarrow> phase"
  sys_calls :: "(nat \<times> execution_id \<times> int) list"

definition goto :: "nat \<Rightarrow> phase \<Rightarrow> send_sys \<Rightarrow> send_sys" where
  "goto w ph s = s\<lparr>sys_phase := (sys_phase s)(w := ph)\<rparr>"

definition stage :: "nat \<Rightarrow> staged_write \<Rightarrow> send_sys \<Rightarrow> send_sys" where
  "stage w write s = s\<lparr>sys_staged := (sys_staged s)(w := sys_staged s w @ [write])\<rparr>"

definition set_fence :: "send_fence option \<Rightarrow> send_sys \<Rightarrow> send_sys" where
  "set_fence row s = s\<lparr>sys_fence := row\<rparr>"

abbreviation target_of :: "send_env \<Rightarrow> nat \<Rightarrow> execution_id" where
  "target_of env w \<equiv> cmd_execution_id (senv_command env w)"

definition owner_of :: "send_env \<Rightarrow> nat \<Rightarrow> digest" where
  "owner_of env w = (let c = senv_command env w in
     send_claim_owner_hash (senv_hash env) (cmd_namespace c) (cmd_action_id c) (cmd_execution_id c) (senv_nonce env w))"

section \<open>A worker's moves\<close>

text \<open>What the outside answers at an await.\<close>

datatype input =
    Continue
  | Pointers "current_view_pointer option" "current_action_pointer option"
  | Answer bool
  | Resolution "string option"
  | Transport "ses_outcome option"
  | Raise
  | Crash

abbreviation STALE :: string where "STALE \<equiv> ''STALE_AUTHORIZATION''"

definition do_load :: "send_env \<Rightarrow> nat \<Rightarrow> send_sys \<Rightarrow> send_sys" where
  "do_load env w s =
     (case sys_rows s (target_of env w) of
        None \<Rightarrow> goto w Finished s
      | Some x \<Rightarrow> goto w (if REPLAY_TABLE (exec_state x) = SR_PROCEED then Loaded x else Finished) s)"

definition do_claim :: "send_env \<Rightarrow> nat \<Rightarrow> action_execution \<Rightarrow> send_state \<Rightarrow> digest \<Rightarrow> send_sys \<Rightarrow> send_sys" where
  "do_claim env w x st preview s =
     (case exec_idempotency_key x of
        None \<Rightarrow> goto w Finished s
      | Some key \<Rightarrow>
          let c = senv_command env w;
              token = ses_request_token_hash (senv_hash env) (cmd_namespace c) (cmd_action_id c) (cmd_execution_id c) key in
          (case claim_execution x (owner_of env w) preview token (sys_clock s) of
             Inl e \<Rightarrow> goto w Finished s
           | Inr y \<Rightarrow> stage w \<lparr>stg_base = x, stg_new = y, stg_proof = claim_proof_key (senv_hash env) c key\<rparr>
                        (goto w (Claiming st) s)))"

definition do_verify ::
    "send_env \<Rightarrow> nat \<Rightarrow> action_execution \<Rightarrow> current_action_pointer option \<Rightarrow> send_sys \<Rightarrow> send_sys" where
  "do_verify env w x pointer s =
     (let c = senv_command env w in
      case senv_proposal env (cmd_action_id c) of
        None \<Rightarrow> goto w Finished s
      | Some p \<Rightarrow>
      (case senv_view env (prop_view_id p) of
        None \<Rightarrow> goto w Finished s
      | Some v \<Rightarrow>
      (case senv_approval env (cmd_approval_id c) of
        None \<Rightarrow> goto w Finished s
      | Some a \<Rightarrow>
      (case load_and_verify (senv_hash env) (senv_sender env) c x p v a pointer (sys_clock s) of
        Inl e \<Rightarrow> goto w Finished s
      | Inr denials \<Rightarrow>
          if denials \<noteq> [] then goto w (Failing x denials) s
          else
            (case senv_render env p v (snd_from_identity_id (senv_sender env)) (snd_template_version (senv_sender env)) of
               Inl e \<Rightarrow> goto w Finished s
             | Inr preview \<Rightarrow>
                 if preview \<noteq> prop_preview_hash p
                 then goto w (Failing x [''RENDERED_HASH_MISMATCH'', STALE]) s
                 else do_claim env w x \<lparr>snd_proposal = p, snd_approval = a, snd_view = v\<rparr> preview s)))))"

text \<open>\<open>_persist_outcome\<close>: the row and its proof, under the key the row carries.\<close>

definition persist :: "send_env \<Rightarrow> nat \<Rightarrow> action_execution \<Rightarrow> action_execution result \<Rightarrow> send_sys \<Rightarrow> send_sys" where
  "persist env w x outcome s =
     (case outcome of
        Inl e \<Rightarrow> s
      | Inr y \<Rightarrow>
          (case exec_idempotency_key y of
             None \<Rightarrow> s
           | Some key \<Rightarrow> stage w \<lparr>stg_base = x, stg_new = y,
               stg_proof = result_proof_key (senv_hash env) (senv_command env w) key\<rparr> s))"

definition do_own :: "send_env \<Rightarrow> nat \<Rightarrow> send_state \<Rightarrow> send_sys \<Rightarrow> send_sys" where
  "do_own env w st s =
     (case sys_rows s (target_of env w) of
        None \<Rightarrow> goto w Finished s
      | Some x \<Rightarrow>
          if owns x (owner_of env w)
          then let r = authorization_request (snd_proposal st) (snd_view st) (snd_approval st) (utc (sys_clock s)) in
               goto w (Owning \<lparr>att_claimed = x, att_state = st, att_request = r\<rparr>) s
          else goto w Finished s)"

text \<open>
  The compiler's operation starts with its own reading of the clock. In a deployed topology it is
  another process, so time may pass between the sender's request and this reading.
\<close>

definition do_authorize :: "nat \<Rightarrow> attempt \<Rightarrow> send_sys \<Rightarrow> send_sys" where
  "do_authorize w att s =
     goto w (Reading_expiry att (utc (sys_clock s)) [] (view_mandate_version_set (snd_view (att_state att)))) s"

definition fence_chosen ::
    "nat \<Rightarrow> attempt \<Rightarrow> datetime \<Rightarrow> disclosure_mandate list option \<Rightarrow> send_sys \<Rightarrow> send_sys" where
  "fence_chosen w att now found s =
     (let expires = fence_expiry (snd_view (att_state att)) (snd_approval (att_state att)) found now in
      if window_too_short expires now
      then goto w (Failing (att_claimed att) [''AUTHORIZATION_WINDOW_TOO_SHORT'', STALE]) s
      else goto w (Fencing att (requested_fence (att_request att) now expires)) s)"

fun do_expiry ::
    "nat \<Rightarrow> attempt \<Rightarrow> datetime \<Rightarrow> disclosure_mandate list \<Rightarrow> mandate_version_ref list \<Rightarrow> send_sys \<Rightarrow> send_sys" where
  "do_expiry w att now ms [] s = fence_chosen w att now (Some ms) s"
| "do_expiry w att now ms (ref # refs) s =
     (case live_mandate (sys_core s) ref of
        Inl e \<Rightarrow> goto w Finished s
      | Inr None \<Rightarrow> fence_chosen w att now None s
      | Inr (Some m) \<Rightarrow> goto w (Reading_expiry att now (ms @ [m]) refs) s)"

definition do_held :: "nat \<Rightarrow> attempt \<Rightarrow> send_fence \<Rightarrow> send_sys \<Rightarrow> send_sys" where
  "do_held w att f s =
     goto w (if held_by_another (sys_fence s) (req_execution_id (att_request att)) (instant (fence_acquired_at f))
             then Finished else Putting att f) s"

definition do_put :: "nat \<Rightarrow> attempt \<Rightarrow> send_fence \<Rightarrow> send_sys \<Rightarrow> send_sys" where
  "do_put w att f s =
     (case put_fence f (sys_fence s) of
        Inl e \<Rightarrow> goto w (Conflicted att f) s
      | Inr row \<Rightarrow> set_fence row (goto w (Holding att f) s))"

definition do_conflict :: "nat \<Rightarrow> attempt \<Rightarrow> send_fence \<Rightarrow> send_sys \<Rightarrow> send_sys" where
  "do_conflict w att f s =
     (case fence_after_conflict f (sys_fence s) of
        Inl e \<Rightarrow> goto w Finished s
      | Inr existing \<Rightarrow> goto w (Holding att existing) s)"

definition do_check ::
    "send_env \<Rightarrow> nat \<Rightarrow> attempt \<Rightarrow> send_fence \<Rightarrow> int \<Rightarrow> community_case \<Rightarrow> current_view_pointer option \<Rightarrow>
     current_action_pointer option \<Rightarrow> send_sys \<Rightarrow> send_sys" where
  "do_check env w att f now c view_pointer action_pointer s =
     (let st = att_state att in
      case artifact_denials (senv_hash env) (att_request att) (snd_view st) (snd_proposal st) (snd_approval st) (sys_clock s) of
        Inl e \<Rightarrow> goto w (Withdrawing att f None) s
      | Inr artifacts \<Rightarrow>
          goto w (Reading_mandates att f
                    \<lparr>obs_now = now, obs_case = c, obs_view_pointer = view_pointer,
                     obs_action_pointer = action_pointer, obs_artifacts = artifacts\<rparr> []
                    (view_mandate_version_set (snd_view st))) s)"

fun send_denial_text :: "send_denial \<Rightarrow> string" where
  "send_denial_text CASE_NOT_ACTION_PROPOSED = ''CASE_NOT_ACTION_PROPOSED''"
| "send_denial_text AUTHORIZATION_VERSION_MOVED = ''AUTHORIZATION_VERSION_MOVED''"
| "send_denial_text VIEW_NOT_CURRENT = ''VIEW_NOT_CURRENT''"
| "send_denial_text VIEW_EXPIRED = ''VIEW_EXPIRED''"
| "send_denial_text APPROVAL_EXPIRED = ''APPROVAL_EXPIRED''"
| "send_denial_text APPROVAL_NOT_APPROVED = ''APPROVAL_NOT_APPROVED''"
| "send_denial_text APPROVAL_NOT_BOUND = ''APPROVAL_NOT_BOUND''"
| "send_denial_text PROPOSAL_NOT_CURRENT = ''PROPOSAL_NOT_CURRENT''"
| "send_denial_text MANDATE_AUTHORITY_MOVED = ''MANDATE_AUTHORITY_MOVED''"
| "send_denial_text MANDATE_EXPIRED = ''MANDATE_EXPIRED''"
| "send_denial_text DESTINATION_REGISTRY_CHANGED = ''DESTINATION_REGISTRY_CHANGED''"
| "send_denial_text ROUTING_TOKEN_CHANGED = ''ROUTING_TOKEN_CHANGED''"
| "send_denial_text POLICY_BUILD_CHANGED = ''POLICY_BUILD_CHANGED''"
| "send_denial_text PURPOSE_MISMATCH = ''PURPOSE_MISMATCH''"
| "send_denial_text AUTHORIZATION_WINDOW_TOO_SHORT = ''AUTHORIZATION_WINDOW_TOO_SHORT''"

definition decided ::
    "send_env \<Rightarrow> nat \<Rightarrow> attempt \<Rightarrow> send_fence \<Rightarrow> observed \<Rightarrow> disclosure_mandate list option \<Rightarrow> send_sys \<Rightarrow> send_sys" where
  "decided env w att f obs found s =
     (let denials = denials_of (senv_hash env) (senv_authority env) (att_request att) (obs_case obs)
            (snd_view (att_state att)) (obs_view_pointer obs) (obs_action_pointer obs) (obs_artifacts obs)
            found (obs_now obs) in
      if denials = [] then goto w (Resolving att f) s
      else goto w (Withdrawing att f (Some (map send_denial_text denials @ [STALE]))) s)"

fun do_mandates ::
    "send_env \<Rightarrow> nat \<Rightarrow> attempt \<Rightarrow> send_fence \<Rightarrow> observed \<Rightarrow> disclosure_mandate list \<Rightarrow> mandate_version_ref list \<Rightarrow>
     send_sys \<Rightarrow> send_sys" where
  "do_mandates env w att f obs ms [] s = decided env w att f obs (Some ms) s"
| "do_mandates env w att f obs ms (ref # refs) s =
     (case live_mandate (sys_core s) ref of
        Inl e \<Rightarrow> goto w (Withdrawing att f None) s
      | Inr None \<Rightarrow> decided env w att f obs None s
      | Inr (Some m) \<Rightarrow> goto w (Reading_mandates att f obs (ms @ [m]) refs) s)"

definition do_withdraw :: "nat \<Rightarrow> attempt \<Rightarrow> string list option \<Rightarrow> send_sys \<Rightarrow> send_sys" where
  "do_withdraw w att codes s =
     set_fence (authority_release (req_execution_id (att_request att)) (sys_fence s))
       (goto w (case codes of None \<Rightarrow> Finished | Some reasons \<Rightarrow> Failing (att_claimed att) reasons) s)"

definition fence_lapsed :: "send_fence \<Rightarrow> send_sys \<Rightarrow> bool" where
  "fence_lapsed f s \<longleftrightarrow> instant (fence_expires_at f) \<le> sys_clock s"

definition do_resolve :: "nat \<Rightarrow> attempt \<Rightarrow> send_fence \<Rightarrow> string option \<Rightarrow> send_sys \<Rightarrow> send_sys" where
  "do_resolve w att f refusal s =
     (if fence_lapsed f s then goto w (Aborting att f [''FENCE_EXPIRED'', STALE]) s
      else case refusal of
        Some reason \<Rightarrow> goto w (Aborting att f [reason]) s
      | None \<Rightarrow> goto w (Resolved att f) s)"

text \<open>The last reading of the clock, with nothing between it and the call.\<close>

definition do_call :: "send_env \<Rightarrow> nat \<Rightarrow> attempt \<Rightarrow> send_fence \<Rightarrow> send_sys \<Rightarrow> send_sys" where
  "do_call env w att f s =
     (if fence_lapsed f s then goto w (Aborting att f [''FENCE_EXPIRED'', STALE]) s
      else (goto w (Called att f) s)\<lparr>sys_calls := (w, target_of env w, sys_clock s) # sys_calls s\<rparr>)"

definition do_close :: "send_env \<Rightarrow> nat \<Rightarrow> send_sys \<Rightarrow> send_sys" where
  "do_close env w s = set_fence (authority_release (target_of env w) (sys_fence s)) (goto w Finished s)"

definition on_continue :: "input \<Rightarrow> send_sys \<Rightarrow> send_sys option" where
  "on_continue inp s = (if inp = Continue then Some s else None)"

text \<open>
  An exception out of an await: the revalidation releases the fence on the way out, the send
  releases it in its \<open>finally\<close>, and before the fence nothing is held.
\<close>

fun raised :: "phase \<Rightarrow> phase" where
  "raised (Holding att f) = Withdrawing att f None"
| "raised (Checking att f now c) = Withdrawing att f None"
| "raised (Reading_mandates att f obs ms refs) = Withdrawing att f None"
| "raised (Resolving att f) = Closing att f"
| "raised (Resolved att f) = Closing att f"
| "raised (Called att f) = Closing att f"
| "raised (Aborting att f codes) = Closing att f"
| "raised _ = Finished"

fun finished :: "phase \<Rightarrow> bool" where
  "finished Finished = True"
| "finished _ = False"

definition work_at :: "send_env \<Rightarrow> nat \<Rightarrow> phase \<Rightarrow> input \<Rightarrow> send_sys \<Rightarrow> send_sys option" where
  "work_at env w ph inp s =
     (if finished ph then None
      else if inp = Crash then Some (goto w Finished s)
      else if inp = Raise then Some (goto w (raised ph) s)
      else case ph of
        Fresh \<Rightarrow> on_continue inp (do_load env w s)
      | Loaded x \<Rightarrow> (case inp of Pointers _ pointer \<Rightarrow> Some (do_verify env w x pointer s) | _ \<Rightarrow> None)
      | Failing x codes \<Rightarrow> on_continue inp
          (persist env w x (fail_execution x codes None (sys_clock s)) (goto w Finished s))
      | Claiming st \<Rightarrow> (case inp of Answer ok \<Rightarrow> Some (goto w (if ok then Claim_answered st else Finished) s) | _ \<Rightarrow> None)
      | Claim_answered st \<Rightarrow> on_continue inp (do_own env w st s)
      | Owning att \<Rightarrow> on_continue inp (do_authorize w att s)
      | Reading_expiry att now ms refs \<Rightarrow> on_continue inp (do_expiry w att now ms refs s)
      | Fencing att f \<Rightarrow> on_continue inp (do_held w att f s)
      | Putting att f \<Rightarrow> on_continue inp (do_put w att f s)
      | Conflicted att f \<Rightarrow> on_continue inp (do_conflict w att f s)
      | Holding att f \<Rightarrow> on_continue inp (goto w (Checking att f (sys_clock s) (core_case (sys_core s))) s)
      | Checking att f now c \<Rightarrow>
          (case inp of Pointers view_pointer action_pointer \<Rightarrow>
             Some (do_check env w att f now c view_pointer action_pointer s) | _ \<Rightarrow> None)
      | Reading_mandates att f obs ms refs \<Rightarrow> on_continue inp (do_mandates env w att f obs ms refs s)
      | Withdrawing att f codes \<Rightarrow> on_continue inp (do_withdraw w att codes s)
      | Resolving att f \<Rightarrow> (case inp of Resolution refusal \<Rightarrow> Some (do_resolve w att f refusal s) | _ \<Rightarrow> None)
      | Resolved att f \<Rightarrow> on_continue inp (do_call env w att f s)
      | Called att f \<Rightarrow> (case inp of Transport outcome \<Rightarrow> Some (persist env w (att_claimed att)
            (record_outcome (att_claimed att) (classified outcome) (sys_clock s)) (goto w (Closing att f) s)) | _ \<Rightarrow> None)
      | Aborting att f codes \<Rightarrow> on_continue inp (persist env w (att_claimed att)
            (fail_execution (att_claimed att) codes None (sys_clock s)) (goto w (Closing att f) s))
      | Closing att f \<Rightarrow> on_continue inp (do_close env w s)
      | Finished \<Rightarrow> None)"

definition work :: "send_env \<Rightarrow> nat \<Rightarrow> input \<Rightarrow> send_sys \<Rightarrow> send_sys option" where
  "work env w inp s = (if w < senv_workers env then work_at env w (sys_phase s w) inp s else None)"

section \<open>Everything else that moves\<close>

text \<open>A staged write lands when the row is at the version it was staged on and its proof is new.\<close>

definition land :: "send_env \<Rightarrow> nat \<Rightarrow> nat \<Rightarrow> send_sys \<Rightarrow> send_sys option" where
  "land env w i s =
     (if i < length (sys_staged s w) then
        let write = sys_staged s w ! i in
        case sys_rows s (target_of env w) of
          None \<Rightarrow> None
        | Some r \<Rightarrow>
            if exec_version r = exec_version (stg_new write) - 1 \<and> stg_proof write \<notin> set (sys_proofs s)
            then Some (s\<lparr>sys_rows := (sys_rows s)(target_of env w \<mapsto> stg_new write),
                         sys_proofs := stg_proof write # sys_proofs s\<rparr>)
            else None
      else None)"

text \<open>
  A command that is not a send moves an execution by one transition, and never to \<open>SENDING\<close>. The
  quarantine of an abandoned send is written out with its two conditions.
\<close>

definition move :: "execution_id \<Rightarrow> execution_command \<Rightarrow> send_sys \<Rightarrow> send_sys option" where
  "move e cmd s =
     (case sys_rows s e of
        None \<Rightarrow> None
      | Some r \<Rightarrow>
          if xc_target cmd = EX_SENDING then None
          else (case transition_action_execution r cmd of
                  Inl err \<Rightarrow> None
                | Inr r' \<Rightarrow> Some (s\<lparr>sys_rows := (sys_rows s)(e \<mapsto> r')\<rparr>)))"

definition may_quarantine :: "action_execution \<Rightarrow> send_fence option \<Rightarrow> int \<Rightarrow> bool" where
  "may_quarantine x row now \<longleftrightarrow>
     exec_state x = EX_SENDING \<and>
     (case exec_started_at x of None \<Rightarrow> False | Some started \<Rightarrow> instant started + SEND_RECOVERY_WINDOW \<le> now) \<and>
     (case row of None \<Rightarrow> True | Some f \<Rightarrow> instant (fence_expires_at f) \<le> now)"

definition reconcile_quarantine :: "execution_id \<Rightarrow> send_sys \<Rightarrow> send_sys option" where
  "reconcile_quarantine e s =
     (case sys_rows s e of
        None \<Rightarrow> None
      | Some x \<Rightarrow>
          if may_quarantine x (sys_fence s) (sys_clock s) then move e (execution_move x EX_SEND_UNKNOWN (sys_clock s)
            \<lparr>xc_finished_at := Some (utc (sys_clock s))\<rparr>) s
          else None)"

text \<open>
  The participants of a mandate decision: the create-only version row, the pointer guarded on the
  version it moves off, the case guarded on its version, and no live fence at the instant \<open>t\<close> the
  command read from the clock.
\<close>

definition pointer_to :: "disclosure_mandate \<Rightarrow> current_mandate_pointer" where
  "pointer_to m = \<lparr>pointer_mandate_id = mandate_id m, pointer_version = mandate_version m,
     pointer_case_id = mandate_case_id m, pointer_contributor_id = mandate_contributor_id m,
     pointer_terms_hash = mandate_terms_hash m\<rparr>"

definition append_mandate :: "disclosure_mandate \<Rightarrow> core_rows \<Rightarrow> core_rows option" where
  "append_mandate m core =
     (if core_versions core (mandate_id m, mandate_version m) = None \<and>
         (case core_pointers core (mandate_id m) of
            None \<Rightarrow> mandate_version m = 1
          | Some p \<Rightarrow> mandate_version m = pointer_version p + 1)
      then Some (core\<lparr>core_versions := (core_versions core)((mandate_id m, mandate_version m) \<mapsto> m),
                      core_pointers := (core_pointers core)(mandate_id m \<mapsto> pointer_to m)\<rparr>)
      else None)"

definition decide_commit :: "int \<Rightarrow> disclosure_mandate \<Rightarrow> community_case \<Rightarrow> send_sys \<Rightarrow> send_sys option" where
  "decide_commit t m c s =
     (if t \<le> sys_clock s \<and> expired_or_absent t (sys_fence s) \<and>
         case_version c = case_version (core_case (sys_core s)) + 1
      then map_option (\<lambda>core. s\<lparr>sys_core := core\<lparr>core_case := c\<rparr>\<rparr>) (append_mandate m (sys_core s))
      else None)"

text \<open>The other commands that stage the fence condition replace the case row.\<close>

definition fenced_case_commit :: "int \<Rightarrow> community_case \<Rightarrow> send_sys \<Rightarrow> send_sys option" where
  "fenced_case_commit t c s =
     (if t \<le> sys_clock s \<and> expired_or_absent t (sys_fence s) \<and>
         case_version c = case_version (core_case (sys_core s)) + 1
      then Some (s\<lparr>sys_core := (sys_core s)\<lparr>core_case := c\<rparr>\<rparr>) else None)"

text \<open>
  A step of a Monitor application on an existing case (\<open>commands/run_monitor.py\<close>,
  \<open>services/monitor_apply.py\<close>): more reports and facts, both counters moved, and no fence
  condition among its participants.
\<close>

definition MONITOR_LINKABLE_CASE_STATES :: "case_state list" where
  "MONITOR_LINKABLE_CASE_STATES =
     [CANDIDATE, AWAITING_MANDATES, INVESTIGATING, READY_FOR_ACTION, ACTION_PROPOSED, ACTIONED, VERIFYING]"

definition case_at_step :: "community_case \<Rightarrow> report_id list \<Rightarrow> fact_id list \<Rightarrow> int \<Rightarrow> community_case" where
  "case_at_step c reports facts now =
     c\<lparr>case_report_ids := sort (remdups (case_report_ids c @ reports)),
       case_fact_ids := sort (remdups (case_fact_ids c @ facts)),
       case_reason_code := ''MONITOR_CANDIDATE_EXTENDED'',
       case_version := case_version c + 1,
       case_authorization_version := case_authorization_version c + 1,
       case_updated_at := utc now\<rparr>"

definition monitor_commit :: "report_id list \<Rightarrow> fact_id list \<Rightarrow> send_sys \<Rightarrow> send_sys option" where
  "monitor_commit reports facts s =
     (let c = core_case (sys_core s) in
      if case_current_state c \<in> set MONITOR_LINKABLE_CASE_STATES 
      then Some (s\<lparr>sys_core := (sys_core s)\<lparr>core_case := case_at_step c reports facts (sys_clock s)\<rparr>\<rparr>)
      else None)"

text \<open>The commands that move the case without touching what it may disclose; none checks the fence.\<close>

definition lifecycle_commit :: "community_case \<Rightarrow> send_sys \<Rightarrow> send_sys option" where
  "lifecycle_commit c s =
     (let old = core_case (sys_core s) in
      if case_version c = case_version old + 1 \<and> case_authorization_version c = case_authorization_version old
      then Some (s\<lparr>sys_core := (sys_core s)\<lparr>core_case := c\<rparr>\<rparr>) else None)"

section \<open>The program\<close>

datatype choice =
    Tick int
  | Worker nat input
  | Land nat nat
  | Create execution_id action_execution
  | Move execution_id execution_command
  | Reconcile execution_id
  | Decide int disclosure_mandate community_case
  | Fenced_case int community_case
  | Monitor "report_id list" "fact_id list"
  | Lifecycle community_case

fun advance :: "send_env \<Rightarrow> choice \<Rightarrow> send_sys \<Rightarrow> send_sys option" where
  "advance env (Tick n) s = (if 0 \<le> n then Some (s\<lparr>sys_clock := sys_clock s + n\<rparr>) else None)"
| "advance env (Worker w inp) s = work env w inp s"
| "advance env (Land w i) s = land env w i s"
| "advance env (Create e x) s =
     (if sys_rows s e = None \<and> exec_state x = EX_DRAFT \<and> action_execution_post_init x = Inr ()
      then Some (s\<lparr>sys_rows := (sys_rows s)(e \<mapsto> x)\<rparr>) else None)"
| "advance env (Move e cmd) s = move e cmd s"
| "advance env (Reconcile e) s = reconcile_quarantine e s"
| "advance env (Decide t m c) s = decide_commit t m c s"
| "advance env (Fenced_case t c) s = fenced_case_commit t c s"
| "advance env (Monitor reports facts) s = monitor_commit reports facts s"
| "advance env (Lifecycle c) s = lifecycle_commit c s"

text \<open>Before any send: rows that were constructed, no fence, and views compiled from what Core holds.\<close>

definition well_keyed :: "core_rows \<Rightarrow> bool" where
  "well_keyed core \<longleftrightarrow>
     (\<forall>i n m. core_versions core (i, n) = Some m \<longrightarrow> mandate_id m = i \<and> mandate_version m = n)"

definition compiled_from :: "core_rows \<Rightarrow> shareable_case_view \<Rightarrow> bool" where
  "compiled_from core v \<longleftrightarrow>
     (\<forall>ref\<in>set (view_mandate_version_set v). \<exists>p.
        core_pointers core (Ident (mvr_mandate_id ref)) = Some p \<and> mvr_version ref \<le> pointer_version p \<and>
        mvr_mandate_id ref < 2 ^ 128)"

definition initial :: "send_env \<Rightarrow> send_sys \<Rightarrow> bool" where
  "initial env s \<longleftrightarrow>
     sys_fence s = None \<and> sys_calls s = [] \<and> (\<forall>w. sys_phase s w = Fresh \<and> sys_staged s w = []) \<and>
     (\<forall>e x. sys_rows s e = Some x \<longrightarrow> action_execution_post_init x = Inr ()) \<and>
     well_keyed (sys_core s) \<and> (\<forall>i v. senv_view env i = Some v \<longrightarrow> compiled_from (sys_core s) v)"

inductive reachable :: "send_env \<Rightarrow> send_sys \<Rightarrow> bool" for env where
  start: "initial env s \<Longrightarrow> reachable env s"
| move: "reachable env s \<Longrightarrow> advance env c s = Some t \<Longrightarrow> reachable env t"

text \<open>A run of named moves.\<close>

fun moves :: "send_env \<Rightarrow> choice list \<Rightarrow> send_sys \<Rightarrow> send_sys option" where
  "moves env [] s = Some s"
| "moves env (c # cs) s = Option.bind (advance env c s) (moves env cs)"

lemma reachable_moves: "reachable env s \<Longrightarrow> moves env cs s = Some t \<Longrightarrow> reachable env t"
  by (induction cs arbitrary: s) (auto split: Option.bind_splits intro: reachable.move)

end
