(* ===== verification/Send_Safety.thy ===== *)
theory Send_Safety
  imports Send_Protocol
begin

text \<open>
  Invariants of the reachable states of \<open>Send_Protocol\<close>. The moves of a worker are first written
  as a relation between phases (\<open>phase_move\<close>); each invariant is then one case distinction over it.
\<close>

section \<open>What the local verification establishes\<close>

text \<open>
  The proposal, its view and an approval of it that bind each other and this execution, each with
  its own digest, and a rendered message with the digest the approval was given for.
\<close>

definition verified_state :: "send_env \<Rightarrow> nat \<Rightarrow> send_state \<Rightarrow> bool" where
  "verified_state env w st \<longleftrightarrow>
     (let c = senv_command env w; H = senv_hash env; p = snd_proposal st; v = snd_view st; a = snd_approval st in
      senv_proposal env (cmd_action_id c) = Some p \<and> senv_view env (prop_view_id p) = Some v \<and>
      senv_approval env (cmd_approval_id c) = Some a \<and>
      hash_action_proposal H p = prop_hash p \<and> hash_view H v = view_hash v \<and> hash_approval H a = appr_hash a \<and>
      appr_execution_id a = cmd_execution_id c \<and> appr_proposal_hash a = prop_hash p \<and>
      appr_view_hash a = prop_view_hash p \<and> appr_decision a = AD_APPROVED \<and>
      senv_render env p v (snd_from_identity_id (senv_sender env)) (snd_template_version (senv_sender env)) =
        Inr (prop_preview_hash p))"

lemma load_and_verify_state:
  assumes "load_and_verify (senv_hash env) (senv_sender env) (senv_command env w) x p v a pointer now = Inr []"
    "senv_proposal env (cmd_action_id (senv_command env w)) = Some p" "senv_view env (prop_view_id p) = Some v"
    "senv_approval env (cmd_approval_id (senv_command env w)) = Some a"
    "senv_render env p v (snd_from_identity_id (senv_sender env)) (snd_template_version (senv_sender env)) =
       Inr (prop_preview_hash p)"
  shows "verified_state env w \<lparr>snd_proposal = p, snd_approval = a, snd_view = v\<rparr>"
  using assms by (simp add: load_and_verify_def verified_state_def result_simps Let_def split: if_splits)

lemma verified_stateD:
  assumes "verified_state env w st"
  shows "appr_execution_id (snd_approval st) = cmd_execution_id (senv_command env w)"
    and "senv_view env (prop_view_id (snd_proposal st)) = Some (snd_view st)"
  using assms by (simp_all add: verified_state_def Let_def)

section \<open>The moves of a worker as a relation\<close>

inductive phase_move ::
    "send_env \<Rightarrow> send_sys \<Rightarrow> nat \<Rightarrow> phase \<Rightarrow> phase \<Rightarrow> send_fence option \<Rightarrow> staged_write list \<Rightarrow>
     (nat \<times> execution_id \<times> int) list \<Rightarrow> bool" for env s w where
  ended: "phase_move env s w ph Finished (sys_fence s) [] []"
| load: "sys_rows s (target_of env w) = Some x \<Longrightarrow> exec_state x = EX_APPROVED \<Longrightarrow>
    phase_move env s w Fresh (Loaded x) (sys_fence s) [] []"
| fail: "phase_move env s w (Loaded x) (Failing x codes) (sys_fence s) [] []"
| claim: "claim_execution x (owner_of env w) preview token (sys_clock s) = Inr y \<Longrightarrow>
    verified_state env w st \<Longrightarrow>
    phase_move env s w (Loaded x) (Claiming st) (sys_fence s)
      [\<lparr>stg_base = x, stg_new = y, stg_proof = k\<rparr>] []"
| failed: "fail_execution x codes None (sys_clock s) = Inr y \<Longrightarrow>
    phase_move env s w (Failing x codes) Finished (sys_fence s) [\<lparr>stg_base = x, stg_new = y, stg_proof = k\<rparr>] []"
| answered: "phase_move env s w (Claiming st) (Claim_answered st) (sys_fence s) [] []"
| own: "sys_rows s (target_of env w) = Some x \<Longrightarrow> owns x (owner_of env w) \<Longrightarrow>
    att_claimed att = x \<Longrightarrow> att_state att = st \<Longrightarrow>
    att_request att = authorization_request (snd_proposal st) (snd_view st) (snd_approval st) (utc (sys_clock s)) \<Longrightarrow>
    phase_move env s w (Claim_answered st) (Owning att) (sys_fence s) [] []"
| authorize: "refs = view_mandate_version_set (snd_view (att_state att)) \<Longrightarrow>
    phase_move env s w (Owning att) (Reading_expiry att (utc (sys_clock s)) [] refs) (sys_fence s) [] []"
| expiry_read: "live_mandate (sys_core s) ref = Inr (Some m) \<Longrightarrow>
    phase_move env s w (Reading_expiry att now ms (ref # refs)) (Reading_expiry att now (ms @ [m]) refs) (sys_fence s) [] []"
| too_short: "phase_move env s w (Reading_expiry att now ms refs) (Failing (att_claimed att) codes) (sys_fence s) [] []"
| choose: "expires = fence_expiry (snd_view (att_state att)) (snd_approval (att_state att)) found now \<Longrightarrow>
    \<not> window_too_short expires now \<Longrightarrow>
    (found = Some ms \<and> refs = []) \<or> (\<exists>ref rest. found = None \<and> refs = ref # rest \<and> live_mandate (sys_core s) ref = Inr None) \<Longrightarrow>
    f = requested_fence (att_request att) now expires \<Longrightarrow>
    phase_move env s w (Reading_expiry att now ms refs) (Fencing att f) (sys_fence s) [] []"
| not_held: "phase_move env s w (Fencing att f) (Putting att f) (sys_fence s) [] []"
| put: "expired_or_absent (instant (fence_acquired_at f)) (sys_fence s) \<Longrightarrow>
    phase_move env s w (Putting att f) (Holding att f) (Some f) [] []"
| conflict: "phase_move env s w (Putting att f) (Conflicted att f) (sys_fence s) [] []"
| replay: "sys_fence s = Some g \<Longrightarrow> fence_execution_id g = fence_execution_id f \<Longrightarrow>
    phase_move env s w (Conflicted att f) (Holding att g) (sys_fence s) [] []"
| check: "phase_move env s w (Holding att f) (Checking att f (sys_clock s) (core_case (sys_core s))) (sys_fence s) [] []"
| checked: "obs_now obs = now \<Longrightarrow> obs_case obs = c \<Longrightarrow>
    refs = view_mandate_version_set (snd_view (att_state att)) \<Longrightarrow>
    phase_move env s w (Checking att f now c) (Reading_mandates att f obs [] refs) (sys_fence s) [] []"
| mandate_read: "live_mandate (sys_core s) ref = Inr (Some m) \<Longrightarrow>
    phase_move env s w (Reading_mandates att f obs ms (ref # refs)) (Reading_mandates att f obs (ms @ [m]) refs)
      (sys_fence s) [] []"
| grant: "denials_of (senv_hash env) (senv_authority env) (att_request att) (obs_case obs) (snd_view (att_state att))
      (obs_view_pointer obs) (obs_action_pointer obs) (obs_artifacts obs) found (obs_now obs) = [] \<Longrightarrow>
    (found = Some ms \<and> refs = []) \<or> found = None \<Longrightarrow>
    phase_move env s w (Reading_mandates att f obs ms refs) (Resolving att f) (sys_fence s) [] []"
| withdraw: "ph \<in> {Holding att f, Checking att f now c, Reading_mandates att f obs ms refs} \<Longrightarrow>
    phase_move env s w ph (Withdrawing att f codes) (sys_fence s) [] []"
| withdrawn: "ph' \<in> {Finished, Failing (att_claimed att) reasons} \<Longrightarrow>
    phase_move env s w (Withdrawing att f codes) ph'
      (authority_release (req_execution_id (att_request att)) (sys_fence s)) [] []"
| resolve: "sys_clock s < instant (fence_expires_at f) \<Longrightarrow>
    phase_move env s w (Resolving att f) (Resolved att f) (sys_fence s) [] []"
| called: "sys_clock s < instant (fence_expires_at f) \<Longrightarrow>
    phase_move env s w (Resolved att f) (Called att f) (sys_fence s) [] [(w, target_of env w, sys_clock s)]"
| abort: "ph \<in> {Resolving att f, Resolved att f} \<Longrightarrow>
    phase_move env s w ph (Aborting att f codes) (sys_fence s) [] []"
| outcome: "ph \<in> {Called att f, Aborting att f codes} \<Longrightarrow>
    transition_action_execution (att_claimed att) cmd = Inr y \<Longrightarrow>
    phase_move env s w ph (Closing att f) (sys_fence s) [\<lparr>stg_base = att_claimed att, stg_new = y, stg_proof = k\<rparr>] []"
| released: "ph \<in> {Resolving att f, Resolved att f, Called att f, Aborting att f codes} \<Longrightarrow>
    phase_move env s w ph (Closing att f) (sys_fence s) [] []"
| close: "phase_move env s w (Closing att f) Finished (authority_release (target_of env w) (sys_fence s)) [] []"

definition moved :: "nat \<Rightarrow> phase \<Rightarrow> send_fence option \<Rightarrow> staged_write list \<Rightarrow> (nat \<times> execution_id \<times> int) list \<Rightarrow>
    send_sys \<Rightarrow> send_sys" where
  "moved w ph row writes calls s =
     s\<lparr>sys_phase := (sys_phase s)(w := ph), sys_fence := row,
       sys_staged := (sys_staged s)(w := sys_staged s w @ writes), sys_calls := calls @ sys_calls s\<rparr>"

lemma moved_goto: "goto w ph s = moved w ph (sys_fence s) [] [] s"
  by (simp add: goto_def moved_def)

lemma moved_fields [simp]:
  "sys_clock (moved w ph row writes new s) = sys_clock s" "sys_core (moved w ph row writes new s) = sys_core s"
  "sys_rows (moved w ph row writes new s) = sys_rows s" "sys_proofs (moved w ph row writes new s) = sys_proofs s"
  "sys_fence (moved w ph row writes new s) = row" "sys_calls (moved w ph row writes new s) = new @ sys_calls s"
  "sys_phase (moved w ph row writes new s) = (sys_phase s)(w := ph)"
  "sys_staged (moved w ph row writes new s) = (sys_staged s)(w := sys_staged s w @ writes)"
  by (simp_all add: moved_def)

lemma stage_goto: "stage w write (goto w ph s) = moved w ph (sys_fence s) [write] [] s"
  by (simp add: goto_def moved_def stage_def)

lemma set_fence_goto: "set_fence row (goto w ph s) = moved w ph row [] [] s"
  by (simp add: goto_def moved_def set_fence_def)

definition worker_moves :: "send_env \<Rightarrow> nat \<Rightarrow> phase \<Rightarrow> send_sys \<Rightarrow> send_sys \<Rightarrow> bool" where
  "worker_moves env w ph s t \<longleftrightarrow>
     (\<exists>ph' row writes new. phase_move env s w ph ph' row writes new \<and> t = moved w ph' row writes new s)"

lemma worker_movesI: "phase_move env s w ph ph' row writes new \<Longrightarrow> worker_moves env w ph s (moved w ph' row writes new s)"
  by (auto simp: worker_moves_def)

lemma worker_moves_goto: "phase_move env s w ph ph' (sys_fence s) [] [] \<Longrightarrow> worker_moves env w ph s (goto w ph' s)"
  by (simp add: moved_goto worker_movesI)

lemmas to_goto = worker_moves_goto [OF phase_move.ended]

lemma do_load_moves: "worker_moves env w Fresh s (do_load env w s)"
  by (auto simp: do_load_def REPLAY_TABLE_PROCEED_iff split: option.splits
      intro: to_goto worker_moves_goto [OF phase_move.load])

lemma do_verify_moves: "worker_moves env w (Loaded x) s (do_verify env w x pointer s)"
proof -
  have claim: "worker_moves env w (Loaded x) s (do_claim env w x st preview s)"
    if "verified_state env w st" for st preview
    using that by (auto simp: do_claim_def Let_def stage_goto split: option.splits sum.splits
        intro!: to_goto worker_movesI phase_move.claim)
  show ?thesis
    by (auto simp: do_verify_def Let_def split: option.splits sum.splits
        intro!: to_goto worker_moves_goto [OF phase_move.fail] claim load_and_verify_state)
qed

lemma persist_moves:
  assumes "phase_move env s w ph ph' (sys_fence s) [] []"
    and "\<And>y k. outcome = Inr y \<Longrightarrow> phase_move env s w ph ph' (sys_fence s) [\<lparr>stg_base = x, stg_new = y, stg_proof = k\<rparr>] []"
  shows "worker_moves env w ph s (persist env w x outcome (goto w ph' s))"
proof (cases "\<exists>y key. outcome = Inr y \<and> exec_idempotency_key y = Some key")
  case True
  then obtain y key where y: "outcome = Inr y" "exec_idempotency_key y = Some key" by blast
  show ?thesis
    using worker_movesI [OF assms(2) [OF y(1)]] by (simp add: persist_def y stage_goto)
next
  case False
  then have "persist env w x outcome (goto w ph' s) = goto w ph' s"
    by (auto simp: persist_def split: option.splits sum.splits)
  with assms(1) show ?thesis by (simp add: worker_moves_goto)
qed

lemma do_own_moves: "worker_moves env w (Claim_answered st) s (do_own env w st s)"
  by (auto simp: do_own_def Let_def split: option.splits
      intro!: to_goto worker_moves_goto [OF phase_move.own])

lemma do_authorize_moves: "worker_moves env w (Owning att) s (do_authorize w att s)"
  by (auto simp: do_authorize_def intro: worker_moves_goto [OF phase_move.authorize])

lemma do_expiry_moves: "worker_moves env w (Reading_expiry att now ms refs) s (do_expiry w att now ms refs s)"
proof -
  have chosen: "worker_moves env w (Reading_expiry att now ms refs) s (fence_chosen w att now found s)"
    if "(found = Some ms \<and> refs = []) \<or> (\<exists>ref rest. found = None \<and> refs = ref # rest \<and> live_mandate (sys_core s) ref = Inr None)"
    for found ms refs
    using that by (auto simp: fence_chosen_def Let_def
        intro!: worker_moves_goto [OF phase_move.too_short] worker_moves_goto [OF phase_move.choose])
  show ?thesis
    by (cases refs) (auto split: option.splits sum.splits
        intro!: chosen to_goto worker_moves_goto [OF phase_move.expiry_read])
qed

lemma do_mandates_moves:
  "worker_moves env w (Reading_mandates att f obs ms refs) s (do_mandates env w att f obs ms refs s)"
proof -
  have withdraw: "worker_moves env w (Reading_mandates att f obs ms refs) s (goto w (Withdrawing att f codes) s)" for codes ms refs
    by (rule worker_moves_goto [OF phase_move.withdraw [where now = undefined and c = undefined]]) simp
  have decided: "worker_moves env w (Reading_mandates att f obs ms refs) s (decided env w att f obs found s)"
    if "(found = Some ms \<and> refs = []) \<or> found = None" for found ms refs
    using that by (auto simp: decided_def Let_def intro!: withdraw worker_moves_goto [OF phase_move.grant])
  show ?thesis
    by (cases refs) (auto split: option.splits sum.splits
        intro!: decided withdraw worker_moves_goto [OF phase_move.mandate_read])
qed

lemma do_check_moves: "worker_moves env w (Checking att f now c) s (do_check env w att f now c vp ap s)"
proof -
  have "worker_moves env w (Checking att f now c) s (goto w (Withdrawing att f None) s)"
    by (rule worker_moves_goto [OF phase_move.withdraw [where obs = undefined and ms = undefined and refs = undefined]]) simp
  then show ?thesis
    by (auto simp: do_check_def Let_def split: sum.splits intro!: worker_moves_goto [OF phase_move.checked])
qed

lemma fence_moves:
  "worker_moves env w (Fencing att f) s (do_held w att f s)"
  "worker_moves env w (Putting att f) s (do_put w att f s)"
  "worker_moves env w (Conflicted att f) s (do_conflict w att f s)"
  "worker_moves env w (Withdrawing att f codes) s (do_withdraw w att codes s)"
  "worker_moves env w (Resolving att f) s (do_resolve w att f refusal s)"
  "worker_moves env w (Resolved att f) s (do_call env w att f s)"
  "worker_moves env w (Closing att f) s (do_close env w s)"
proof -
  show "worker_moves env w (Fencing att f) s (do_held w att f s)"
    by (auto simp: do_held_def intro: to_goto worker_moves_goto [OF phase_move.not_held])
  show "worker_moves env w (Putting att f) s (do_put w att f s)"
    by (auto simp: do_put_def put_fence_def set_fence_goto
        intro!: worker_movesI phase_move.put worker_moves_goto [OF phase_move.conflict])
  show "worker_moves env w (Conflicted att f) s (do_conflict w att f s)"
    by (auto simp: do_conflict_def fence_after_conflict_def split: option.splits
        intro!: to_goto worker_moves_goto [OF phase_move.replay])
  show "worker_moves env w (Withdrawing att f codes) s (do_withdraw w att codes s)"
    by (auto simp: do_withdraw_def set_fence_goto split: option.splits intro!: worker_movesI phase_move.withdrawn)
  show "worker_moves env w (Resolving att f) s (do_resolve w att f refusal s)"
    by (auto simp: do_resolve_def fence_lapsed_def split: option.splits
        intro!: worker_moves_goto [OF phase_move.abort] worker_moves_goto [OF phase_move.resolve])
  have "(goto w (Called att f) s)\<lparr>sys_calls := (w, target_of env w, sys_clock s) # sys_calls s\<rparr> =
      moved w (Called att f) (sys_fence s) [] [(w, target_of env w, sys_clock s)] s"
    by (simp add: goto_def moved_def)
  then show "worker_moves env w (Resolved att f) s (do_call env w att f s)"
    by (auto simp: do_call_def fence_lapsed_def
        intro!: worker_moves_goto [OF phase_move.abort] worker_movesI phase_move.called)
  show "worker_moves env w (Closing att f) s (do_close env w s)"
    by (auto simp: do_close_def set_fence_goto intro!: worker_movesI phase_move.close)
qed

lemma raised_moves: "worker_moves env w ph s (goto w (raised ph) s)"
  by (cases ph) (auto intro!: to_goto worker_moves_goto [OF phase_move.withdraw] worker_moves_goto [OF phase_move.released])

lemma outcome_moves:
  "worker_moves env w (Called att f) s
     (persist env w (att_claimed att) (record_outcome (att_claimed att) out now) (goto w (Closing att f) s))"
  "worker_moves env w (Aborting att f codes) s
     (persist env w (att_claimed att) (fail_execution (att_claimed att) codes None now) (goto w (Closing att f) s))"
  by (cases out; auto simp: succeed_def fail_execution_def quarantine_def
      intro!: persist_moves phase_move.released phase_move.outcome)+

lemma work_moves: "work env w inp s = Some t \<Longrightarrow> worker_moves env w (sys_phase s w) s t"
  unfolding work_def work_at_def on_continue_def
  by (auto split: if_splits phase.splits input.splits
      intro: to_goto raised_moves do_load_moves do_verify_moves do_own_moves do_expiry_moves do_mandates_moves
        do_check_moves fence_moves outcome_moves worker_moves_goto [OF phase_move.answered]
        worker_moves_goto [OF phase_move.check] do_authorize_moves
        persist_moves [OF phase_move.ended phase_move.failed])

section \<open>Rows only advance\<close>

text \<open>A row a worker has read is the stored row, or an older version of it.\<close>

definition known :: "send_sys \<Rightarrow> execution_id \<Rightarrow> action_execution \<Rightarrow> bool" where
  "known s e x \<longleftrightarrow> (\<exists>r. sys_rows s e = Some r \<and> (x = r \<or> exec_version x < exec_version r))"

definition rows_advance :: "send_sys \<Rightarrow> send_sys \<Rightarrow> bool" where
  "rows_advance s t \<longleftrightarrow> (\<forall>e r. sys_rows s e = Some r \<longrightarrow>
     (\<exists>r'. sys_rows t e = Some r' \<and> (r' = r \<or> (\<exists>cmd. transition_action_execution r cmd = Inr r'))))"

lemma rows_advance_same: "sys_rows t = sys_rows s \<Longrightarrow> rows_advance s t"
  by (simp add: rows_advance_def)

lemma rows_advance_update:
  "sys_rows s e = Some r \<Longrightarrow> transition_action_execution r cmd = Inr r' \<Longrightarrow>
     sys_rows t = (sys_rows s)(e \<mapsto> r') \<Longrightarrow> rows_advance s t"
  by (auto simp: rows_advance_def)

lemma known_advance: "known s e x \<Longrightarrow> rows_advance s t \<Longrightarrow> known t e x"
  unfolding known_def rows_advance_def by (fastforce dest: transition_action_executionD(4))

definition owned :: "send_env \<Rightarrow> send_sys \<Rightarrow> nat \<Rightarrow> bool" where
  "owned env s w \<longleftrightarrow>
     (\<exists>r. sys_rows s (target_of env w) = Some r \<and> exec_claim_owner_hash r = Some (owner_of env w))"

lemma owner_kept:
  assumes "transition_action_execution r cmd = Inr r'" "exec_claim_owner_hash r = Some d"
  shows "exec_claim_owner_hash r' = Some d"
  using transition_action_executionD(7) [OF assms(1), of XF_claim_owner_hash] assms(2) by auto

lemma owned_advance: "owned env s w \<Longrightarrow> rows_advance s t \<Longrightarrow> owned env t w"
  unfolding owned_def rows_advance_def by (metis owner_kept)

fun phase_attempt :: "phase \<Rightarrow> attempt option" where
  "phase_attempt (Owning att) = Some att"
| "phase_attempt (Reading_expiry att now ms refs) = Some att"
| "phase_attempt (Fencing att f) = Some att"
| "phase_attempt (Putting att f) = Some att"
| "phase_attempt (Conflicted att f) = Some att"
| "phase_attempt (Holding att f) = Some att"
| "phase_attempt (Checking att f now c) = Some att"
| "phase_attempt (Reading_mandates att f obs ms refs) = Some att"
| "phase_attempt (Withdrawing att f codes) = Some att"
| "phase_attempt (Resolving att f) = Some att"
| "phase_attempt (Resolved att f) = Some att"
| "phase_attempt (Called att f) = Some att"
| "phase_attempt (Aborting att f codes) = Some att"
| "phase_attempt (Closing att f) = Some att"
| "phase_attempt _ = None"

definition phase_base :: "phase \<Rightarrow> action_execution option" where
  "phase_base ph = (case ph of Loaded x \<Rightarrow> Some x | Failing x codes \<Rightarrow> Some x
     | _ \<Rightarrow> map_option att_claimed (phase_attempt ph))"

definition write_ok :: "send_sys \<Rightarrow> execution_id \<Rightarrow> staged_write \<Rightarrow> bool" where
  "write_ok s e wr \<longleftrightarrow>
     known s e (stg_base wr) \<and> (\<exists>cmd. transition_action_execution (stg_base wr) cmd = Inr (stg_new wr))"

definition rows_inv :: "send_env \<Rightarrow> send_sys \<Rightarrow> bool" where
  "rows_inv env s \<longleftrightarrow> (\<forall>w.
     (\<forall>x. phase_base (sys_phase s w) = Some x \<longrightarrow> known s (target_of env w) x) \<and>
     (\<forall>wr\<in>set (sys_staged s w). write_ok s (target_of env w) wr))"

lemma phase_move_rows:
  assumes "phase_move env s w ph ph' row writes new" "\<And>x. phase_base ph = Some x \<Longrightarrow> known s (target_of env w) x"
  shows "(\<forall>x. phase_base ph' = Some x \<longrightarrow> known s (target_of env w) x) \<and>
    (\<forall>wr\<in>set writes. write_ok s (target_of env w) wr)"
  using assms
  by (cases rule: phase_move.cases)
    (auto simp: phase_base_def known_def write_ok_def claim_execution_def fail_execution_def)

lemma land_advance:
  assumes "rows_inv env s" "land env w i s = Some t"
  shows "rows_advance s t"
proof -
  let ?wr = "sys_staged s w ! i"
  from assms(2) obtain r where i: "i < length (sys_staged s w)" and r: "sys_rows s (target_of env w) = Some r"
    and v: "exec_version r = exec_version (stg_new ?wr) - 1"
    and t: "sys_rows t = (sys_rows s)(target_of env w \<mapsto> stg_new ?wr)"
    by (auto simp: land_def Let_def split: if_splits option.splits)
  from assms(1) i have "write_ok s (target_of env w) ?wr" by (simp add: rows_inv_def)
  then obtain cmd where cmd: "transition_action_execution (stg_base ?wr) cmd = Inr (stg_new ?wr)"
    and "known s (target_of env w) (stg_base ?wr)" by (auto simp: write_ok_def)
  moreover have "exec_version (stg_base ?wr) = exec_version r"
    using transition_action_executionD(4) [OF cmd] v by simp
  ultimately have "transition_action_execution r cmd = Inr (stg_new ?wr)"
    using r by (auto simp: known_def)
  with r t show ?thesis by (blast intro: rows_advance_update)
qed

lemma move_advance: "move e cmd s = Some t \<Longrightarrow> rows_advance s t"
  by (auto simp: move_def split: option.splits if_splits sum.splits intro: rows_advance_update)

lemma create_advance: "sys_rows s e = None \<Longrightarrow> sys_rows t = (sys_rows s)(e \<mapsto> x) \<Longrightarrow> rows_advance s t"
  by (auto simp: rows_advance_def)

fun is_worker :: "choice \<Rightarrow> bool" where
  "is_worker (Worker w inp) = True"
| "is_worker _ = False"

lemma worker_advance:
  assumes "advance env c s = Some t" "is_worker c"
  obtains w ph row writes new where "w < senv_workers env" "phase_move env s w (sys_phase s w) ph row writes new"
    "t = moved w ph row writes new s"
proof -
  from assms(2) obtain w inp where c: "c = Worker w inp" by (cases c) auto
  with assms(1) have work: "work env w inp s = Some t" by simp
  then have "w < senv_workers env" by (simp add: work_def split: if_splits)
  with work_moves [OF work] that show thesis by (auto simp: worker_moves_def)
qed

lemma move_frame: "move e cmd s = Some t \<Longrightarrow>
    sys_phase t = sys_phase s \<and> sys_staged t = sys_staged s \<and> sys_calls t = sys_calls s \<and> sys_fence t = sys_fence s \<and>
    sys_core t = sys_core s \<and> sys_clock t = sys_clock s"
  by (auto simp: move_def split: option.splits if_splits sum.splits)

lemma other_frame:
  assumes "advance env c s = Some t" "\<not> is_worker c"
  shows "sys_phase t = sys_phase s" "sys_staged t = sys_staged s" "sys_calls t = sys_calls s" "sys_fence t = sys_fence s"
    "sys_clock s \<le> sys_clock t"
  using assms move_frame
  by (cases c; fastforce simp: land_def reconcile_quarantine_def decide_commit_def fenced_case_commit_def
      monitor_commit_def lifecycle_commit_def Let_def split: if_splits option.splits)+

lemma advance_rows:
  assumes "rows_inv env s" "advance env c s = Some t"
  shows "rows_advance s t"
proof (cases "is_worker c")
  case True
  from worker_advance [OF assms(2) True] show ?thesis by (metis moved_fields(3) rows_advance_same)
next
  case False
  then show ?thesis
    using assms land_advance move_advance
    by (cases c) (auto simp: reconcile_quarantine_def decide_commit_def fenced_case_commit_def monitor_commit_def
        lifecycle_commit_def Let_def split: if_splits option.splits
        intro: rows_advance_same create_advance)
qed

lemma rows_inv_advance:
  assumes "rows_inv env s" "advance env c s = Some t"
  shows "rows_inv env t"
proof -
  note adv = advance_rows [OF assms]
  have keep: "write_ok s e wr \<Longrightarrow> write_ok t e wr" for e wr
    using known_advance [OF _ adv] by (auto simp: write_ok_def)
  show ?thesis
  proof (cases "is_worker c")
    case True
    obtain w ph row writes new where m: "phase_move env s w (sys_phase s w) ph row writes new"
      "t = moved w ph row writes new s"
      by (rule worker_advance [OF assms(2) True])
    have "(\<forall>x. phase_base ph = Some x \<longrightarrow> known s (target_of env w) x) \<and>
        (\<forall>wr\<in>set writes. write_ok s (target_of env w) wr)"
      using assms(1) by (intro phase_move_rows [OF m(1)]) (simp add: rows_inv_def)
    then show ?thesis
      using assms(1) keep known_advance [OF _ adv] unfolding rows_inv_def m(2) by auto
  next
    case False
    then show ?thesis
      using assms(1) keep known_advance [OF _ adv] unfolding rows_inv_def other_frame(1,2) [OF assms(2) False] by blast
  qed
qed

end
