(* ===== verification/Send_Invariants.thy ===== *)
theory Send_Invariants
  imports Send_Safety
begin

text \<open>
  What holds of every reachable state of \<open>Send_Protocol\<close>: who owns a claim, who holds the fence,
  what the fence covers, and that the mandates read under a live fence stay as they were read. The
  two assumptions on the digest are named: distinct attempts have distinct claim owners
  (\<open>distinct_owners\<close>), and only the entries of the view have the digest of the view's authority
  (\<open>authority_binding\<close>).
\<close>

section \<open>Core rows\<close>

definition core_advance :: "core_rows \<Rightarrow> core_rows \<Rightarrow> bool" where
  "core_advance core core' \<longleftrightarrow>
     (\<forall>i p. core_pointers core i = Some p \<longrightarrow>
        (\<exists>p'. core_pointers core' i = Some p' \<and> pointer_version p \<le> pointer_version p')) \<and>
     (\<forall>k m. core_versions core k = Some m \<longrightarrow> core_versions core' k = Some m)"

definition same_authority :: "core_rows \<Rightarrow> core_rows \<Rightarrow> bool" where
  "same_authority core core' \<longleftrightarrow>
     core_pointers core' = core_pointers core \<and> core_versions core' = core_versions core"

lemma same_authority_refl [simp]: "same_authority core core"
  by (simp add: same_authority_def)

lemma core_advance_same: "same_authority core core' \<Longrightarrow> core_advance core core'"
  by (simp add: same_authority_def core_advance_def)

lemma core_advance_append:
  "append_mandate m core = Some core' \<Longrightarrow> core_advance core (core'\<lparr>core_case := c\<rparr>)"
  by (auto simp: append_mandate_def core_advance_def pointer_to_def split: if_splits option.splits)

lemma well_keyed_append:
  "well_keyed core \<Longrightarrow> append_mandate m core = Some core' \<Longrightarrow> well_keyed (core'\<lparr>core_case := c\<rparr>)"
  by (auto simp: append_mandate_def well_keyed_def split: if_splits option.splits)

lemma compiled_from_advance: "compiled_from core v \<Longrightarrow> core_advance core core' \<Longrightarrow> compiled_from core' v"
  unfolding compiled_from_def core_advance_def by (meson order_trans)

lemma other_core:
  assumes "advance env c s = Some t" "\<not> is_worker c"
  shows "core_advance (sys_core s) (sys_core t)"
    and "well_keyed (sys_core s) \<Longrightarrow> well_keyed (sys_core t)"
    and "\<not> expired_or_absent (sys_clock s) (sys_fence s) \<Longrightarrow> same_authority (sys_core s) (sys_core t)"
proof -
  have live: "\<not> expired_or_absent n row \<Longrightarrow> k \<le> n \<Longrightarrow> \<not> expired_or_absent k row" for n k row
    by (auto simp: expired_or_absent_def split: option.splits)
  have "core_advance (sys_core s) (sys_core t) \<and> (well_keyed (sys_core s) \<longrightarrow> well_keyed (sys_core t)) \<and>
      (\<not> expired_or_absent (sys_clock s) (sys_fence s) \<longrightarrow> same_authority (sys_core s) (sys_core t))"
  proof (cases c)
    case (Decide k m d)
    with assms obtain core where "k \<le> sys_clock s" "expired_or_absent k (sys_fence s)"
      "append_mandate m (sys_core s) = Some core" "sys_core t = core\<lparr>core_case := d\<rparr>"
      by (auto simp: decide_commit_def split: if_splits)
    then show ?thesis using live core_advance_append well_keyed_append by metis
  next
    case (Move e cmd)
    with assms move_frame show ?thesis by (auto intro!: core_advance_same)
  next
    case (Reconcile e)
    with assms move_frame show ?thesis
      by (auto simp: reconcile_quarantine_def split: option.splits if_splits intro!: core_advance_same)
  next
    case (Worker w inp)
    with assms show ?thesis by simp
  qed (use assms in \<open>auto simp: land_def fenced_case_commit_def monitor_commit_def lifecycle_commit_def Let_def
      same_authority_def well_keyed_def core_advance_def split: if_splits option.splits\<close>)
  then show "core_advance (sys_core s) (sys_core t)"
    and "well_keyed (sys_core s) \<Longrightarrow> well_keyed (sys_core t)"
    and "\<not> expired_or_absent (sys_clock s) (sys_fence s) \<Longrightarrow> same_authority (sys_core s) (sys_core t)"
    by blast+
qed

definition core_inv :: "send_env \<Rightarrow> send_sys \<Rightarrow> bool" where
  "core_inv env s \<longleftrightarrow>
     well_keyed (sys_core s) \<and> (\<forall>i v. senv_view env i = Some v \<longrightarrow> compiled_from (sys_core s) v)"

lemma core_inv_advance:
  assumes "core_inv env s" "advance env c s = Some t"
  shows "core_inv env t \<and> core_advance (sys_core s) (sys_core t)"
proof (cases "is_worker c")
  case True
  from worker_advance [OF assms(2) True] have "sys_core t = sys_core s" by (metis moved_fields(2))
  with assms(1) show ?thesis by (simp add: core_inv_def core_advance_same)
next
  case False
  with other_core [OF assms(2) False] assms(1) compiled_from_advance show ?thesis
    unfolding core_inv_def by blast
qed

section \<open>What a phase holds\<close>

definition refs_of :: "attempt \<Rightarrow> mandate_version_ref list" where
  "refs_of att = view_mandate_version_set (snd_view (att_state att))"

text \<open>A mandate version that was current at some moment between the compile of the view and now.\<close>

definition seen :: "core_rows \<Rightarrow> mandate_version_ref \<Rightarrow> disclosure_mandate \<Rightarrow> bool" where
  "seen core ref m \<longleftrightarrow>
     mvr_version ref \<le> mandate_version m \<and>
     (\<exists>p. core_pointers core (Ident (mvr_mandate_id ref)) = Some p \<and> mandate_version m \<le> pointer_version p \<and>
        core_versions core (Ident (mvr_mandate_id ref), mandate_version m) = Some m)"

definition live :: "core_rows \<Rightarrow> mandate_version_ref \<Rightarrow> disclosure_mandate \<Rightarrow> bool" where
  "live core ref m \<longleftrightarrow> live_mandate core ref = Inr (Some m)"

lemma live_iff:
  "live core ref m \<longleftrightarrow> (\<exists>p. core_pointers core (Ident (mvr_mandate_id ref)) = Some p \<and>
     core_versions core (Ident (mvr_mandate_id ref), pointer_version p) = Some m)"
  by (auto simp: live_def live_mandate_def split: option.splits)

lemma live_seen:
  "well_keyed core \<Longrightarrow> compiled_from core v \<Longrightarrow> ref \<in> set (view_mandate_version_set v) \<Longrightarrow> live core ref m \<Longrightarrow>
     seen core ref m"
  by (fastforce simp: live_iff seen_def well_keyed_def compiled_from_def)

lemma seen_advance: "seen core ref m \<Longrightarrow> core_advance core core' \<Longrightarrow> seen core' ref m"
  unfolding seen_def core_advance_def by (meson order_trans)

lemma live_same: "same_authority core core' \<Longrightarrow> live core' = live core"
  by (intro ext) (simp add: same_authority_def live_iff)

lemma live_relied_iff:
  "live_relied_mandates core refs = Inr (Some ms) \<longleftrightarrow> list_all2 (live core) refs ms"
proof (induction refs arbitrary: ms)
  case (Cons ref refs)
  then show ?case
    by (cases ms) (auto simp: result_simps live_def split: option.splits)
qed auto

text \<open>The deadline of a fence is within every authority the send relies on.\<close>

definition covers :: "core_rows \<Rightarrow> attempt \<Rightarrow> send_fence \<Rightarrow> bool" where
  "covers core att f \<longleftrightarrow>
     instant (fence_expires_at f) \<le> instant (view_expires_at (snd_view (att_state att))) \<and>
     instant (fence_expires_at f) \<le> instant (appr_expires_at (snd_approval (att_state att))) \<and>
     (\<forall>ref\<in>set (refs_of att). \<exists>m. seen core ref m \<and>
        (\<forall>e. mandate_expires_at m = Some e \<longrightarrow> instant (fence_expires_at f) \<le> instant e))"

lemma covers_advance: "covers core att f \<Longrightarrow> core_advance core core' \<Longrightarrow> covers core' att f"
  unfolding covers_def using seen_advance by meson

definition granted :: "send_env \<Rightarrow> core_rows \<Rightarrow> attempt \<Rightarrow> bool" where
  "granted env core att \<longleftrightarrow>
     (\<exists>ms. list_all2 (live core) (refs_of att) ms \<and>
        mandate_authority_hash (senv_hash env) ms = relied_authority_hash (senv_hash env) (refs_of att) \<and>
        (\<forall>m\<in>set ms. mandate_status m = MS_APPROVED))"

lemma granted_same: "same_authority core core' \<Longrightarrow> granted env core' att \<longleftrightarrow> granted env core att"
  by (simp add: granted_def live_same)

definition attempt_ok :: "send_env \<Rightarrow> send_sys \<Rightarrow> nat \<Rightarrow> attempt \<Rightarrow> bool" where
  "attempt_ok env s w att \<longleftrightarrow> owned env s w \<and> verified_state env w (att_state att) \<and>
     req_execution_id (att_request att) = target_of env w"

definition held_ok :: "send_env \<Rightarrow> send_sys \<Rightarrow> nat \<Rightarrow> attempt \<Rightarrow> send_fence \<Rightarrow> bool" where
  "held_ok env s w att f \<longleftrightarrow> attempt_ok env s w att \<and> fence_execution_id f = target_of env w \<and>
     covers (sys_core s) att f \<and> (sys_clock s < instant (fence_expires_at f) \<longrightarrow> sys_fence s = Some f)"

definition planned_ok :: "send_env \<Rightarrow> send_sys \<Rightarrow> nat \<Rightarrow> attempt \<Rightarrow> send_fence \<Rightarrow> bool" where
  "planned_ok env s w att f \<longleftrightarrow> attempt_ok env s w att \<and> fence_execution_id f = target_of env w \<and>
     covers (sys_core s) att f \<and> instant (fence_acquired_at f) \<le> sys_clock s"

fun phase_ok :: "send_env \<Rightarrow> send_sys \<Rightarrow> nat \<Rightarrow> phase \<Rightarrow> bool" where
  "phase_ok env s w (Claiming st) \<longleftrightarrow> verified_state env w st"
| "phase_ok env s w (Claim_answered st) \<longleftrightarrow> verified_state env w st"
| "phase_ok env s w (Owning att) \<longleftrightarrow> attempt_ok env s w att"
| "phase_ok env s w (Reading_expiry att now ms refs) \<longleftrightarrow> attempt_ok env s w att \<and> instant now \<le> sys_clock s \<and>
     (\<exists>done. refs_of att = done @ refs \<and> list_all2 (seen (sys_core s)) done ms)"
| "phase_ok env s w (Fencing att f) \<longleftrightarrow> planned_ok env s w att f"
| "phase_ok env s w (Putting att f) \<longleftrightarrow> planned_ok env s w att f"
| "phase_ok env s w (Conflicted att f) \<longleftrightarrow> planned_ok env s w att f"
| "phase_ok env s w (Holding att f) \<longleftrightarrow> held_ok env s w att f"
| "phase_ok env s w (Checking att f now c) \<longleftrightarrow> held_ok env s w att f"
| "phase_ok env s w (Reading_mandates att f obs ms refs) \<longleftrightarrow> held_ok env s w att f \<and>
     (\<exists>done. refs_of att = done @ refs \<and>
        (sys_clock s < instant (fence_expires_at f) \<longrightarrow> list_all2 (live (sys_core s)) done ms))"
| "phase_ok env s w (Withdrawing att f codes) \<longleftrightarrow> held_ok env s w att f"
| "phase_ok env s w (Resolving att f) \<longleftrightarrow> held_ok env s w att f \<and>
     (sys_clock s < instant (fence_expires_at f) \<longrightarrow> granted env (sys_core s) att)"
| "phase_ok env s w (Resolved att f) \<longleftrightarrow> held_ok env s w att f \<and>
     (sys_clock s < instant (fence_expires_at f) \<longrightarrow> granted env (sys_core s) att)"
| "phase_ok env s w (Called att f) \<longleftrightarrow> held_ok env s w att f"
| "phase_ok env s w (Aborting att f codes) \<longleftrightarrow> held_ok env s w att f"
| "phase_ok env s w (Closing att f) \<longleftrightarrow> held_ok env s w att f"
| "phase_ok env s w ph \<longleftrightarrow> True"

text \<open>Everything a phase holds survives the moves of the others.\<close>

lemma phase_ok_stable:
  assumes ok: "phase_ok env s w ph"
    and rows: "rows_advance s t" and clock: "sys_clock s \<le> sys_clock t"
    and core: "core_advance (sys_core s) (sys_core t)"
    and fence: "\<And>f. owned env s w \<Longrightarrow> sys_fence s = Some f \<Longrightarrow> fence_execution_id f = target_of env w \<Longrightarrow>
      sys_clock s < instant (fence_expires_at f) \<Longrightarrow>
      sys_fence t = Some f \<and> same_authority (sys_core s) (sys_core t)"
  shows "phase_ok env t w ph"
proof -
  have attempt: "attempt_ok env t w att" if "attempt_ok env s w att" for att
    using that owned_advance [OF _ rows] by (auto simp: attempt_ok_def)
  have same: "sys_fence t = Some f \<and> same_authority (sys_core s) (sys_core t)"
    if "held_ok env s w att f" "sys_clock t < instant (fence_expires_at f)" for att f
    using that clock fence [of f] by (auto simp: held_ok_def attempt_ok_def)
  have held: "held_ok env t w att f" if "held_ok env s w att f" for att f
    using that attempt covers_advance [OF _ core] same [OF that] by (auto simp: held_ok_def)
  have planned: "planned_ok env t w att f" if "planned_ok env s w att f" for att f
    using that attempt covers_advance [OF _ core] clock by (auto simp: planned_ok_def)
  show ?thesis
  proof (cases ph)
    case (Reading_expiry att now ms refs)
    with ok obtain "done" where d: "refs_of att = done @ refs" "list_all2 (seen (sys_core s)) done ms" by auto
    have "list_all2 (seen (sys_core t)) done ms"
      using d(2) seen_advance [OF _ core] by (rule list_all2_mono)
    with Reading_expiry ok attempt clock d(1) show ?thesis by auto
  next
    case (Reading_mandates att f obs ms refs)
    with ok obtain "done" where d: "refs_of att = done @ refs" and h: "held_ok env s w att f"
      and l: "sys_clock s < instant (fence_expires_at f) \<Longrightarrow> list_all2 (live (sys_core s)) done ms" by auto
    have "list_all2 (live (sys_core t)) done ms" if late: "sys_clock t < instant (fence_expires_at f)"
    proof -
      have "live (sys_core t) = live (sys_core s)"
        using live_same same [OF h late] by blast
      with l clock late show ?thesis by simp
    qed
    with Reading_mandates held [OF h] d show ?thesis by auto
  next
    case (Resolving att f)
    with ok have h: "held_ok env s w att f" "sys_clock s < instant (fence_expires_at f) \<Longrightarrow> granted env (sys_core s) att"
      by simp_all
    have "granted env (sys_core t) att" if late: "sys_clock t < instant (fence_expires_at f)"
      using h(2) clock late granted_same [of "sys_core s" "sys_core t" env att] same [OF h(1) late] by simp
    with Resolving held [OF h(1)] show ?thesis by simp
  next
    case (Resolved att f)
    with ok have h: "held_ok env s w att f" "sys_clock s < instant (fence_expires_at f) \<Longrightarrow> granted env (sys_core s) att"
      by simp_all
    have "granted env (sys_core t) att" if late: "sys_clock t < instant (fence_expires_at f)"
      using h(2) clock late granted_same [of "sys_core s" "sys_core t" env att] same [OF h(1) late] by simp
    with Resolved held [OF h(1)] show ?thesis by simp
  qed (use ok attempt held planned in simp_all)
qed

section \<open>A worker's own moves\<close>

lemma owned_moved [simp]: "owned env (moved w ph row writes new s) v = owned env s v"
  by (simp add: owned_def)

lemma attempt_ok_moved [simp]: "attempt_ok env (moved w ph row writes new s) v att = attempt_ok env s v att"
  by (simp add: attempt_ok_def)

lemma planned_ok_moved [simp]: "planned_ok env (moved w ph row writes new s) v att f = planned_ok env s v att f"
  by (simp add: planned_ok_def)

lemma held_ok_moved: "held_ok env s v att f \<Longrightarrow> held_ok env (moved w ph (sys_fence s) writes new s) v att f"
  by (simp add: held_ok_def)

lemma expiry_covers:
  assumes short: "\<not> window_too_short (fence_expiry (snd_view (att_state att)) (snd_approval (att_state att)) (Some ms) now) now"
    and seen: "list_all2 (seen core) (refs_of att) ms"
  shows "covers core att (requested_fence r now
    (fence_expiry (snd_view (att_state att)) (snd_approval (att_state att)) (Some ms) now))"
proof -
  have "\<exists>m. seen core ref m \<and> (\<forall>e. mandate_expires_at m = Some e \<longrightarrow>
      instant (fence_expiry (snd_view (att_state att)) (snd_approval (att_state att)) (Some ms) now) \<le> instant e)"
    if "ref \<in> set (refs_of att)" for ref
  proof -
    from seen that obtain m where "m \<in> set ms" "seen core ref m"
      by (metis in_set_conv_nth list_all2_conv_all_nth)
    with fence_expiry_le(4) [OF short refl] show ?thesis by blast
  qed
  with fence_expiry_le(2,3) [OF short] show ?thesis by (simp add: covers_def requested_fence_def)
qed

lemma granted_by_denials:
  assumes "denials_of (senv_hash env) cfg r c v vp ap arts found now = []" "refs_of att = view_mandate_version_set v"
    "found = Some ms" "list_all2 (live core) (refs_of att) ms"
  shows "granted env core att"
  using assms by (auto simp: denials_of_Nil_iff mandate_denials_Nil_iff granted_def)

lemma attempt_compiled: "core_inv env s \<Longrightarrow> attempt_ok env s w att \<Longrightarrow> compiled_from (sys_core s) (snd_view (att_state att))"
  by (auto simp: core_inv_def attempt_ok_def dest: verified_stateD(2))

lemma pointer_exists:
  assumes "core_inv env s" "attempt_ok env s w att" "ref \<in> set (refs_of att)"
  shows "live_mandate (sys_core s) ref \<noteq> Inr None"
  using attempt_compiled [OF assms(1,2)] assms(3)
  by (fastforce simp: compiled_from_def refs_of_def live_mandate_def split: option.splits)

lemma phase_move_ok:
  assumes m: "phase_move env s w ph ph' row writes new"
    and ok: "phase_ok env s w ph" and core: "core_inv env s"
    and unreplayed: "\<And>att f g. ph = Conflicted att f \<Longrightarrow> sys_fence s = Some g \<Longrightarrow> fence_execution_id g \<noteq> target_of env w"
  shows "phase_ok env (moved w ph' row writes new s) w ph'"
  using m
proof (cases rule: phase_move.cases)
  case (own x att st)
  then have "owned env s w" by (auto simp: owned_def owns_def)
  with own ok show ?thesis
    by (simp add: attempt_ok_def refs_of_def verified_stateD authorization_request_def)
next
  case (authorize refs att)
  with ok show ?thesis by (simp add: refs_of_def)
next
  case (expiry_read ref m att now ms refs)
  with ok obtain "done" where d: "refs_of att = done @ ref # refs" "list_all2 (seen (sys_core s)) done ms"
    and a: "attempt_ok env s w att" "instant now \<le> sys_clock s" by auto
  have "seen (sys_core s) ref m"
    using expiry_read core attempt_compiled [OF core a(1)] d(1)
    by (intro live_seen [where v = "snd_view (att_state att)"]) (simp_all add: live_def core_inv_def flip: refs_of_def)
  with d have "refs_of att = (done @ [ref]) @ refs \<and> list_all2 (seen (sys_core s)) (done @ [ref]) (ms @ [m])"
    by (auto intro: list_all2_appendI)
  then have "\<exists>done. refs_of att = done @ refs \<and> list_all2 (seen (sys_core s)) done (ms @ [m])" by blast
  with expiry_read a show ?thesis by simp
next
  case (choose expires att found now ms refs f)
  with ok obtain "done" where d: "refs_of att = done @ refs" "list_all2 (seen (sys_core s)) done ms"
    and a: "attempt_ok env s w att" "instant now \<le> sys_clock s" by auto
  have "found = Some ms" "refs = []"
    using choose(8) pointer_exists [OF core a(1)] d(1) by auto
  then have "covers (sys_core s) att f"
    using choose d expiry_covers [of att ms now "sys_core s" "att_request att"] by simp
  with choose a show ?thesis
    by (simp add: planned_ok_def requested_fence_def attempt_ok_def)
next
  case (put f att)
  with ok show ?thesis by (simp add: planned_ok_def held_ok_def)
next
  case (replay g f att)
  with ok unreplayed show ?thesis by (simp add: planned_ok_def)
next
  case (mandate_read ref m att f obs ms refs)
  with ok obtain "done" where d: "refs_of att = done @ ref # refs" and h: "held_ok env s w att f"
    and l: "sys_clock s < instant (fence_expires_at f) \<Longrightarrow> list_all2 (live (sys_core s)) done ms" by auto
  have "refs_of att = (done @ [ref]) @ refs \<and>
      (sys_clock s < instant (fence_expires_at f) \<longrightarrow> list_all2 (live (sys_core s)) (done @ [ref]) (ms @ [m]))"
    using d l mandate_read by (auto simp: live_def intro: list_all2_appendI)
  then have "\<exists>done. refs_of att = done @ refs \<and>
      (sys_clock s < instant (fence_expires_at f) \<longrightarrow> list_all2 (live (sys_core s)) done (ms @ [m]))" by blast
  with mandate_read held_ok_moved [OF h] show ?thesis by simp
next
  case (grant att obs found ms refs f)
  with ok obtain "done" where d: "refs_of att = done @ refs" and h: "held_ok env s w att f"
    and l: "sys_clock s < instant (fence_expires_at f) \<Longrightarrow> list_all2 (live (sys_core s)) done ms" by auto
  have "found = Some ms" "refs = []"
    using grant by (auto simp: denials_of_Nil_iff mandate_denials_Nil_iff)
  with grant d l have "granted env (sys_core s) att" if "sys_clock s < instant (fence_expires_at f)"
    using that by (intro granted_by_denials [where found = found]) (auto simp: refs_of_def)
  with grant held_ok_moved [OF h] show ?thesis by simp
next
  case (checked obs now c refs att f)
  with ok show ?thesis by (auto simp: refs_of_def intro: held_ok_moved)
qed (use ok in \<open>auto simp: held_ok_moved\<close>)

section \<open>The invariant\<close>

definition distinct_owners :: "send_env \<Rightarrow> bool" where
  "distinct_owners env \<longleftrightarrow> (\<forall>v<senv_workers env. \<forall>w<senv_workers env.
     target_of env v = target_of env w \<longrightarrow> owner_of env v = owner_of env w \<longrightarrow> v = w)"

lemma owner_unique:
  assumes "distinct_owners env" "v < senv_workers env" "w < senv_workers env"
    "owned env s v" "owned env s w" "target_of env v = target_of env w"
  shows "v = w"
  using assms by (auto simp: owned_def distinct_owners_def)

fun put_done :: "phase \<Rightarrow> bool" where
  "put_done (Holding att f) = True"
| "put_done (Checking att f now c) = True"
| "put_done (Reading_mandates att f obs ms refs) = True"
| "put_done (Withdrawing att f codes) = True"
| "put_done (Resolving att f) = True"
| "put_done (Resolved att f) = True"
| "put_done (Called att f) = True"
| "put_done (Aborting att f codes) = True"
| "put_done (Closing att f) = True"
| "put_done Finished = True"
| "put_done _ = False"

fun call_done :: "phase \<Rightarrow> bool" where
  "call_done (Called att f) = True"
| "call_done (Closing att f) = True"
| "call_done Finished = True"
| "call_done _ = False"

text \<open>A stored fence was put by the owner of its execution, who has not given it back.\<close>

definition fence_inv :: "send_env \<Rightarrow> send_sys \<Rightarrow> bool" where
  "fence_inv env s \<longleftrightarrow> (\<forall>g. sys_fence s = Some g \<longrightarrow> (\<exists>w<senv_workers env.
     fence_execution_id g = target_of env w \<and> owned env s w \<and> put_done (sys_phase s w)))"

definition calls_inv :: "send_env \<Rightarrow> send_sys \<Rightarrow> bool" where
  "calls_inv env s \<longleftrightarrow> distinct (map fst (sys_calls s)) \<and> (\<forall>(w, e, t)\<in>set (sys_calls s).
     w < senv_workers env \<and> e = target_of env w \<and> owned env s w \<and> call_done (sys_phase s w))"

definition send_inv :: "send_env \<Rightarrow> send_sys \<Rightarrow> bool" where
  "send_inv env s \<longleftrightarrow> rows_inv env s \<and> core_inv env s \<and> (\<forall>w. phase_ok env s w (sys_phase s w)) \<and>
     (\<forall>w. senv_workers env \<le> w \<longrightarrow> sys_phase s w = Fresh) \<and> fence_inv env s \<and> calls_inv env s"

lemma send_inv_initial: "initial env s \<Longrightarrow> send_inv env s"
  by (simp add: initial_def send_inv_def rows_inv_def core_inv_def fence_inv_def calls_inv_def phase_base_def)

lemma authority_release_cases:
  "authority_release e row = row \<and> (\<forall>f. row = Some f \<longrightarrow> fence_execution_id f \<noteq> e) \<or> authority_release e row = None"
  by (auto simp: authority_release_def release_send_fence_def split: option.splits)

lemma phase_move_fence:
  assumes "phase_move env s w ph ph' row writes new" "phase_ok env s w ph"
  shows "row = sys_fence s \<and> (put_done ph \<longrightarrow> put_done ph') \<or>
    (\<exists>f. row = Some f \<and> expired_or_absent (sys_clock s) (sys_fence s) \<and> fence_execution_id f = target_of env w \<and>
       owned env s w \<and> put_done ph') \<or>
    row = authority_release (target_of env w) (sys_fence s) \<and> owned env s w"
  using assms
proof (cases rule: phase_move.cases)
  case (put f att)
  with assms(2) show ?thesis
    by (auto simp: planned_ok_def attempt_ok_def expired_or_absent_def split: option.splits)
next
  case (withdrawn att reasons f codes)
  with assms(2) show ?thesis by (simp add: held_ok_def attempt_ok_def)
next
  case (close att f)
  with assms(2) show ?thesis by (simp add: held_ok_def attempt_ok_def)
qed auto

lemma phase_move_calls:
  assumes "phase_move env s w ph ph' row writes new" "phase_ok env s w ph"
  shows "new = [] \<and> (call_done ph \<longrightarrow> call_done ph') \<or>
    (\<exists>att f. ph = Resolved att f \<and> ph' = Called att f \<and> new = [(w, target_of env w, sys_clock s)] \<and> owned env s w \<and>
       sys_clock s < instant (fence_expires_at f))"
  using assms by (cases rule: phase_move.cases) (auto simp: held_ok_def attempt_ok_def)

lemma worker_keeps:
  assumes owners: "distinct_owners env" and inv: "send_inv env s"
    and m: "phase_move env s w (sys_phase s w) ph row writes new" and w: "w < senv_workers env"
  shows "\<forall>v. phase_ok env (moved w ph row writes new s) v (sys_phase (moved w ph row writes new s) v)"
    and "fence_inv env (moved w ph row writes new s)"
    and "calls_inv env (moved w ph row writes new s)"
proof -
  let ?t = "moved w ph row writes new s"
  from inv have ok: "phase_ok env s v (sys_phase s v)" for v by (simp add: send_inv_def)
  from inv have core: "core_inv env s" and fence: "fence_inv env s" and calls: "calls_inv env s"
    by (simp_all add: send_inv_def)
  note F = phase_move_fence [OF m ok] and C = phase_move_calls [OF m ok]
  have unreplayed: "fence_execution_id g \<noteq> target_of env w"
    if "sys_phase s w = Conflicted att f" "sys_fence s = Some g" for att f g
  proof
    assume "fence_execution_id g = target_of env w"
    moreover from fence that(2) obtain v where v: "v < senv_workers env" "fence_execution_id g = target_of env v"
      "owned env s v" "put_done (sys_phase s v)" by (auto simp: fence_inv_def)
    moreover have "owned env s w" using ok [of w] that(1) by (simp add: planned_ok_def attempt_ok_def)
    ultimately have "v = w" using owner_unique [OF owners v(1) w] by simp
    with v(4) that(1) show False by simp
  qed
  have other: "phase_ok env ?t v (sys_phase s v)" if "v \<noteq> w" for v
  proof (cases "v < senv_workers env")
    case True
    show ?thesis
    proof (rule phase_ok_stable [OF ok])
      fix f
      assume v: "owned env s v" "sys_fence s = Some f" "fence_execution_id f = target_of env v"
        "sys_clock s < instant (fence_expires_at f)"
      have "fence_execution_id f \<noteq> target_of env w" if "owned env s w"
        using owner_unique [OF owners True w v(1) that] v(3) \<open>v \<noteq> w\<close> by auto
      with F v authority_release_cases [of "target_of env w" "sys_fence s"]
      show "sys_fence ?t = Some f \<and> same_authority (sys_core s) (sys_core ?t)"
        by (auto simp: expired_or_absent_def authority_release_def release_send_fence_def)
    qed (simp_all add: rows_advance_same core_advance_same)
  next
    case False
    with inv show ?thesis by (simp add: send_inv_def)
  qed
  show "\<forall>v. phase_ok env ?t v (sys_phase ?t v)"
    using other phase_move_ok [OF m ok core unreplayed] by simp
  show "fence_inv env ?t"
    unfolding fence_inv_def
  proof (intro allI impI)
    fix g
    assume "sys_fence ?t = Some g"
    then have row: "row = Some g" by simp
    show "\<exists>v<senv_workers env. fence_execution_id g = target_of env v \<and> owned env ?t v \<and> put_done (sys_phase ?t v)"
    proof (cases "sys_fence s = Some g \<and> (put_done (sys_phase s w) \<longrightarrow> put_done ph \<or> fence_execution_id g \<noteq> target_of env w)")
      case True
      with fence obtain v where "v < senv_workers env" "fence_execution_id g = target_of env v"
        "owned env s v" "put_done (sys_phase s v)" by (auto simp: fence_inv_def)
      with True show ?thesis by (intro exI [of _ v]) auto
    next
      case False
      with F row w authority_release_cases [of "target_of env w" "sys_fence s"] show ?thesis
        by (intro exI [of _ w]) auto
    qed
  qed
  show "calls_inv env ?t"
    using C calls w unfolding calls_inv_def by (auto split: prod.splits)
qed

lemma send_inv_advance:
  assumes owners: "distinct_owners env" and inv: "send_inv env s" and step: "advance env c s = Some t"
  shows "send_inv env t"
proof -
  from inv have parts: "rows_inv env s" "core_inv env s" by (simp_all add: send_inv_def)
  note rows = rows_inv_advance [OF parts(1) step] and core = core_inv_advance [OF parts(2) step]
    and adv = advance_rows [OF parts(1) step]
  show ?thesis
  proof (cases "is_worker c")
    case True
    obtain w ph row writes new where m: "w < senv_workers env" "phase_move env s w (sys_phase s w) ph row writes new"
      "t = moved w ph row writes new s"
      by (rule worker_advance [OF step True])
    with inv rows core worker_keeps [OF owners inv m(2,1)] show ?thesis by (simp add: send_inv_def)
  next
    case False
    note frame = other_frame [OF step False]
    have owned: "owned env t v" if "owned env s v" for v using that adv by (rule owned_advance)
    have "phase_ok env t w (sys_phase s w)" for w
    proof (rule phase_ok_stable [OF _ adv frame(5)])
      show "phase_ok env s w (sys_phase s w)" using inv by (simp add: send_inv_def)
      show "core_advance (sys_core s) (sys_core t)" using core by blast
      show "sys_fence t = Some f \<and> same_authority (sys_core s) (sys_core t)"
        if "sys_fence s = Some f" "sys_clock s < instant (fence_expires_at f)" for f
        using that other_core(3) [OF step False] frame(4) by (simp add: expired_or_absent_def)
    qed
    with inv rows core owned frame show ?thesis
      by (fastforce simp: send_inv_def fence_inv_def calls_inv_def)
  qed
qed

lemma reachable_inv: "reachable env s \<Longrightarrow> distinct_owners env \<Longrightarrow> send_inv env s"
  by (induction rule: reachable.induct) (auto intro: send_inv_initial send_inv_advance)

end
