(* ===== verification/Send_Epoch.thy ===== *)
theory Send_Epoch
  imports Send_Invariants
begin

text \<open>
  The authorization epoch of the case against the send fence. Under a live fence only a Monitor
  application moves the epoch (\<open>epoch_moves\<close>), and a worker whose revalidation has passed never holds a
  view of a later epoch than the case (\<open>epoch_inv\<close>).
\<close>

abbreviation case_epoch :: "send_sys \<Rightarrow> int" where
  "case_epoch s \<equiv> case_authorization_version (core_case (sys_core s))"

abbreviation view_epoch :: "attempt \<Rightarrow> int" where
  "view_epoch att \<equiv> view_authorization_version (snd_view (att_state att))"

lemma epoch_moves:
  assumes step: "advance env c s = Some t" and live: "\<not> expired_or_absent (sys_clock s) (sys_fence s)"
    and moves: "case_epoch t \<noteq> case_epoch s"
  shows "(\<exists>reports facts. c = Monitor reports facts) \<and> case_epoch t = case_epoch s + 1"
proof (cases "is_worker c")
  case True
  from worker_advance [OF step True] have "sys_core t = sys_core s" by (metis moved_fields(2))
  with moves show ?thesis by simp
next
  case False
  have stale: "\<not> expired_or_absent k (sys_fence s)" if "k \<le> sys_clock s" for k
    using live that by (auto simp: expired_or_absent_def split: option.splits)
  show ?thesis
    using step moves False stale move_frame
    by (cases c) (auto simp: land_def reconcile_quarantine_def decide_commit_def fenced_case_commit_def
        monitor_commit_def lifecycle_commit_def case_at_step_def Let_def split: if_splits option.splits)
qed

lemma epoch_mono:
  assumes "advance env c s = Some t" "\<not> expired_or_absent (sys_clock s) (sys_fence s)"
  shows "case_epoch s \<le> case_epoch t"
  using epoch_moves [OF assms] by (cases "case_epoch t = case_epoch s") simp_all

text \<open>While its fence lasts, what a worker has seen of the epoch is not ahead of the case.\<close>

fun epoch_ok :: "send_sys \<Rightarrow> phase \<Rightarrow> bool" where
  "epoch_ok s (Checking att f now c) \<longleftrightarrow>
     (sys_clock s < instant (fence_expires_at f) \<longrightarrow> case_authorization_version c \<le> case_epoch s)"
| "epoch_ok s (Reading_mandates att f obs ms refs) \<longleftrightarrow>
     (sys_clock s < instant (fence_expires_at f) \<longrightarrow> case_authorization_version (obs_case obs) \<le> case_epoch s)"
| "epoch_ok s (Resolving att f) \<longleftrightarrow> (sys_clock s < instant (fence_expires_at f) \<longrightarrow> view_epoch att \<le> case_epoch s)"
| "epoch_ok s (Resolved att f) \<longleftrightarrow> (sys_clock s < instant (fence_expires_at f) \<longrightarrow> view_epoch att \<le> case_epoch s)"
| "epoch_ok s ph \<longleftrightarrow> True"

definition requests_view :: "phase \<Rightarrow> bool" where
  "requests_view ph \<longleftrightarrow>
     (\<forall>att. phase_attempt ph = Some att \<longrightarrow> req_authorization_version (att_request att) = view_epoch att)"

definition epoch_inv :: "send_sys \<Rightarrow> bool" where
  "epoch_inv s \<longleftrightarrow> (\<forall>w. requests_view (sys_phase s w) \<and> epoch_ok s (sys_phase s w))"

fun phase_fence :: "phase \<Rightarrow> send_fence option" where
  "phase_fence (Checking att f now c) = Some f"
| "phase_fence (Reading_mandates att f obs ms refs) = Some f"
| "phase_fence (Resolving att f) = Some f"
| "phase_fence (Resolved att f) = Some f"
| "phase_fence ph = None"

lemma phase_fence_held: "phase_ok env s w ph \<Longrightarrow> phase_fence ph = Some f \<Longrightarrow> \<exists>att. held_ok env s w att f"
  by (cases ph) auto

lemma epoch_ok_stable:
  assumes "epoch_ok s ph" "sys_clock s \<le> sys_clock t"
    and "\<And>f. phase_fence ph = Some f \<Longrightarrow> sys_clock t < instant (fence_expires_at f) \<Longrightarrow> case_epoch s \<le> case_epoch t"
  shows "epoch_ok t ph"
  using assms by (cases ph) force+

lemma requests_view_simps:
  "requests_view ph \<longleftrightarrow> (case phase_attempt ph of None \<Rightarrow> True
     | Some att \<Rightarrow> req_authorization_version (att_request att) = view_epoch att)"
  by (simp add: requests_view_def split: option.split)

lemma phase_move_requests:
  assumes "phase_move env s w ph ph' row writes new" "requests_view ph"
  shows "requests_view ph'"
  using assms
  by (cases rule: phase_move.cases) (auto simp: requests_view_simps authorization_request_def)

lemma phase_move_epoch:
  assumes "phase_move env s w ph ph' row writes new" "requests_view ph" "epoch_ok s ph"
  shows "epoch_ok (moved w ph' row writes new s) ph'"
  using assms(1)
proof (cases rule: phase_move.cases)
  case (grant att obs found ms refs f)
  then have "case_denials (att_request att) (obs_case obs) = []" by (simp only: denials_of_Nil_iff)
  then have "case_authorization_version (obs_case obs) = view_epoch att"
    using assms(2) grant(1) by (simp add: case_denials_Nil_iff requests_view_simps)
  with grant assms(3) show ?thesis by simp
qed (use assms(3) in auto)

lemma epoch_inv_advance:
  assumes inv: "send_inv env s" "epoch_inv s" and step: "advance env c s = Some t"
  shows "epoch_inv t"
proof (cases "is_worker c")
  case True
  obtain w ph row writes new where m: "phase_move env s w (sys_phase s w) ph row writes new"
    "t = moved w ph row writes new s"
    by (rule worker_advance [OF step True])
  have own: "requests_view ph \<and> epoch_ok t ph"
    unfolding m(2) using inv(2) phase_move_requests [OF m(1)] phase_move_epoch [OF m(1)] by (simp add: epoch_inv_def)
  have "epoch_ok t (sys_phase s v)" for v
    by (rule epoch_ok_stable [of s]) (use inv(2) m(2) in \<open>simp_all add: epoch_inv_def\<close>)
  with own m(2) inv(2) show ?thesis by (simp add: epoch_inv_def)
next
  case False
  note frame = other_frame [OF step False]
  have "epoch_ok t (sys_phase s v)" for v
  proof (rule epoch_ok_stable [OF _ frame(5)])
    show "epoch_ok s (sys_phase s v)" using inv(2) by (simp add: epoch_inv_def)
    fix f
    assume f: "phase_fence (sys_phase s v) = Some f" "sys_clock t < instant (fence_expires_at f)"
    have "phase_ok env s v (sys_phase s v)" using inv(1) by (simp add: send_inv_def)
    from phase_fence_held [OF this f(1)] f(2) frame(5) have "\<not> expired_or_absent (sys_clock s) (sys_fence s)"
      by (auto simp: held_ok_def expired_or_absent_def)
    with step show "case_epoch s \<le> case_epoch t" by (rule epoch_mono)
  qed
  with inv(2) frame(1) show ?thesis by (simp add: epoch_inv_def)
qed

lemma reachable_epoch: "reachable env s \<Longrightarrow> distinct_owners env \<Longrightarrow> epoch_inv s"
proof (induction rule: reachable.induct)
  case (start s)
  then show ?case by (simp add: initial_def epoch_inv_def requests_view_def)
next
  case (move s c t)
  then show ?case using reachable_inv epoch_inv_advance by blast
qed

text \<open>A worker whose revalidation has passed, while its fence lasts: the row holds its fence.\<close>

lemma resolving_held:
  assumes "reachable env s" "distinct_owners env" "sys_phase s w = Resolving att f"
    "sys_clock s < instant (fence_expires_at f)"
  shows "w < senv_workers env" "sys_fence s = Some f" "view_epoch att \<le> case_epoch s"
proof -
  have inv: "send_inv env s" by (rule reachable_inv [OF assms(1,2)])
  then show "w < senv_workers env" using assms(3) by (cases "w < senv_workers env") (auto simp: send_inv_def)
  from inv have "phase_ok env s w (sys_phase s w)" by (simp add: send_inv_def)
  with assms(3,4) show "sys_fence s = Some f" by (simp add: held_ok_def)
  from reachable_epoch [OF assms(1,2)] have "epoch_ok s (sys_phase s w)" by (simp add: epoch_inv_def)
  with assms(3,4) show "view_epoch att \<le> case_epoch s" by simp
qed

end
