(* ===== verification/Send_Solo.thy ===== *)
theory Send_Solo
  imports Send_Invariants
begin

text \<open>
  A worker that nobody disturbs. \<open>solo\<close> runs only the moves of one worker, none of them an exception or a
  crash, and the landing of its own writes. So run, the phases of the authorization compute
  \<open>authorize\<close> on the rows as they are (\<open>authorize_solo\<close>), and the phases after it make the call and
  record what the mail service answered (\<open>delivery_solo\<close>).
\<close>

section \<open>Runs of one worker\<close>

fun own_move :: "nat \<Rightarrow> choice \<Rightarrow> bool" where
  "own_move w (Worker v inp) \<longleftrightarrow> v = w \<and> inp \<noteq> Raise \<and> inp \<noteq> Crash"
| "own_move w (Land v i) \<longleftrightarrow> v = w"
| "own_move w c \<longleftrightarrow> False"

definition solo :: "send_env \<Rightarrow> nat \<Rightarrow> send_sys \<Rightarrow> send_sys \<Rightarrow> bool" where
  "solo env w s t \<longleftrightarrow> (\<exists>cs. list_all (own_move w) cs \<and> moves env cs s = Some t)"

lemma moves_append: "moves env (cs @ ds) s = Option.bind (moves env cs s) (moves env ds)"
  by (induction cs arbitrary: s) (auto split: Option.bind_splits)

lemma solo_refl [simp]: "solo env w s s"
  unfolding solo_def by (intro exI [of _ "[]"]) simp

lemma solo_trans: "solo env w s t \<Longrightarrow> solo env w t u \<Longrightarrow> solo env w s u"
proof -
  assume "solo env w s t" "solo env w t u"
  then obtain cs ds where "list_all (own_move w) cs" "moves env cs s = Some t"
    "list_all (own_move w) ds" "moves env ds t = Some u" unfolding solo_def by blast
  then show ?thesis unfolding solo_def by (intro exI [of _ "cs @ ds"]) (simp add: moves_append)
qed

lemma solo_step: "own_move w c \<Longrightarrow> advance env c s = Some t \<Longrightarrow> solo env w s t"
  unfolding solo_def by (intro exI [of _ "[c]"]) simp

lemma moved_again:
  "goto w ph (moved w ph' row ws new s) = moved w ph row ws new s"
  "set_fence row' (moved w ph' row ws new s) = moved w ph' row' ws new s"
  "stage w wr (moved w ph' row ws new s) = moved w ph' row (ws @ [wr]) new s"
  by (simp_all add: goto_def set_fence_def stage_def moved_def)

lemma moved_start: "moved w (sys_phase s w) (sys_fence s) [] [] s = s"
  by (simp add: moved_def)

lemma solo_work:
  assumes "work_at env w ph inp (moved w ph row ws new s) = Some t" "w < senv_workers env" "inp \<noteq> Raise" "inp \<noteq> Crash"
  shows "solo env w (moved w ph row ws new s) t"
  by (rule solo_step [of w "Worker w inp"]) (use assms in \<open>simp_all add: work_def\<close>)

lemmas work_simps = work_at_def on_continue_def moved_again

section \<open>The authorization\<close>

definition expiry_phase :: "attempt \<Rightarrow> datetime \<Rightarrow> disclosure_mandate list option \<Rightarrow> phase" where
  "expiry_phase att now found =
     (let expires = fence_expiry (snd_view (att_state att)) (snd_approval (att_state att)) found now in
      if window_too_short expires now
      then Failing (att_claimed att) [''AUTHORIZATION_WINDOW_TOO_SHORT'', STALE]
      else Fencing att (requested_fence (att_request att) now expires))"

lemma fence_chosen_moved:
  "fence_chosen w att now found (moved w ph row ws new s) = moved w (expiry_phase att now found) row ws new s"
  by (simp add: fence_chosen_def expiry_phase_def Let_def moved_again)

text \<open>Reading the relied mandates one at a time gives what \<open>live_relied_mandates\<close> gives on the rows.\<close>

lemma expiry_solo:
  assumes "w < senv_workers env"
  shows "live_relied_mandates (sys_core s) refs = Inr found \<Longrightarrow>
      solo env w (moved w (Reading_expiry att now ms refs) row ws new s)
        (moved w (expiry_phase att now (map_option ((@) ms) found)) row ws new s)"
    and "live_relied_mandates (sys_core s) refs = Inl e \<Longrightarrow>
      solo env w (moved w (Reading_expiry att now ms refs) row ws new s) (moved w Finished row ws new s)"
proof (induction refs arbitrary: ms found)
  case Nil
  { case 1
    show ?case by (rule solo_work [where inp = Continue]) (use 1 assms in \<open>auto simp: work_simps fence_chosen_moved\<close>) }
  { case 2 then show ?case by simp }
next
  case (Cons ref refs)
  let ?s = "\<lambda>ms refs. moved w (Reading_expiry att now ms refs) row ws new s"
  have read: "solo env w (?s ms (ref # refs)) (?s (ms @ [m]) refs)" if "live_mandate (sys_core s) ref = Inr (Some m)" for m ms
    by (rule solo_work [where inp = Continue]) (use that assms in \<open>simp_all add: work_simps\<close>)
  { case 1
    show ?case
    proof (cases "live_mandate (sys_core s) ref = Inr None")
      case True
      show ?thesis
        by (rule solo_work [where inp = Continue]) (use True 1 assms in \<open>simp_all add: work_simps fence_chosen_moved\<close>)
    next
      case False
      with 1 obtain m rest where m: "live_mandate (sys_core s) ref = Inr (Some m)"
        "live_relied_mandates (sys_core s) refs = Inr rest" "found = map_option (Cons m) rest"
        by (auto simp: result_simps split: option.splits)
      have eq: "map_option ((@) (ms @ [m])) rest = map_option ((@) ms) found" unfolding m(3) by (cases rest) simp_all
      from solo_trans [OF read [OF m(1)] Cons.IH(1) [OF m(2), of "ms @ [m]"]] show ?thesis unfolding eq .
    qed }
  { case 2
    show ?case
    proof (cases "live_mandate (sys_core s) ref")
      case (Inl err)
      show ?thesis by (rule solo_work [where inp = Continue]) (use Inl assms in \<open>simp_all add: work_simps\<close>)
    next
      case (Inr x)
      with 2 obtain m where m: "live_mandate (sys_core s) ref = Inr (Some m)" "live_relied_mandates (sys_core s) refs = Inl e"
        by (cases x; cases "live_relied_mandates (sys_core s) refs") auto
      from Cons.IH(2) [OF m(2), of "ms @ [m]"] show ?thesis by (rule solo_trans [OF read [OF m(1)]])
    qed }
qed

definition decided_phase ::
    "send_env \<Rightarrow> attempt \<Rightarrow> send_fence \<Rightarrow> observed \<Rightarrow> disclosure_mandate list option \<Rightarrow> phase" where
  "decided_phase env att f obs found =
     (let denials = denials_of (senv_hash env) (senv_authority env) (att_request att) (obs_case obs)
            (snd_view (att_state att)) (obs_view_pointer obs) (obs_action_pointer obs) (obs_artifacts obs)
            found (obs_now obs) in
      if denials = [] then Resolving att f else Withdrawing att f (Some (map send_denial_text denials @ [STALE])))"

lemma decided_moved:
  "decided env w att f obs found (moved w ph row ws new s) = moved w (decided_phase env att f obs found) row ws new s"
  by (simp add: decided_def decided_phase_def Let_def moved_again)

lemma mandates_solo:
  assumes "w < senv_workers env"
  shows "live_relied_mandates (sys_core s) refs = Inr found \<Longrightarrow>
      solo env w (moved w (Reading_mandates att f obs ms refs) row ws new s)
        (moved w (decided_phase env att f obs (map_option ((@) ms) found)) row ws new s)"
proof (induction refs arbitrary: ms found)
  case Nil
  show ?case by (rule solo_work [where inp = Continue]) (use Nil assms in \<open>auto simp: work_simps decided_moved\<close>)
next
  case (Cons ref refs)
  show ?case
  proof (cases "live_mandate (sys_core s) ref = Inr None")
    case True
    show ?thesis
      by (rule solo_work [where inp = Continue]) (use True Cons.prems assms in \<open>auto simp: work_simps decided_moved\<close>)
  next
    case False
    with Cons.prems obtain m rest where m: "live_mandate (sys_core s) ref = Inr (Some m)"
      "live_relied_mandates (sys_core s) refs = Inr rest" "found = map_option (Cons m) rest"
      by (auto simp: result_simps split: option.splits)
    have read: "solo env w (moved w (Reading_mandates att f obs ms (ref # refs)) row ws new s)
        (moved w (Reading_mandates att f obs (ms @ [m]) refs) row ws new s)"
      by (rule solo_work [where inp = Continue]) (use m(1) assms in \<open>simp_all add: work_simps\<close>)
    have eq: "map_option ((@) (ms @ [m])) rest = map_option ((@) ms) found" unfolding m(3) by (cases rest) simp_all
    from solo_trans [OF read Cons.IH [OF m(2), of "ms @ [m]"]] show ?thesis unfolding eq .
  qed
qed

lemma fence_solo:
  assumes "w < senv_workers env"
  shows "acquire_send_fence f row row = Inr (row', g) \<Longrightarrow>
      solo env w (moved w (Putting att f) row ws new s) (moved w (Holding att g) row' ws new s)"
    and "acquire_send_fence f row row = Inl e \<Longrightarrow>
      solo env w (moved w (Putting att f) row ws new s) (moved w Finished row ws new s)"
proof -
  have conflict: "solo env w (moved w (Putting att f) row ws new s) (moved w (Conflicted att f) row ws new s)"
    if "put_fence f row = Inl err" for err
    by (rule solo_work [where inp = Continue]) (use that assms in \<open>simp_all add: work_simps do_put_def\<close>)
  have after: "solo env w (moved w (Conflicted att f) row ws new s)
      (moved w (case fence_after_conflict f row of Inl e \<Rightarrow> Finished | Inr g \<Rightarrow> Holding att g) row ws new s)"
    by (rule solo_work [where inp = Continue])
      (use assms in \<open>auto simp: work_simps do_conflict_def split: sum.splits\<close>)
  show "solo env w (moved w (Putting att f) row ws new s) (moved w (Holding att g) row' ws new s)"
    if a: "acquire_send_fence f row row = Inr (row', g)"
  proof (cases "put_fence f row")
    case (Inl err)
    with a have "fence_after_conflict f row = Inr g" "row' = row" by (auto simp: acquire_send_fence_def result_simps)
    with solo_trans [OF conflict [OF Inl] after] show ?thesis by simp
  next
    case (Inr r)
    show ?thesis
      by (rule solo_work [where inp = Continue])
        (use Inr a assms in \<open>auto simp: work_simps do_put_def acquire_send_fence_def\<close>)
  qed
  show "solo env w (moved w (Putting att f) row ws new s) (moved w Finished row ws new s)"
    if a: "acquire_send_fence f row row = Inl e"
  proof (cases "put_fence f row")
    case (Inl err)
    with a have "fence_after_conflict f row = Inl e" by (auto simp: acquire_send_fence_def result_simps split: sum.splits)
    with solo_trans [OF conflict [OF Inl] after] show ?thesis by simp
  qed (use a in \<open>simp add: acquire_send_fence_def\<close>)
qed

definition reads_of ::
    "attempt \<Rightarrow> current_view_pointer option \<Rightarrow> current_action_pointer option \<Rightarrow> shareable_reads" where
  "reads_of att view_pointer action_pointer =
     (let st = att_state att in
      \<lparr>sr_view = snd_view st, sr_view_pointer = view_pointer, sr_action_pointer = action_pointer,
       sr_proposal = snd_proposal st, sr_approval = snd_approval st\<rparr>)"

text \<open>The revalidation under a held fence: what it withdraws, and what it leaves when it finds nothing.\<close>

lemma revalidation_solo:
  assumes w: "w < senv_workers env"
    and found: "live_relied_mandates (sys_core s) (view_mandate_version_set (snd_view (att_state att))) = Inr found"
  shows "artifact_denials (senv_hash env) (att_request att) (snd_view (att_state att)) (snd_proposal (att_state att))
        (snd_approval (att_state att)) (sys_clock s) = Inl e \<Longrightarrow>
      solo env w (moved w (Holding att f) row ws new s)
        (moved w Finished (authority_release (req_execution_id (att_request att)) row) ws new s)"
    and "artifact_denials (senv_hash env) (att_request att) (snd_view (att_state att)) (snd_proposal (att_state att))
        (snd_approval (att_state att)) (sys_clock s) = Inr artifacts \<Longrightarrow>
      denials_of (senv_hash env) (senv_authority env) (att_request att) (core_case (sys_core s)) (snd_view (att_state att))
        vp ap artifacts found (sys_clock s) = denials \<Longrightarrow>
      solo env w (moved w (Holding att f) row ws new s)
        (if denials = [] then moved w (Resolving att f) row ws new s
         else moved w (Failing (att_claimed att) (map send_denial_text denials @ [STALE]))
           (authority_release (req_execution_id (att_request att)) row) ws new s)"
proof -
  let ?check = "Checking att f (sys_clock s) (core_case (sys_core s))"
  have hold: "solo env w (moved w (Holding att f) row ws new s) (moved w ?check row ws new s)"
    by (rule solo_work [where inp = Continue]) (use w in \<open>simp_all add: work_simps\<close>)
  have release: "solo env w (moved w (Withdrawing att f codes) row ws new s)
      (moved w (case codes of None \<Rightarrow> Finished | Some reasons \<Rightarrow> Failing (att_claimed att) reasons)
        (authority_release (req_execution_id (att_request att)) row) ws new s)" for codes
    by (rule solo_work [where inp = Continue]) (use w in \<open>simp_all add: work_simps do_withdraw_def\<close>)
  show "solo env w (moved w (Holding att f) row ws new s)
        (moved w Finished (authority_release (req_execution_id (att_request att)) row) ws new s)"
    if a: "artifact_denials (senv_hash env) (att_request att) (snd_view (att_state att)) (snd_proposal (att_state att))
        (snd_approval (att_state att)) (sys_clock s) = Inl e"
  proof -
    have "solo env w (moved w ?check row ws new s) (moved w (Withdrawing att f None) row ws new s)"
      by (rule solo_work [where inp = "Pointers vp ap"]) (use a w in \<open>simp_all add: work_simps do_check_def Let_def\<close>)
    from solo_trans [OF hold solo_trans [OF this release]] show ?thesis by simp
  qed
  assume a: "artifact_denials (senv_hash env) (att_request att) (snd_view (att_state att)) (snd_proposal (att_state att))
        (snd_approval (att_state att)) (sys_clock s) = Inr artifacts"
    and d: "denials_of (senv_hash env) (senv_authority env) (att_request att) (core_case (sys_core s))
        (snd_view (att_state att)) vp ap artifacts found (sys_clock s) = denials"
  let ?obs = "\<lparr>obs_now = sys_clock s, obs_case = core_case (sys_core s), obs_view_pointer = vp,
    obs_action_pointer = ap, obs_artifacts = artifacts\<rparr>"
  have "solo env w (moved w ?check row ws new s)
      (moved w (Reading_mandates att f ?obs [] (view_mandate_version_set (snd_view (att_state att)))) row ws new s)"
    by (rule solo_work [where inp = "Pointers vp ap"]) (use a w in \<open>simp_all add: work_simps do_check_def Let_def\<close>)
  note run = solo_trans [OF hold solo_trans [OF this mandates_solo [OF w found]]]
  have "map_option ((@) []) found = found" by (cases found) simp_all
  with run have decided: "solo env w (moved w (Holding att f) row ws new s)
      (moved w (decided_phase env att f ?obs found) row ws new s)" by (simp only:)
  show "solo env w (moved w (Holding att f) row ws new s)
      (if denials = [] then moved w (Resolving att f) row ws new s
       else moved w (Failing (att_claimed att) (map send_denial_text denials @ [STALE]))
         (authority_release (req_execution_id (att_request att)) row) ws new s)"
  proof (cases "denials = []")
    case True
    with decided d show ?thesis by (simp add: decided_phase_def Let_def)
  next
    case False
    then have "decided_phase env att f ?obs found =
        Withdrawing att f (Some (map send_denial_text denials @ [STALE]))"
      using d by (simp add: decided_phase_def Let_def)
    with solo_trans [OF decided] release [of "Some (map send_denial_text denials @ [STALE])"] False show ?thesis by simp
  qed
qed


lemma authorize_held:
  assumes "live_relied_mandates core (view_mandate_version_set (sr_view reads)) = Inr found"
    and "\<not> window_too_short (fence_expiry (sr_view reads) (sr_approval reads) found now) now"
    and "\<not> held_by_another row (req_execution_id r) (instant now)"
    and "acquire_send_fence (requested_fence r now (fence_expiry (sr_view reads) (sr_approval reads) found now)) row row =
      Inr (row1, g)"
  shows "authorize H cfg r core reads row now now' later =
    (case artifact_denials H r (sr_view reads) (sr_proposal reads) (sr_approval reads) later of
       Inl e \<Rightarrow> (Inl e, authority_release (req_execution_id r) row1)
     | Inr artifacts \<Rightarrow>
         let denials = denials_of H cfg r (core_case core) (sr_view reads) (sr_view_pointer reads)
               (sr_action_pointer reads) artifacts found now' in
         if denials \<noteq> [] then (Inr (SendDenied denials), authority_release (req_execution_id r) row1)
         else (Inr (SendGranted g (opt_test (\<lambda>h. fence_execution_id h = req_execution_id r) row)), row1))"
  using assms by (simp add: authorize_def Let_def)

text \<open>Where the sender is once \<open>authorize\<close> has answered.\<close>

fun answered_phase :: "attempt \<Rightarrow> authorization_outcome result \<Rightarrow> phase" where
  "answered_phase att (Inl e) = Finished"
| "answered_phase att (Inr (SendDenied codes)) = Failing (att_claimed att) (map send_denial_text codes @ [STALE])"
| "answered_phase att (Inr (SendGranted f replayed)) = Resolving att f"

lemma authorize_solo:
  assumes w: "w < senv_workers env"
    and result: "authorize (senv_hash env) (senv_authority env) (att_request att) (sys_core s) (reads_of att vp ap) row
      (utc (sys_clock s)) (sys_clock s) (sys_clock s) = (res, row')"
  shows "solo env w (moved w (Owning att) row ws new s) (moved w (answered_phase att res) row' ws new s)"
proof -
  let ?now = "utc (sys_clock s)" and ?refs = "view_mandate_version_set (snd_view (att_state att))"
  have own: "solo env w (moved w (Owning att) row ws new s) (moved w (Reading_expiry att ?now [] ?refs) row ws new s)"
    by (rule solo_work [where inp = Continue]) (use w in \<open>simp_all add: work_simps do_authorize_def\<close>)
  note D = result [unfolded authorize_def reads_of_def Let_def shareable_reads.select_convs]
  show ?thesis
  proof (cases "live_relied_mandates (sys_core s) ?refs")
    case (Inl e)
    with D have "res = Inl e" "row' = row" by simp_all
    with solo_trans [OF own expiry_solo(2) [OF w Inl]] show ?thesis by simp
  next
    case found: (Inr found)
    let ?exp = "fence_expiry (snd_view (att_state att)) (snd_approval (att_state att)) found ?now"
    let ?f = "requested_fence (att_request att) ?now ?exp"
    have "map_option ((@) []) found = found" by (cases found) simp_all
    with solo_trans [OF own expiry_solo(1) [OF w found]]
    have chosen: "solo env w (moved w (Owning att) row ws new s) (moved w (expiry_phase att ?now found) row ws new s)"
      by (simp only:)
    show ?thesis
    proof (cases "window_too_short ?exp ?now")
      case True
      with D found have "res = Inr (SendDenied [AUTHORIZATION_WINDOW_TOO_SHORT])" "row' = row" by simp_all
      with chosen True show ?thesis by (simp add: expiry_phase_def Let_def)
    next
      case False
      with chosen have fencing: "solo env w (moved w (Owning att) row ws new s) (moved w (Fencing att ?f) row ws new s)"
        by (simp add: expiry_phase_def Let_def)
      have held: "solo env w (moved w (Fencing att ?f) row ws new s)
          (moved w (if held_by_another row (req_execution_id (att_request att)) (sys_clock s) then Finished else Putting att ?f)
            row ws new s)"
        by (rule solo_work [where inp = Continue]) (use w in \<open>simp_all add: work_simps do_held_def requested_fence_def\<close>)
      show ?thesis
      proof (cases "held_by_another row (req_execution_id (att_request att)) (sys_clock s)")
        case True
        with D found False have "\<exists>e. res = Inl e" "row' = row" by auto
        with solo_trans [OF fencing held] True show ?thesis by auto
      next
        case free: False
        with solo_trans [OF fencing held]
        have putting: "solo env w (moved w (Owning att) row ws new s) (moved w (Putting att ?f) row ws new s)" by simp
        show ?thesis
        proof (cases "acquire_send_fence ?f row row")
          case (Inl e)
          with D found False free have "\<exists>e. res = Inl e" "row' = row" by auto
          with solo_trans [OF putting fence_solo(2) [OF w Inl]] show ?thesis by auto
        next
          case (Inr x)
          obtain row1 g where x: "x = (row1, g)" by force
          note holding = solo_trans [OF putting fence_solo(1) [OF w Inr [unfolded x]]]
          have E: "(case artifact_denials (senv_hash env) (att_request att) (snd_view (att_state att))
              (snd_proposal (att_state att)) (snd_approval (att_state att)) (sys_clock s) of
              Inl e \<Rightarrow> (Inl e, authority_release (req_execution_id (att_request att)) row1)
            | Inr artifacts \<Rightarrow>
                let denials = denials_of (senv_hash env) (senv_authority env) (att_request att) (core_case (sys_core s))
                  (snd_view (att_state att)) vp ap artifacts found (sys_clock s) in
                if denials \<noteq> [] then (Inr (SendDenied denials), authority_release (req_execution_id (att_request att)) row1)
                else (Inr (SendGranted g (opt_test (\<lambda>h. fence_execution_id h = req_execution_id (att_request att)) row)), row1)) =
              (res, row')"
            using authorize_held [of "sys_core s" "reads_of att vp ap" found "utc (sys_clock s)" row "att_request att" row1 g]
              result found False free Inr x
            by (simp add: reads_of_def Let_def cong: sum.case_cong)
          show ?thesis
          proof (cases "artifact_denials (senv_hash env) (att_request att) (snd_view (att_state att))
              (snd_proposal (att_state att)) (snd_approval (att_state att)) (sys_clock s)")
            case (Inl e)
            with E have "res = Inl e" "row' = authority_release (req_execution_id (att_request att)) row1" by simp_all
            with solo_trans [OF holding revalidation_solo(1) [OF w found Inl]] show ?thesis by simp
          next
            case (Inr artifacts)
            from solo_trans [OF holding revalidation_solo(2) [OF w found Inr refl, where vp = vp and ap = ap]] E Inr
            show ?thesis by (auto simp: Let_def split: if_splits)
          qed
        qed
      qed
    qed
  qed
qed


section \<open>The delivery\<close>

text \<open>The row a staged outcome writes, if there is one.\<close>

definition outcome_write :: "send_env \<Rightarrow> nat \<Rightarrow> action_execution \<Rightarrow> action_execution result \<Rightarrow> staged_write list" where
  "outcome_write env w x outcome =
     (case outcome of
        Inl e \<Rightarrow> []
      | Inr y \<Rightarrow>
          (case exec_idempotency_key y of
             None \<Rightarrow> []
           | Some key \<Rightarrow> [\<lparr>stg_base = x, stg_new = y,
               stg_proof = result_proof_key (senv_hash env) (senv_command env w) key\<rparr>]))"

lemma persist_moved:
  "persist env w x outcome (moved w ph row ws new s) = moved w ph row (ws @ outcome_write env w x outcome) new s"
  by (simp add: persist_def outcome_write_def moved_again split: sum.splits option.splits)

lemma delivery_solo:
  assumes w: "w < senv_workers env" and clock: "sys_clock s < instant (fence_expires_at f)"
  shows "solo env w (moved w (Resolving att f) row ws new s)
    (moved w (Closing att f) row
      (ws @ outcome_write env w (att_claimed att) (record_outcome (att_claimed att) (classified answer) (sys_clock s)))
      ((w, target_of env w, sys_clock s) # new) s)"
proof -
  have "solo env w (moved w (Resolving att f) row ws new s) (moved w (Resolved att f) row ws new s)"
    by (rule solo_work [where inp = "Resolution None"])
      (use assms in \<open>simp_all add: work_simps do_resolve_def fence_lapsed_def\<close>)
  moreover have "solo env w (moved w (Resolved att f) row ws new s)
      (moved w (Called att f) row ws ((w, target_of env w, sys_clock s) # new) s)"
    by (rule solo_work [where inp = Continue])
      (use assms in \<open>simp_all add: work_simps do_call_def fence_lapsed_def moved_def goto_def\<close>)
  moreover have "solo env w (moved w (Called att f) row ws ((w, target_of env w, sys_clock s) # new) s)
    (moved w (Closing att f) row
      (ws @ outcome_write env w (att_claimed att) (record_outcome (att_claimed att) (classified answer) (sys_clock s)))
      ((w, target_of env w, sys_clock s) # new) s)"
    by (rule solo_work [where inp = "Transport answer"]) (use assms in \<open>simp_all add: work_simps persist_moved\<close>)
  ultimately show ?thesis by (meson solo_trans)
qed

lemma close_solo:
  "w < senv_workers env \<Longrightarrow> solo env w (moved w (Closing att f) row ws new s)
     (moved w Finished (authority_release (target_of env w) row) ws new s)"
  by (rule solo_work [where inp = Continue]) (simp_all add: work_simps do_close_def)

lemma failing_solo:
  "w < senv_workers env \<Longrightarrow> solo env w (moved w (Failing x codes) row ws new s)
     (moved w Finished row (ws @ outcome_write env w x (fail_execution x codes None (sys_clock s))) new s)"
  by (rule solo_work [where inp = Continue]) (simp_all add: work_simps persist_moved)

text \<open>The staged write of an outcome lands on the row it was staged on.\<close>

lemma land_solo:
  assumes "sys_rows s (target_of env w) = Some x" "write \<in> set (sys_staged s w)"
    and "exec_version (stg_new write) = exec_version x + 1" "stg_proof write \<notin> set (sys_proofs s)"
  shows "solo env w s (s\<lparr>sys_rows := (sys_rows s)(target_of env w \<mapsto> stg_new write),
    sys_proofs := stg_proof write # sys_proofs s\<rparr>)"
proof -
  from assms(2) obtain i where i: "i < length (sys_staged s w)" "sys_staged s w ! i = write"
    by (auto simp: in_set_conv_nth)
  show ?thesis by (rule solo_step [of w "Land w i"]) (use assms i in \<open>simp_all add: land_def\<close>)
qed

end
