(* ===== verification/Send_Example.thy ===== *)
theory Send_Example
  imports Send_Epoch Send_Solo
begin

text \<open>
  One case with one approved execution and two workers that race for it: a closed environment, its
  initial state, and the runs the witnesses of the send properties evaluate.
\<close>

section \<open>The artifacts\<close>

definition sx_digest :: digest where "sx_digest = Sha256Digest ''sha256:0''"
definition sx_execution :: execution_id where "sx_execution = Ident 40"

definition sx_mandate :: disclosure_mandate where
  "sx_mandate =
     \<lparr>mandate_id = Ident 11, mandate_version = 2, mandate_case_id = Ident 1, mandate_community_id = Ident 2,
      mandate_contributor_id = Ident 3, mandate_namespace = Namespace ''DEMO'', mandate_status = MS_APPROVED,
      mandate_fact_grants = [], mandate_identity_grant = NO_IDENTITY_GRANT,
      mandate_allowed_destination_ids = [DestinationId ''pm''],
      mandate_allowed_purposes = [REQUEST_ELEVATOR_REPAIR_AND_RESPONSE], mandate_valid_from = utc 0,
      mandate_expires_at = Some (utc 800000000), mandate_proposed_at = utc 0, mandate_decided_at = Some (utc 0),
      mandate_revoked_at = None, mandate_decision_actor_id = Some (Ident 3), mandate_supersedes_version = Some 1,
      mandate_terms_hash = sx_digest, mandate_created_at = utc 0, mandate_updated_at = utc 0\<rparr>"

definition sx_destination :: safe_destination where
  "sx_destination = \<lparr>sd_destination_id = DestinationId ''pm'', sd_kind = PROPERTY_MANAGER,
     sd_registry_version = 1, sd_routing_token = 77, sd_display_label = ''Property manager''\<rparr>"

definition sx_view :: shareable_case_view where
  "sx_view =
     \<lparr>view_schema_version = SHAREABLE_VIEW_SCHEMA_VERSION, view_view_id = Ident 20, view_case_id = 1,
      view_community_public_label = ''Building'', view_case_version = 6, view_authorization_version = 3,
      view_policy_version = ''policy/v1'', view_compiler_version = ''compiler/v1'',
      view_policy_build_hash = sx_digest, view_destination = sx_destination,
      view_purpose = REQUEST_ELEVATOR_REPAIR_AND_RESPONSE, view_generated_at = utc 0,
      view_expires_at = utc 1000000000,
      view_mandate_version_set = [\<lparr>mvr_mandate_id = 11, mvr_version = 2, mvr_terms_hash = sx_digest\<rparr>],
      view_authorization_snapshot_hash = sx_digest, view_shareable_facts = [], view_safe_evidence_refs = [],
      view_audit_refs = [], view_hash = sx_digest\<rparr>"

definition sx_proposal :: action_proposal where
  "sx_proposal =
     \<lparr>prop_action_id = Ident 30, prop_case_id = Ident 1, prop_case_version = 6, prop_authorization_version = 3,
      prop_view_id = Ident 20, prop_view_hash = sx_digest, prop_subject = ''Elevator'', prop_claims = [],
      prop_requested_action = ''Repair'', prop_requested_deadline = None, prop_request_fact_ids = [],
      prop_caveats = [], prop_tone = NEUTRAL, prop_invocation_id = 9, prop_prompt_version = ''p/v1'',
      prop_preview_hash = sx_digest, prop_hash = sx_digest, prop_status = AP_DRAFT, prop_created_at = utc 0\<rparr>"

definition sx_approval :: approval where
  "sx_approval =
     \<lparr>appr_id = Ident 50, appr_namespace = Namespace ''DEMO'', appr_community_id = Ident 2,
      appr_case_id = Ident 1, appr_action_id = Ident 30, appr_execution_id = sx_execution,
      appr_proposal_hash = sx_digest, appr_view_hash = sx_digest, appr_authorization_version = 3,
      appr_approver_id_hash = sx_digest, appr_assurance = DEMO_SHARED_TOKEN, appr_decision = AD_APPROVED,
      appr_approved_at = utc 0, appr_expires_at = approval_expires_at (utc 0) (utc 1000000000),
      appr_hash = sx_digest, appr_request_key_hash = sx_digest, appr_version = 1, appr_created_at = utc 0,
      appr_updated_at = utc 0\<rparr>"

definition sx_row :: action_execution where
  "sx_row =
     \<lparr>exec_id = sx_execution, exec_action_id = Ident 30, exec_case_id = Ident 1, exec_approval_id = Some (Ident 50),
      exec_proposal_hash = sx_digest, exec_view_hash = sx_digest, exec_idempotency_key = Some ''key'',
      exec_state = EX_APPROVED, exec_claim_owner_hash = None, exec_rendered_message_hash = None,
      exec_ses_request_token_hash = None, exec_ses_message_id = None, exec_started_at = None,
      exec_finished_at = None, exec_failure_code = None, exec_failure_detail_safe = None,
      exec_reconciled_at = None, exec_version = 2, exec_created_at = utc 0, exec_updated_at = utc 0,
      exec_attempt_number = 1\<rparr>"

definition sx_case :: community_case where
  "sx_case =
     \<lparr>case_case_id = Ident 1, case_community_id = Ident 2, case_namespace = Namespace ''DEMO'',
      case_title = ''Elevator'', case_issue_type = ''ELEVATOR'', case_current_state = ACTION_PROPOSED,
      case_report_ids = [Ident 5], case_fact_ids = [Ident 6], case_assessment_id = None,
      case_current_view_id = None, case_current_action_id = None, case_corroboration_count = 2,
      case_reason_code = ''OK'', case_version = 7, case_authorization_version = 3, case_created_at = utc 0,
      case_updated_at = utc 0, case_resolved_at = None, case_closed_at = None\<rparr>"

section \<open>The environment\<close>

definition sx_authority :: jval where
  "sx_authority = j_authority [(11, 2, sx_digest)]"

text \<open>
  A digest that tells apart the nonces of the claim owners, the keys of the claim and of the result, and the one
  authority from everything else.
\<close>

definition sx_hash :: hasher where
  "sx_hash j =
     (if j = sx_authority then Sha256Digest ''sha256:1''
      else case j of
        JObj members \<Rightarrow> (case map_of members ''claim_nonce'' of Some (JStr t) \<Rightarrow> Sha256Digest t
          | _ \<Rightarrow> if map_of members ''key'' = Some (JStr (''send-result'' @ [char_of (31 :: nat)] @ ''key'')) then Sha256Digest ''sha256:2'' else sx_digest)
      | _ \<Rightarrow> sx_digest)"

definition sx_command :: send_command where
  "sx_command = \<lparr>cmd_namespace = Namespace ''DEMO'', cmd_community_id = Ident 2, cmd_case_id = Ident 1,
     cmd_action_id = Ident 30, cmd_execution_id = sx_execution, cmd_approval_id = Ident 50,
     cmd_expected_version = 2, cmd_actor_id_hash = sx_digest\<rparr>"

definition sx_env :: send_env where
  "sx_env =
     \<lparr>senv_hash = sx_hash,
      senv_authority = \<lparr>auth_policy_version = ''policy/v1'', auth_compiler_version = ''compiler/v1'',
        auth_policy_build_hash = sx_digest, auth_purpose = REQUEST_ELEVATOR_REPAIR_AND_RESPONSE\<rparr>,
      senv_sender = \<lparr>snd_destination = sx_destination, snd_from_identity_id = ''from'',
        snd_template_version = TEMPLATE_VERSION\<rparr>,
      senv_render = (\<lambda>p v from template. Inr sx_digest),
      senv_view = (\<lambda>i. Some sx_view), senv_proposal = (\<lambda>i. Some sx_proposal),
      senv_approval = (\<lambda>i. Some sx_approval), senv_workers = 2, senv_command = (\<lambda>w. sx_command),
      senv_nonce = (\<lambda>w. w)\<rparr>"

definition sx_initial :: send_sys where
  "sx_initial =
     \<lparr>sys_clock = 1000000,
      sys_core = \<lparr>core_case = sx_case,
        core_pointers = (\<lambda>i. if i = Ident 11 then Some (pointer_to sx_mandate) else None),
        core_versions = (\<lambda>k. if k = (Ident 11, 2) then Some sx_mandate else None)\<rparr>,
      sys_fence = None, sys_rows = (\<lambda>e. if e = sx_execution then Some sx_row else None),
      sys_proofs = [], sys_staged = (\<lambda>w. []), sys_phase = (\<lambda>w. Fresh), sys_calls = []\<rparr>"

definition sx_view_pointer :: current_view_pointer where
  "sx_view_pointer = \<lparr>vp_view_id = Ident 20, vp_view_hash = sx_digest, vp_case_version = 6,
     vp_authorization_version = 3, vp_expires_at = utc 1000000000, vp_version = 1\<rparr>"

definition sx_action_pointer :: current_action_pointer where
  "sx_action_pointer = \<lparr>ap_action_id = Ident 30, ap_execution_id = sx_execution, ap_proposal_hash = sx_digest,
     ap_view_id = Ident 20, ap_view_hash = sx_digest, ap_case_version = 6, ap_authorization_version = 3,
     ap_status = AP_DRAFT, ap_version = 1\<rparr>"

lemma sx_initial: "initial sx_env sx_initial"
proof -
  have "action_execution_post_init sx_row = Inr ()" by code_simp
  then show ?thesis
    by (auto simp: initial_def sx_initial_def sx_env_def well_keyed_def compiled_from_def sx_view_def sx_mandate_def
        pointer_to_def)
qed

lemma sx_distinct_owners: "distinct_owners sx_env"
proof -
  have owners: "owner_of sx_env 0 \<noteq> owner_of sx_env 1" by code_simp
  show ?thesis
    unfolding distinct_owners_def
  proof (intro allI impI)
    fix v w
    assume "v < senv_workers sx_env" "w < senv_workers sx_env" "owner_of sx_env v = owner_of sx_env w"
    moreover have "senv_workers sx_env = 2" by (simp add: sx_env_def)
    ultimately show "v = w" using owners by (auto simp: less_2_cases_iff)
  qed
qed

section \<open>Runs\<close>

abbreviation sx_observe :: input where
  "sx_observe \<equiv> Pointers (Some sx_view_pointer) (Some sx_action_pointer)"

text \<open>Both workers stage a claim and are told that it committed; one claim lands.\<close>

definition sx_claims :: "choice list" where
  "sx_claims =
     [Worker 0 Continue, Worker 1 Continue, Worker 0 sx_observe, Worker 1 sx_observe, Land 0 0,
      Worker 0 (Answer True), Worker 1 (Answer True), Worker 0 Continue, Worker 1 Continue]"

text \<open>The owner reads the expiries, takes the fence and revalidates.\<close>

definition sx_authorizes :: "choice list" where
  "sx_authorizes =
     [Worker 0 Continue, Worker 0 Continue, Worker 0 Continue, Worker 0 Continue, Worker 0 Continue,
      Worker 0 Continue, Worker 0 sx_observe, Worker 0 Continue, Worker 0 Continue]"

definition sx_resolves :: "choice list" where
  "sx_resolves = [Worker 0 (Resolution None)]"

definition sx_run :: "choice list \<Rightarrow> send_sys" where
  "sx_run cs = the (moves sx_env cs sx_initial)"

text \<open>What the witnesses read of a run: whether a next move makes the call, and under which case and row.\<close>

definition sx_reading :: "send_sys \<Rightarrow> (nat \<times> execution_id \<times> int) list \<times> int \<times> execution_state option \<times> int option \<times>
    (nat \<times> execution_id \<times> int) list option" where
  "sx_reading s =
     (sys_calls s, case_authorization_version (core_case (sys_core s)),
      map_option exec_state (sys_rows s sx_execution),
      map_option (\<lambda>f. instant (fence_expires_at f)) (sys_fence s),
      map_option sys_calls (advance sx_env (Worker 0 Continue) s))"

lemma sx_run:
  assumes "map_option sx_reading (moves sx_env cs sx_initial) = Some (calls, epoch, state, fence, Some calls')"
  shows "reachable sx_env (sx_run cs)" "sys_calls (sx_run cs) = calls"
    "case_authorization_version (core_case (sys_core (sx_run cs))) = epoch"
    "map_option exec_state (sys_rows (sx_run cs) sx_execution) = state"
    "map_option (\<lambda>f. instant (fence_expires_at f)) (sys_fence (sx_run cs)) = fence"
    "\<exists>t. advance sx_env (Worker 0 Continue) (sx_run cs) = Some t \<and> sys_calls t = calls'"
proof -
  from assms obtain s where s: "moves sx_env cs sx_initial = Some s"
    "sx_reading s = (calls, epoch, state, fence, Some calls')" by blast
  then have run: "sx_run cs = s" by (simp add: sx_run_def)
  from reachable_moves [OF reachable.start [OF sx_initial] s(1)] run show "reachable sx_env (sx_run cs)" by simp
  from s(2) show "sys_calls (sx_run cs) = calls" "case_authorization_version (core_case (sys_core (sx_run cs))) = epoch"
    "map_option exec_state (sys_rows (sx_run cs) sx_execution) = state"
    "map_option (\<lambda>f. instant (fence_expires_at f)) (sys_fence (sx_run cs)) = fence"
    "\<exists>t. advance sx_env (Worker 0 Continue) (sx_run cs) = Some t \<and> sys_calls t = calls'"
    by (auto simp: sx_reading_def run)
qed

definition sx_call :: "(nat \<times> execution_id \<times> int) list" where
  "sx_call = [(0, sx_execution, 1000000)]"

definition sx_ready :: "choice list" where "sx_ready = sx_claims @ sx_authorizes @ sx_resolves"

lemma sx_ready_reading:
  "map_option sx_reading (moves sx_env sx_ready sx_initial) =
     Some ([], 3, Some EX_SENDING, Some 61000000, Some sx_call)"
  by code_simp

text \<open>The owner has claimed and reads nothing yet; what the send needs is in order.\<close>

definition sx_owning :: "send_sys \<Rightarrow> bool" where
  "sx_owning s \<longleftrightarrow> sys_clock s = 1000000 \<and> sys_calls s = [] \<and>
     (case sys_phase s 0 of
        Owning att \<Rightarrow>
          sys_rows s sx_execution = Some (att_claimed att) \<and> exec_idempotency_key (att_claimed att) = Some ''key'' \<and>
          result_proof_key sx_hash sx_command ''key'' \<notin> set (sys_proofs s) \<and>
          req_execution_id (att_request att) = sx_execution \<and>
          (case authorize sx_hash (senv_authority sx_env) (att_request att) (sys_core s)
             (reads_of att (Some sx_view_pointer) (Some sx_action_pointer)) (sys_fence s) (utc (sys_clock s)) (sys_clock s)
             (sys_clock s) of (Inr (SendGranted f replayed), row) \<Rightarrow> True | _ \<Rightarrow> False) \<and>
          (case record_outcome (att_claimed att) (SesAccepted ''message'') (sys_clock s) of
             Inr y \<Rightarrow> exec_state y = EX_SENT | Inl e \<Rightarrow> False)
      | _ \<Rightarrow> False)"

lemma sx_owning: "map_option sx_owning (moves sx_env sx_claims sx_initial) = Some True"
  by code_simp

text \<open>The owner has revalidated, under a fence that lasts a minute and a view of the case's epoch.\<close>

definition sx_resolving :: "send_sys \<Rightarrow> bool" where
  "sx_resolving s \<longleftrightarrow> sys_clock s = 1000000 \<and> sys_calls s = [] \<and> case_epoch s = 3 \<and>
     case_current_state (core_case (sys_core s)) = ACTION_PROPOSED \<and>
     (case sys_phase s 0 of
        Resolving att f \<Rightarrow> view_epoch att = 3 \<and> instant (fence_expires_at f) = 61000000
      | _ \<Rightarrow> False)"

lemma sx_resolving: "map_option sx_resolving (moves sx_env (sx_claims @ sx_authorizes) sx_initial) = Some True"
  by code_simp

text \<open>A reconciliation between the claim and the fence, a minute after the claim.\<close>

definition sx_stalled :: "choice list" where
  "sx_stalled = sx_claims @ [Tick 60000000, Reconcile sx_execution] @ sx_authorizes @ sx_resolves"

lemma sx_stalled_reading:
  "map_option sx_reading (moves sx_env sx_stalled sx_initial) =
     Some ([], 3, Some EX_SEND_UNKNOWN, Some 121000000, Some [(0, sx_execution, 61000000)])"
  by code_simp

end
