(* ===== verification/Send_Properties.thy ===== *)
theory Send_Properties
  imports Send_Example
begin

text \<open>
  The properties of the send protocol: how often the mail service is called and under which authority,
  what a live fence holds still, what a worker does that nobody disturbs, and that no write of an
  execution row is lost.
\<close>

section \<open>One call\<close>

lemma distinct_single:
  assumes "distinct (map f xs)" "\<And>x y. x \<in> set xs \<Longrightarrow> y \<in> set xs \<Longrightarrow> f x = f y"
  shows "length xs \<le> 1"
proof (rule ccontr)
  assume "\<not> length xs \<le> 1"
  then obtain x y zs where xs: "xs = x # y # zs" by (metis One_nat_def Suc_le_length_iff not_less_eq_eq)
  then have "f x = f y" by (intro assms(2)) simp_all
  with assms(1) xs show False by simp
qed

text \<open>
  C3. At most one deliberate call of the mail service is made for an execution, in any interleaving of
  any number of workers with the other commands, whatever \<open>commit\<close> answers, whenever staged writes land
  and wherever processes die; the call is made by the owner of the claim the row carries.
\<close>

theorem one_ses_call_per_execution:
  assumes "reachable env s" "distinct_owners env"
  shows "length (filter (\<lambda>(w, e', t). e' = e) (sys_calls s)) \<le> 1 \<and>
    (\<forall>(w, e', t)\<in>set (sys_calls s). e' = target_of env w \<and> owned env s w)"
proof -
  from reachable_inv [OF assms] have calls: "calls_inv env s" by (simp add: send_inv_def)
  let ?cs = "filter (\<lambda>(w, e', t). e' = e) (sys_calls s)"
  have "distinct (map fst ?cs)"
    using calls by (simp add: calls_inv_def distinct_map_filter)
  moreover have "fst c = fst d" if "c \<in> set ?cs" "d \<in> set ?cs" for c d
  proof -
    obtain v t w u where cd: "c = (v, e, t)" "d = (w, e, u)" using \<open>c \<in> set ?cs\<close> \<open>d \<in> set ?cs\<close> by auto
    with that calls have "v < senv_workers env" "owned env s v" "target_of env v = e"
      "w < senv_workers env" "owned env s w" "target_of env w = e" by (fastforce simp: calls_inv_def)+
    with owner_unique [OF assms(2), of v w s] cd show ?thesis by simp
  qed
  ultimately have "length ?cs \<le> 1" by (intro distinct_single) blast+
  with calls show ?thesis by (auto simp: calls_inv_def)
qed

theorem one_ses_call_per_execution_witness:
  "\<exists>s t. reachable sx_env s \<and> advance sx_env (Worker 0 Continue) s = Some t \<and> length (sys_calls t) = 1 \<and>
     length (filter (\<lambda>(w, e', t). e' = sx_execution) (sys_calls t)) \<le> 1"
proof -
  obtain t where t: "advance sx_env (Worker 0 Continue) (sx_run sx_ready) = Some t" "sys_calls t = sx_call"
    using sx_run(6) [OF sx_ready_reading] by blast
  have s: "reachable sx_env (sx_run sx_ready)" by (rule sx_run(1) [OF sx_ready_reading])
  have "reachable sx_env t" using s t(1) by (rule reachable.move)
  from one_ses_call_per_execution [OF this sx_distinct_owners, of sx_execution] s t show ?thesis
    by (intro exI [of _ "sx_run sx_ready"] exI [of _ t]) (simp add: sx_call_def)
qed

section \<open>The authority at the call\<close>

text \<open>Nothing but the authority of a view has the digest of its authority.\<close>

definition authority_binding :: "send_env \<Rightarrow> bool" where
  "authority_binding env \<longleftrightarrow> (\<forall>i v entries. senv_view env i = Some v \<longrightarrow>
     senv_hash env (j_authority entries) = relied_authority_hash (senv_hash env) (view_mandate_version_set v) \<longrightarrow>
     j_authority entries = j_authority (map relied_entry (view_mandate_version_set v)))"

text \<open>
  At \<open>now\<close> the view is current in time, and every mandate it was compiled from is in force at exactly
  the version and the terms it was compiled from.
\<close>

definition authorized_now :: "core_rows \<Rightarrow> shareable_case_view \<Rightarrow> int \<Rightarrow> bool" where
  "authorized_now core v now \<longleftrightarrow>
     now < instant (view_expires_at v) \<and>
     (\<forall>ref\<in>set (view_mandate_version_set v). \<exists>p m.
        core_pointers core (Ident (mvr_mandate_id ref)) = Some p \<and> pointer_version p = mvr_version ref \<and>
        core_versions core (Ident (mvr_mandate_id ref), mvr_version ref) = Some m \<and>
        mandate_terms_hash m = mvr_terms_hash ref \<and> mandate_status m = MS_APPROVED \<and>
        (\<forall>e. mandate_expires_at m = Some e \<longrightarrow> now < instant e))"

lemma uuid_text_inj: "u < 2 ^ 128 \<Longrightarrow> v < 2 ^ 128 \<Longrightarrow> uuid_text u = uuid_text v \<Longrightarrow> u = v"
  by (metis option.inject uuid_of_text_uuid_text)

lemma digest_value_inj [simp]: "digest_value a = digest_value b \<longleftrightarrow> a = b"
  by (cases a; cases b) simp

lemma j_authority_mem:
  assumes "j_authority xs = j_authority ys" "(i, n, h) \<in> set ys"
  shows "\<exists>j. (j, n, h) \<in> set xs \<and> uuid_text j = uuid_text i"
proof -
  have "j_authority_entry ` set xs = j_authority_entry ` set ys"
    using arg_cong [OF assms(1), of "\<lambda>j. case j of JObj [_, (_, JArr es)] \<Rightarrow> set es | _ \<Rightarrow> {}"]
    by (simp add: j_authority_def j_list_def)
  with assms(2) have "j_authority_entry (i, n, h) \<in> j_authority_entry ` set xs" by blast
  then show ?thesis by (auto simp: j_uuid_def j_digest_def)
qed

lemma granted_authorized:
  assumes binding: "authority_binding env" and view: "senv_view env i = Some (snd_view (att_state att))"
    and core: "well_keyed core" "compiled_from core (snd_view (att_state att))"
    and granted: "granted env core att" and covers: "covers core att f" and now: "now < instant (fence_expires_at f)"
  shows "authorized_now core (snd_view (att_state att)) now"
proof -
  let ?v = "snd_view (att_state att)"
  from granted obtain ms where ms: "list_all2 (live core) (refs_of att) ms"
    and hash: "mandate_authority_hash (senv_hash env) ms = relied_authority_hash (senv_hash env) (refs_of att)"
    and status: "\<And>m. m \<in> set ms \<Longrightarrow> mandate_status m = MS_APPROVED" by (auto simp: granted_def)
  from binding view hash have entries: "j_authority (map mandate_entry ms) = j_authority (map relied_entry (refs_of att))"
    by (simp add: authority_binding_def mandate_authority_hash_def refs_of_def)
  have "\<exists>p m. core_pointers core (Ident (mvr_mandate_id ref)) = Some p \<and> pointer_version p = mvr_version ref \<and>
      core_versions core (Ident (mvr_mandate_id ref), mvr_version ref) = Some m \<and>
      mandate_terms_hash m = mvr_terms_hash ref \<and> mandate_status m = MS_APPROVED \<and>
      (\<forall>e. mandate_expires_at m = Some e \<longrightarrow> now < instant e)"
    if ref: "ref \<in> set (refs_of att)" for ref
  proof -
    have "(mvr_mandate_id ref, mvr_version ref, mvr_terms_hash ref) \<in> set (map relied_entry (refs_of att))"
      using ref by (auto simp: relied_entry_def)
    from j_authority_mem [OF entries this] obtain m where m: "m \<in> set ms"
      "mandate_version m = mvr_version ref" "mandate_terms_hash m = mvr_terms_hash ref"
      "uuid_text (uuid_of (mandate_id m)) = uuid_text (mvr_mandate_id ref)"
      by (auto simp: mandate_entry_def)
    from ms m(1) obtain ref' where ref': "ref' \<in> set (refs_of att)" "live core ref' m"
      by (metis in_set_conv_nth list_all2_conv_all_nth)
    then obtain p where p: "core_pointers core (Ident (mvr_mandate_id ref')) = Some p"
      "core_versions core (Ident (mvr_mandate_id ref'), pointer_version p) = Some m" by (auto simp: live_iff)
    with core(1) have key: "mandate_id m = Ident (mvr_mandate_id ref')" "mandate_version m = pointer_version p"
      by (auto simp: well_keyed_def)
    have "mvr_mandate_id ref' = mvr_mandate_id ref"
      using m(4) key(1) core(2) ref ref'(1) by (intro uuid_text_inj) (auto simp: compiled_from_def refs_of_def)
    with p key m have at: "core_pointers core (Ident (mvr_mandate_id ref)) = Some p" "pointer_version p = mvr_version ref"
      "core_versions core (Ident (mvr_mandate_id ref), mvr_version ref) = Some m" by auto
    from covers ref obtain n where n: "seen core ref n"
      "\<And>e. mandate_expires_at n = Some e \<Longrightarrow> instant (fence_expires_at f) \<le> instant e" by (auto simp: covers_def)
    from n(1) at have "n = m" by (auto simp: seen_def)
    with n(2) now at m status show ?thesis by (meson less_le_trans)
  qed
  moreover have "now < instant (view_expires_at ?v)" using covers now by (simp add: covers_def)
  ultimately show ?thesis by (simp add: authorized_now_def refs_of_def)
qed

text \<open>
  C4. When the mail service is called for an execution, the case's fence is held for that execution and has
  not lapsed; the message was rendered from a proposal and a view that an unexpired approval binds, to the
  digest that was approved; and the view is authorized at that instant: each of its mandates is still
  current at the same version and terms, approved and unexpired. No revocation can have come between,
  in any interleaving.
\<close>

theorem authority_at_the_call:
  assumes "reachable env s" "distinct_owners env" "authority_binding env"
    and "advance env c s = Some t" "sys_calls t = (w, e, now) # sys_calls s"
  shows "\<exists>f st. now = sys_clock s \<and> e = target_of env w \<and> sys_fence s = Some f \<and> fence_execution_id f = e \<and>
    now < instant (fence_expires_at f) \<and> verified_state env w st \<and>
    now < instant (appr_expires_at (snd_approval st)) \<and> authorized_now (sys_core s) (snd_view st) now"
proof -
  note inv = reachable_inv [OF assms(1,2)]
  have worker: "is_worker c"
  proof (rule ccontr)
    assume "\<not> is_worker c"
    with other_frame(3) [OF assms(4)] assms(5) show False by simp
  qed
  obtain u ph row writes new where m: "phase_move env s u (sys_phase s u) ph row writes new"
    "t = moved u ph row writes new s"
    by (rule worker_advance [OF assms(4) worker])
  from inv have ok: "phase_ok env s u (sys_phase s u)" and core: "core_inv env s" by (simp_all add: send_inv_def)
  from phase_move_calls [OF m(1) ok] m(2) assms(5) obtain att f where ph: "sys_phase s u = Resolved att f"
    and call: "w = u" "e = target_of env u" "now = sys_clock s" and clock: "sys_clock s < instant (fence_expires_at f)"
    by auto
  from ok ph clock have h: "held_ok env s u att f" and g: "granted env (sys_core s) att" by simp_all
  then have a: "attempt_ok env s u att" by (simp add: held_ok_def)
  then have v: "senv_view env (prop_view_id (snd_proposal (att_state att))) = Some (snd_view (att_state att))"
    by (auto simp: attempt_ok_def dest: verified_stateD(2))
  have "authorized_now (sys_core s) (snd_view (att_state att)) now"
    using core attempt_compiled [OF core a] h g clock call(3)
    by (intro granted_authorized [OF assms(3) v]) (simp_all add: core_inv_def held_ok_def)
  with h a call clock show ?thesis
    by (intro exI [of _ f] exI [of _ "att_state att"]) (auto simp: held_ok_def attempt_ok_def covers_def)
qed

lemma sx_authority_binding: "authority_binding sx_env"
proof -
  have refs: "map relied_entry (view_mandate_version_set sx_view) = [(11, 2, sx_digest)]"
    by (simp add: sx_view_def relied_entry_def)
  have other: "sx_hash j = sx_digest" if "j = j_authority entries" "j \<noteq> sx_authority" for j entries
    using that by (simp add: sx_hash_def j_authority_def)
  have "j_authority entries = sx_authority" if "sx_hash (j_authority entries) = sx_hash sx_authority" for entries
    using that other [OF refl, of entries] by (cases "j_authority entries = sx_authority") (auto simp: sx_hash_def sx_digest_def)
  then show ?thesis
    by (auto simp: authority_binding_def relied_authority_hash_def refs sx_env_def simp flip: sx_authority_def)
qed

theorem authority_at_the_call_witness:
  "\<exists>s f. reachable sx_env s \<and> sys_fence s = Some f \<and> 1000000 < instant (fence_expires_at f) \<and>
     authorized_now (sys_core s) sx_view 1000000"
proof -
  obtain t where t: "advance sx_env (Worker 0 Continue) (sx_run sx_ready) = Some t" "sys_calls t = sx_call"
    using sx_run(6) [OF sx_ready_reading] by blast
  have s: "reachable sx_env (sx_run sx_ready)" "sys_calls (sx_run sx_ready) = []"
    by (rule sx_run [OF sx_ready_reading])+
  have "sys_calls t = (0, sx_execution, 1000000) # sys_calls (sx_run sx_ready)"
    using t(2) s(2) by (simp add: sx_call_def)
  from authority_at_the_call [OF s(1) sx_distinct_owners sx_authority_binding t(1) this]
  obtain f st where f: "sys_fence (sx_run sx_ready) = Some f" "1000000 < instant (fence_expires_at f)"
    and st: "verified_state sx_env 0 st" "authorized_now (sys_core (sx_run sx_ready)) (snd_view st) 1000000" by blast
  from verified_stateD(2) [OF st(1)] have "snd_view st = sx_view" by (simp add: sx_env_def)
  with s(1) f st(2) show ?thesis by auto
qed

text \<open>
  C5. The fence orders every command against a send except the Monitor. Let a worker have passed its
  revalidation, in any reachable state, and its fence be live. Then the case row's fence is this one and the
  worker's view is not of a later epoch than the case. Any single move that changes the authorization epoch
  is a Monitor application, which raises it by one and leaves every mandate pointer and version in place. And
  where the case is in a state the Monitor links to, such a move is possible, with the fence held
  throughout, and the mail service is then called under a view of an epoch the case has left.
\<close>

theorem epoch_moves_under_live_fence:
  assumes "reachable env s" "distinct_owners env"
    and "sys_phase s w = Resolving att f" "sys_clock s < instant (fence_expires_at f)"
  shows "sys_fence s = Some f \<and> view_epoch att \<le> case_epoch s \<and>
    (\<forall>c t. advance env c s = Some t \<longrightarrow> case_epoch t \<noteq> case_epoch s \<longrightarrow>
       (\<exists>reports facts. c = Monitor reports facts) \<and> case_epoch t = case_epoch s + 1 \<and>
       core_pointers (sys_core t) = core_pointers (sys_core s) \<and> core_versions (sys_core t) = core_versions (sys_core s)) \<and>
    (case_current_state (core_case (sys_core s)) \<in> set MONITOR_LINKABLE_CASE_STATES \<longrightarrow>
       (\<forall>reports facts. \<exists>u t. advance env (Monitor reports facts) s = Some u \<and> sys_fence u = Some f \<and>
          case_epoch u = case_epoch s + 1 \<and> moves env [Worker w (Resolution None), Worker w Continue] u = Some t \<and>
          sys_calls t = (w, target_of env w, sys_clock s) # sys_calls s \<and> sys_fence t = Some f \<and>
          view_epoch att < case_epoch t))"
proof (intro conjI allI impI)
  note held = resolving_held [OF assms]
  show "sys_fence s = Some f" "view_epoch att \<le> case_epoch s" by (rule held)+
  have live: "\<not> expired_or_absent (sys_clock s) (sys_fence s)" using held(2) assms(4) by (simp add: expired_or_absent_def)
  fix c t
  assume step: "advance env c s = Some t" "case_epoch t \<noteq> case_epoch s"
  note m = epoch_moves [OF step(1) live step(2)]
  then show "\<exists>reports facts. c = Monitor reports facts" "case_epoch t = case_epoch s + 1" by blast+
  from m have "\<not> is_worker c" by auto
  from other_core(3) [OF step(1) this live]
  show "core_pointers (sys_core t) = core_pointers (sys_core s)" "core_versions (sys_core t) = core_versions (sys_core s)"
    by (simp_all add: same_authority_def)
next
  note held = resolving_held [OF assms]
  fix reports facts
  assume "case_current_state (core_case (sys_core s)) \<in> set MONITOR_LINKABLE_CASE_STATES"
  then show "\<exists>u t. advance env (Monitor reports facts) s = Some u \<and> sys_fence u = Some f \<and>
      case_epoch u = case_epoch s + 1 \<and> moves env [Worker w (Resolution None), Worker w Continue] u = Some t \<and>
      sys_calls t = (w, target_of env w, sys_clock s) # sys_calls s \<and> sys_fence t = Some f \<and> view_epoch att < case_epoch t"
    using held assms(3,4)
    by (simp add: monitor_commit_def Let_def case_at_step_def work_def work_at_def on_continue_def do_resolve_def
        do_call_def fence_lapsed_def goto_def)
qed

theorem epoch_moves_under_live_fence_witness:
  "\<exists>s f u t. reachable sx_env s \<and> sys_fence s = Some f \<and> sys_clock s < instant (fence_expires_at f) \<and>
     advance sx_env (Monitor [Ident 8] [Ident 9]) s = Some u \<and> sys_fence u = Some f \<and> case_epoch u = 4 \<and>
     moves sx_env [Worker 0 (Resolution None), Worker 0 Continue] u = Some t \<and> sys_calls t = sx_call \<and>
     sys_fence t = Some f \<and> view_authorization_version sx_view = 3"
proof -
  from sx_resolving obtain s where s: "moves sx_env (sx_claims @ sx_authorizes) sx_initial = Some s" "sx_resolving s" by auto
  from s(2) obtain att f where ph: "sys_phase s 0 = Resolving att f" "instant (fence_expires_at f) = 61000000"
    by (auto simp: sx_resolving_def split: phase.splits)
  have clock: "sys_clock s = 1000000" "sys_clock s < instant (fence_expires_at f)" using s(2) ph(2) by (simp_all add: sx_resolving_def)
  have reach: "reachable sx_env s" by (rule reachable_moves [OF reachable.start [OF sx_initial] s(1)])
  have link: "case_current_state (core_case (sys_core s)) \<in> set MONITOR_LINKABLE_CASE_STATES"
    using s(2) by (simp add: sx_resolving_def MONITOR_LINKABLE_CASE_STATES_def)
  from epoch_moves_under_live_fence [OF reach sx_distinct_owners ph(1) clock(2)] link
  obtain u t where "sys_fence s = Some f" "advance sx_env (Monitor [Ident 8] [Ident 9]) s = Some u" "sys_fence u = Some f"
    "case_epoch u = case_epoch s + 1" "moves sx_env [Worker 0 (Resolution None), Worker 0 Continue] u = Some t"
    "sys_calls t = (0, target_of sx_env 0, sys_clock s) # sys_calls s" "sys_fence t = Some f" by blast
  moreover have "target_of sx_env 0 = sx_execution" by (simp add: sx_env_def sx_command_def)
  moreover have "case_epoch s = 3" "sys_calls s = []" "view_authorization_version sx_view = 3"
    using s(2) by (simp_all add: sx_resolving_def sx_view_def)
  ultimately show ?thesis
    using reach clock by (intro exI [of _ s] exI [of _ f] exI [of _ u] exI [of _ t]) (simp add: sx_call_def)
qed

text \<open>
  Reconciliation may quarantine an execution whose sender is only slow to reach the fence: a send can
  start after the execution was already recorded as unknown.
\<close>

lemma quarantined_execution_sent:
  "\<exists>env s c t w e now. reachable env s \<and> distinct_owners env \<and>
     map_option exec_state (sys_rows s e) = Some EX_SEND_UNKNOWN \<and>
     advance env c s = Some t \<and> sys_calls t = (w, e, now) # sys_calls s"
proof -
  note run = sx_run [OF sx_stalled_reading]
  from run(6) obtain t where t: "advance sx_env (Worker 0 Continue) (sx_run sx_stalled) = Some t"
    "sys_calls t = [(0, sx_execution, 61000000)]" by blast
  with run(1,2,4) sx_distinct_owners show ?thesis
    by (intro exI [of _ sx_env] exI [of _ "sx_run sx_stalled"] exI [of _ "Worker 0 Continue"] exI [of _ t]
        exI [of _ "0 :: nat"] exI [of _ sx_execution] exI [of _ "61000000 :: int"]) simp
qed

section \<open>The grant\<close>

definition sx_reads :: shareable_reads where
  "sx_reads = \<lparr>sr_view = sx_view, sr_view_pointer = Some sx_view_pointer, sr_action_pointer = Some sx_action_pointer,
     sr_proposal = sx_proposal, sr_approval = sx_approval\<rparr>"

lemma granted_fence:
  assumes "authorize H cfg r core s row now now' later = (Inr (SendGranted f replayed), row')"
  shows "row' = Some f \<and> fence_execution_id f = req_execution_id r \<and>
    (expired_or_absent (instant now) row \<and>
       instant (fence_expires_at f) - instant now \<in> {MIN_SEND_FENCE_WINDOW..SEND_FENCE_LIFETIME} \<and>
       instant (fence_expires_at f) \<le> instant (view_expires_at (sr_view s)) \<and>
       instant (fence_expires_at f) \<le> instant (appr_expires_at (sr_approval s)) \<and>
       (\<exists>ms. live_relied_mandates core (view_mandate_version_set (sr_view s)) = Inr (Some ms) \<and>
          (\<forall>e\<in>set (List.map_filter mandate_expires_at ms). instant (fence_expires_at f) \<le> instant e))
     \<or> row = Some f \<and> replayed \<and> instant now < instant (fence_expires_at f))"
proof -
  from assms obtain found where found: "live_relied_mandates core (view_mandate_version_set (sr_view s)) = Inr found"
    by (auto simp: authorize_def split: sum.splits)
  let ?exp = "fence_expiry (sr_view s) (sr_approval s) found now"
  let ?f = "requested_fence r now ?exp"
  have short: "\<not> window_too_short ?exp now"
    using assms by (auto simp: authorize_def found Let_def split: if_splits)
  from assms short obtain row1 acquired arts where acq: "acquire_send_fence ?f row row = Inr (row1, acquired)"
    and f: "f = acquired" "row' = row1" "replayed = opt_test (\<lambda>h. fence_execution_id h = req_execution_id r) row"
    and den: "denials_of H cfg r (core_case core) (sr_view s) (sr_view_pointer s) (sr_action_pointer s) arts found now' = []"
    by (auto simp: authorize_def found Let_def split: if_splits sum.splits prod.splits)
  from den obtain ms where ms: "found = Some ms" by (auto simp: denials_of_Nil_iff mandate_denials_Nil_iff)
  show ?thesis
  proof (cases "expired_or_absent (instant now) row")
    case True
    then have "f = ?f" "row' = Some ?f"
      using acq f by (auto simp: acquire_send_fence_def put_fence_def requested_fence_def)
    moreover have "\<forall>e\<in>set (List.map_filter mandate_expires_at ms). instant ?exp \<le> instant e"
      using fence_expiry_le(4) [OF short ms] by (auto simp: map_filter_def)
    ultimately show ?thesis
      using True fence_expiry_le(1-3) [OF short] short found ms
      by (auto simp: requested_fence_def window_too_short_def)
  next
    case False
    then obtain g where g: "row = Some g" "instant now < instant (fence_expires_at g)"
      by (auto simp: expired_or_absent_def split: option.splits)
    with acq f False show ?thesis
      by (auto simp: acquire_send_fence_def put_fence_def fence_after_conflict_def requested_fence_def
          expired_or_absent_def split: if_splits)
  qed
qed


text \<open>
  C28. When nothing else moves, a granted fence is stored and belongs to the request's execution. Either it is
  new: then no live fence stood before, it lasts between five and sixty seconds from now and not beyond
  the view, the approval or any relied mandate. Or it is the execution's own live fence, unchanged.
\<close>

theorem granted_fence_window:
  assumes "authorize H cfg r core s row now now' later = (Inr (SendGranted f replayed), row')"
  shows "row' = Some f \<and> fence_execution_id f = req_execution_id r \<and>
    (expired_or_absent (instant now) row \<and>
       instant (fence_expires_at f) - instant now \<in> {MIN_SEND_FENCE_WINDOW..SEND_FENCE_LIFETIME} \<and>
       instant (fence_expires_at f) \<le> instant (view_expires_at (sr_view s)) \<and>
       instant (fence_expires_at f) \<le> instant (appr_expires_at (sr_approval s)) \<and>
       (\<exists>ms. live_relied_mandates core (view_mandate_version_set (sr_view s)) = Inr (Some ms) \<and>
          (\<forall>e\<in>set (List.map_filter mandate_expires_at ms). instant (fence_expires_at f) \<le> instant e))
     \<or> row = Some f \<and> replayed \<and> instant now < instant (fence_expires_at f))"
  using assms by (rule granted_fence)

theorem granted_fence_window_witness:
  "\<exists>f. authorize sx_hash (senv_authority sx_env) (authorization_request sx_proposal sx_view sx_approval (utc 1000000))
       (sys_core sx_initial) sx_reads None (utc 1000000) 1000000 1000000 = (Inr (SendGranted f False), Some f) \<and>
     instant (fence_expires_at f) - 1000000 \<in> {MIN_SEND_FENCE_WINDOW..SEND_FENCE_LIFETIME}"
proof -
  let ?r = "authorization_request sx_proposal sx_view sx_approval (utc 1000000)"
  let ?f = "requested_fence ?r (utc 1000000) (utc 61000000)"
  have grant: "authorize sx_hash (senv_authority sx_env) ?r (sys_core sx_initial) sx_reads None (utc 1000000) 1000000 1000000 =
      (Inr (SendGranted ?f False), Some ?f)" by code_simp
  with granted_fence_window [OF grant] show ?thesis by (intro exI [of _ ?f]) simp
qed

section \<open>A send that nobody disturbs\<close>





section \<open>The rows\<close>








end
