(* ===== verification/Evidence_Status.thy ===== *)
theory Evidence_Status
  imports Canonical Independence "HOL-Library.AList"
begin

text \<open>
  \<open>src/chorus/application/services/evidence_status.py\<close>: the deterministic status of every active
  fact of a case, and the ladder on which a model's proposal may only lower it. A dictionary that
  is built in a loop is an association list in insertion order, updated by \<open>AList.update\<close>.
\<close>

section \<open>The claim a fact makes\<close>

text \<open>A fact value is a dataclass: its canonical form is the object of its fields.\<close>

fun j_fact_value :: "fact_value \<Rightarrow> jval" where
  "j_fact_value (IncidentOccurrence at m e) = JObj
     [(''occurred_at'', j_time at), (''failure_mode'', JStr (failure_mode_text m)), (''equipment'', JStr e)]"
| "j_fact_value (ServiceImpact c s) = JObj
     [(''impact_code'', JStr (impact_code_text c)), (''summary'', JStr s)]"
| "j_fact_value (LocationArea a) = JObj [(''area'', JStr (location_area_text a))]"
| "j_fact_value (IdentityAttribute n) = JObj [(''display_name'', JStr n)]"
| "j_fact_value (UnitLocation u) = JObj [(''unit_label'', JStr u)]"
| "j_fact_value (HealthDetail r d) = JObj
     [(''subject_relation'', JStr (subject_relation_text r)), (''detail'', JStr d)]"
| "j_fact_value (ManagementStatement s org at) = JObj
     [(''statement'', JStr s), (''speaker_org'', JStr org), (''stated_at'', j_time at)]"
| "j_fact_value (Contradiction ids s) = JObj
     [(''statement_fact_ids'', j_list j_ident ids), (''summary'', JStr s)]"
| "j_fact_value (CommitmentTerm e a d v) = JObj
     [(''obligor'', JStr e), (''action_text'', JStr a), (''due_at'', j_time d), (''verification_method'', JStr v)]"
| "j_fact_value (EvidenceDescription d k) = JObj
     [(''description'', JStr d), (''media_kind'', JStr (media_kind_text k))]"

definition fact_support_key :: "hasher \<Rightarrow> fact \<Rightarrow> fact_type \<times> digest" where
  "fact_support_key H f = (fact_type f, H (j_fact_value (fact_value f)))"

section \<open>Computed statuses\<close>

definition active_facts :: "fact list \<Rightarrow> fact list" where
  "active_facts facts = filter (\<lambda>f. fact_status f = FS_ACTIVE) facts"

text \<open>The keys whose group of facts reaches the independence minimum.\<close>

definition corroborated_keys ::
    "hasher \<Rightarrow> fact list \<Rightarrow> report list \<Rightarrow> evidence_item list \<Rightarrow> evidence_root list \<Rightarrow>
     (fact_type \<times> digest) list result" where
  "corroborated_keys H active reports items roots =
     bindE (map_result (\<lambda>(k, members). bindE (independent_source_count members reports items roots)
              (\<lambda>n. Inr (k, n \<ge> CORROBORATION_MIN)))
            (group_all (fact_support_key H) id active))
       (\<lambda>counted. Inr (map fst (filter snd counted)))"

definition status_of :: "hasher \<Rightarrow> (fact_type \<times> digest) list \<Rightarrow> fact_id set \<Rightarrow> fact \<Rightarrow> evidence_status" where
  "status_of H keys contradicted f =
     (if fact_id f \<in> contradicted then ES_CONTRADICTED
      else if fact_support_key H f \<in> set keys then ES_CORROBORATED else ES_REPORTED)"

definition compute_statuses ::
    "hasher \<Rightarrow> fact list \<Rightarrow> report list \<Rightarrow> evidence_item list \<Rightarrow> evidence_root list \<Rightarrow> fact_id set \<Rightarrow>
     (fact_id \<times> evidence_status) list result" where
  "compute_statuses H facts reports items roots contradicted =
     (let active = active_facts facts in
      bindE (corroborated_keys H active reports items roots) (\<lambda>keys.
        Inr (fold (\<lambda>f. AList.update (fact_id f) (status_of H keys contradicted f)) active [])))"

section \<open>The ladder\<close>

definition LADDER :: "evidence_status list" where
  "LADDER = [ES_VERIFIED, ES_CORROBORATED, ES_REPORTED, ES_UNKNOWN]"

definition LADDER_RANK :: "evidence_status \<Rightarrow> nat option" where
  "LADDER_RANK = map_of (zip LADDER [0..<length LADDER])"

text \<open>\<open>_LADDER_RANK[status]\<close>.\<close>

definition ladder_rank :: "evidence_status \<Rightarrow> nat result" where
  "ladder_rank s = (case LADDER_RANK s of None \<Rightarrow> Inl (KeyError (evidence_status_text s)) | Some n \<Rightarrow> Inr n)"

definition CONTRADICTION_CITED :: string where "CONTRADICTION_CITED = ''CONTRADICTION_CITED''"
definition MULTIPLE_INDEPENDENT_SOURCES :: string where
  "MULTIPLE_INDEPENDENT_SOURCES = ''MULTIPLE_INDEPENDENT_SOURCES''"
definition SINGLE_SOURCE :: string where "SINGLE_SOURCE = ''SINGLE_SOURCE''"
definition MODEL_LOWERED_STATUS :: string where "MODEL_LOWERED_STATUS = ''MODEL_LOWERED_STATUS''"

record resolved_status =
  res_fact_id :: fact_id
  res_computed :: evidence_status
  res_proposed :: "evidence_status option"
  res_resolved :: evidence_status
  res_reason_code :: string
  res_overclaimed :: bool

definition computed_reason :: "evidence_status \<Rightarrow> string" where
  "computed_reason c =
     (if c = ES_CONTRADICTED then CONTRADICTION_CITED
      else if c = ES_CORROBORATED then MULTIPLE_INDEPENDENT_SOURCES else SINGLE_SOURCE)"

definition resolve_status ::
    "fact_id \<Rightarrow> evidence_status \<Rightarrow> evidence_status option \<Rightarrow> resolved_status result" where
  "resolve_status i c proposed =
     (if c = ES_CONTRADICTED
      then Inr \<lparr>res_fact_id = i, res_computed = c, res_proposed = proposed, res_resolved = ES_CONTRADICTED,
             res_reason_code = CONTRADICTION_CITED, res_overclaimed = False\<rparr>
      else case proposed of
        None \<Rightarrow> Inr \<lparr>res_fact_id = i, res_computed = c, res_proposed = proposed, res_resolved = c,
             res_reason_code = computed_reason c, res_overclaimed = False\<rparr>
      | Some p \<Rightarrow>
          if p = ES_CONTRADICTED
          then Inr \<lparr>res_fact_id = i, res_computed = c, res_proposed = proposed, res_resolved = c,
                 res_reason_code = computed_reason c, res_overclaimed = False\<rparr>
          else bindE (ladder_rank p) (\<lambda>rp. bindE (ladder_rank c) (\<lambda>rc.
            if rp > rc
            then Inr \<lparr>res_fact_id = i, res_computed = c, res_proposed = proposed, res_resolved = p,
                   res_reason_code = MODEL_LOWERED_STATUS, res_overclaimed = False\<rparr>
            else Inr \<lparr>res_fact_id = i, res_computed = c, res_proposed = proposed, res_resolved = c,
                   res_reason_code = computed_reason c, res_overclaimed = rp < rc\<rparr>)))"

section \<open>Two independent accounts of one claim\<close>

text \<open>Two facts of the list make the same claim from different contributors and different origins.\<close>

definition twice_attested ::
    "hasher \<Rightarrow> fact list \<Rightarrow> report list \<Rightarrow> evidence_item list \<Rightarrow> evidence_root list \<Rightarrow> fact \<Rightarrow> bool" where
  "twice_attested H facts reports items roots f \<longleftrightarrow>
     (\<exists>g\<in>set facts. \<exists>h\<in>set facts. \<exists>s t.
        fact_support_key H g = fact_support_key H f \<and> fact_support_key H h = fact_support_key H f \<and>
        fact_contributor_id g \<noteq> fact_contributor_id h \<and> s \<noteq> t \<and>
        contributes reports items roots g s \<and> contributes reports items roots h t)"

lemma map_of_fold_update:
  "map_of (fold (\<lambda>f. AList.update (key f) (v f)) fs d) k =
     (case List.find (\<lambda>f. key f = k) (rev fs) of Some f \<Rightarrow> Some (v f) | None \<Rightarrow> map_of d k)"
proof (induction fs arbitrary: d)
  case (Cons f fs)
  show ?case by (simp add: Cons find_append update_conv split: option.splits)
qed simp

lemma find_distinct:
  assumes "distinct (map key fs)" "f \<in> set fs"
  shows "List.find (\<lambda>g. key g = key f) (rev fs) = Some f"
proof (cases "List.find (\<lambda>g. key g = key f) (rev fs)")
  case None
  with assms(2) show ?thesis by (auto simp: find_None_iff)
next
  case (Some g)
  with find_SomeD [OF Some] assms inj_on_distinct_key [of key fs g f] show ?thesis by simp
qed

end
