(* ===== verification/Status_Properties.thy ===== *)
theory Status_Properties
  imports Evidence_Properties Evidence_Status Policy
begin

text \<open>
  What an evidence status says: when \<open>compute_statuses\<close> gives each status, and that a model's
  proposal only ever lowers it (\<open>src/chorus/application/services/evidence_status.py\<close>).
\<close>

lemma count_two_iff:
  assumes "independent_source_count facts reports items roots = Inr n"
  shows "CORROBORATION_MIN \<le> n \<longleftrightarrow>
    (\<exists>f\<in>set facts. \<exists>g\<in>set facts. \<exists>s t. fact_contributor_id f \<noteq> fact_contributor_id g \<and> s \<noteq> t \<and>
       contributes reports items roots f s \<and> contributes reports items roots g t)"
proof -
  from assms obtain res where res: "independent_sources facts reports items roots = Inr res" and n: "n = independence_result.count res"
    by (auto simp: independent_source_count_def result_simps)
  show ?thesis unfolding n CORROBORATION_MIN_def by (rule two_sources_iff [OF res])
qed

text \<open>The members of a group are the facts with its key, so a group's pair is a pair for the key.\<close>

lemma twice_attested_group:
  "twice_attested H facts reports items roots f \<longleftrightarrow>
     (let members = filter (\<lambda>g. fact_support_key H g = fact_support_key H f) facts in
      \<exists>g\<in>set members. \<exists>h\<in>set members. \<exists>s t. fact_contributor_id g \<noteq> fact_contributor_id h \<and> s \<noteq> t \<and>
        contributes reports items roots g s \<and> contributes reports items roots h t)"
  unfolding twice_attested_def Let_def by auto

lemma list_all2_mem:
  assumes "list_all2 P xs ys"
  shows "x \<in> set xs \<Longrightarrow> \<exists>y\<in>set ys. P x y" "y \<in> set ys \<Longrightarrow> \<exists>x\<in>set xs. P x y"
  using assms by (metis in_set_conv_nth list_all2_conv_all_nth)+

lemma corroborated_keys_iff:
  assumes keys: "corroborated_keys H facts reports items roots = Inr keys" and f: "f \<in> set facts"
  shows "fact_support_key H f \<in> set keys \<longleftrightarrow> twice_attested H facts reports items roots f"
proof -
  let ?k = "fact_support_key H f"
  let ?ms = "filter (\<lambda>g. fact_support_key H g = ?k) facts"
  let ?groups = "group_all (fact_support_key H) id facts"
  let ?min = "\<lambda>(k, members). bindE (independent_source_count members reports items roots)
    (\<lambda>n. Inr (k, CORROBORATION_MIN \<le> n))"
  from keys obtain counted where counted: "list_all2 (\<lambda>x y. ?min x = Inr y) ?groups counted"
    and ks: "keys = map fst (filter snd counted)"
    by (auto simp: corroborated_keys_def result_simps map_result_Inr_iff)
  have group: "(k, ms) \<in> set ?groups \<longleftrightarrow> ms = filter (\<lambda>g. fact_support_key H g = k) facts \<and> ms \<noteq> []" for k ms
    by (simp add: group_all_mem_iff)
  have mine: "(?k, ?ms) \<in> set ?groups" using f by (auto simp: group filter_empty_conv)
  have "?k \<in> set keys \<longleftrightarrow> (\<exists>n. independent_source_count ?ms reports items roots = Inr n \<and> CORROBORATION_MIN \<le> n)"
  proof
    assume "?k \<in> set keys"
    then have "(?k, True) \<in> set counted" by (auto simp: ks)
    from list_all2_mem(2) [OF counted this] obtain x where x: "x \<in> set ?groups" "?min x = Inr (?k, True)" by blast
    obtain k ms where "x = (k, ms)" by (cases x)
    with x show "\<exists>n. independent_source_count ?ms reports items roots = Inr n \<and> CORROBORATION_MIN \<le> n"
      by (auto simp: group result_simps)
  next
    assume "\<exists>n. independent_source_count ?ms reports items roots = Inr n \<and> CORROBORATION_MIN \<le> n"
    then have "?min (?k, ?ms) = Inr (?k, True)" by (auto simp: result_simps)
    moreover from list_all2_mem(1) [OF counted mine] obtain y where y: "y \<in> set counted" "?min (?k, ?ms) = Inr y" by blast
    ultimately have "(?k, True) \<in> set counted" by simp
    then show "?k \<in> set keys" by (force simp: ks)
  qed
  moreover from list_all2_mem(1) [OF counted mine] obtain n where "independent_source_count ?ms reports items roots = Inr n"
    by (auto simp: result_simps)
  ultimately show ?thesis
    using count_two_iff by (simp add: twice_attested_group Let_def)
qed

lemma compute_statuses_entry:
  assumes "compute_statuses H facts reports items roots contradicted = Inr statuses"
  obtains keys where "corroborated_keys H (active_facts facts) reports items roots = Inr keys"
    "statuses = fold (\<lambda>f. AList.update (fact_id f) (status_of H keys contradicted f)) (active_facts facts) []"
  using assms by (auto simp: compute_statuses_def Let_def result_simps)

text \<open>
  C26. The status of an active fact: \<open>CONTRADICTED\<close> exactly when it is cited, else \<open>CORROBORATED\<close> exactly
  when two active facts of different contributors and different origins make byte for byte the same
  claim, else \<open>REPORTED\<close>; no other fact has a status.
\<close>

theorem statuses_are_earned:
  assumes "compute_statuses H facts reports items roots contradicted = Inr statuses"
    and "distinct (map fact_id (active_facts facts))"
  shows "map_of statuses i =
    (case List.find (\<lambda>f. fact_id f = i) (active_facts facts) of
       None \<Rightarrow> None
     | Some f \<Rightarrow> Some
         (if i \<in> contradicted then ES_CONTRADICTED
          else if twice_attested H (active_facts facts) reports items roots f then ES_CORROBORATED else ES_REPORTED))"
proof -
  let ?active = "active_facts facts"
  from compute_statuses_entry [OF assms(1)] obtain keys where
    keys: "corroborated_keys H ?active reports items roots = Inr keys" and
    st: "statuses = fold (\<lambda>f. AList.update (fact_id f) (status_of H keys contradicted f)) ?active []" .
  show ?thesis
  proof (cases "List.find (\<lambda>f. fact_id f = i) ?active")
    case None
    then have "List.find (\<lambda>f. fact_id f = i) (rev ?active) = None" by (simp add: find_None_iff)
    with None show ?thesis by (simp add: st map_of_fold_update)
  next
    case (Some f)
    from find_SomeD [OF Some] have f: "fact_id f = i" "f \<in> set ?active" by auto
    from find_distinct [OF assms(2) f(2)] f(1) have "map_of statuses i = Some (status_of H keys contradicted f)"
      by (simp add: st map_of_fold_update)
    with Some f corroborated_keys_iff [OF keys f(2)] show ?thesis by (simp add: status_of_def)
  qed
qed

text \<open>Three accounts of one event, two of them on one photograph: the digest tells claims apart by their text.\<close>

definition w_claim :: hasher where
  "w_claim j = (if j = j_fact_value (LocationArea LA_LOBBY) then Sha256Digest ''sha256:1'' else Sha256Digest ''sha256:0'')"

lemma w_statuses:
  "compute_statuses w_claim w_facts w_reports w_items w_roots {Ident 33} =
     Inr [(Ident 31, ES_CORROBORATED), (Ident 32, ES_CORROBORATED), (Ident 33, ES_CONTRADICTED)]"
  by code_simp

theorem statuses_are_earned_witness:
  "twice_attested w_claim (active_facts w_facts) w_reports w_items w_roots (w_fact 1 [Ident 51])"
proof -
  have "distinct (map fact_id (active_facts w_facts))"
    "List.find (\<lambda>f. fact_id f = Ident 31) (active_facts w_facts) = Some (w_fact 1 [Ident 51])" by code_simp+
  with statuses_are_earned [OF w_statuses, of "Ident 31"] show ?thesis by (simp split: if_splits)
qed

lemma computed_statuses:
  assumes "compute_statuses H facts reports items roots contradicted = Inr statuses" "map_of statuses i = Some c"
  shows "c \<in> {ES_CONTRADICTED, ES_CORROBORATED, ES_REPORTED}"
proof -
  from compute_statuses_entry [OF assms(1)] obtain keys where
    "statuses = fold (\<lambda>f. AList.update (fact_id f) (status_of H keys contradicted f)) (active_facts facts) []" .
  with assms(2) have "\<exists>f. c = status_of H keys contradicted f"
    by (simp add: map_of_fold_update split: option.splits) blast
  then show ?thesis by (auto simp: status_of_def split: if_splits)
qed

text \<open>
  C27. A model only ever lowers a status. For a computed status and any proposal \<open>resolve_status\<close> returns;
  a contradiction stands, and nothing else becomes one; otherwise the resolved status is the weaker of
  the two on the ladder, so \<open>VERIFIED\<close> is never granted, and a stronger proposal is reported as an
  overclaim.
\<close>

theorem resolved_status_only_lowers:
  assumes "compute_statuses H facts reports items roots contradicted = Inr statuses" "map_of statuses i = Some c"
  shows "\<exists>r. resolve_status i c proposed = Inr r \<and> res_resolved r \<noteq> ES_VERIFIED \<and>
    (res_resolved r = ES_CONTRADICTED \<longleftrightarrow> c = ES_CONTRADICTED) \<and>
    (res_overclaimed r \<longleftrightarrow> c \<noteq> ES_CONTRADICTED \<and>
       (\<exists>p n m. proposed = Some p \<and> LADDER_RANK p = Some n \<and> LADDER_RANK c = Some m \<and> n < m)) \<and>
    (c \<noteq> ES_CONTRADICTED \<longrightarrow> (\<exists>n m. LADDER_RANK c = Some n \<and> LADDER_RANK (res_resolved r) = Some m \<and>
       m = (case Option.bind proposed LADDER_RANK of None \<Rightarrow> n | Some k \<Rightarrow> max n k)))"
proof -
  have rank: "LADDER_RANK ES_VERIFIED = Some 0" "LADDER_RANK ES_CORROBORATED = Some 1" "LADDER_RANK ES_REPORTED = Some 2"
    "LADDER_RANK ES_UNKNOWN = Some 3" "LADDER_RANK ES_CONTRADICTED = None" by code_simp+
  from computed_statuses [OF assms] consider "c = ES_CONTRADICTED" | "c = ES_CORROBORATED" | "c = ES_REPORTED" by blast
  then show ?thesis
  proof cases
    case 1
    then show ?thesis by (simp add: resolve_status_def)
  next
    case 2
    show ?thesis
    proof (cases proposed)
      case (Some p)
      with 2 show ?thesis by (cases p) (simp_all add: resolve_status_def ladder_rank_def rank)
    qed (use 2 in \<open>simp add: resolve_status_def rank\<close>)
  next
    case 3
    show ?thesis
    proof (cases proposed)
      case (Some p)
      with 3 show ?thesis by (cases p) (simp_all add: resolve_status_def ladder_rank_def rank)
    qed (use 3 in \<open>simp add: resolve_status_def rank\<close>)
  qed
qed

theorem resolved_status_only_lowers_witness:
  "\<exists>r. resolve_status (Ident 31) ES_CORROBORATED (Some ES_VERIFIED) = Inr r \<and> res_resolved r \<noteq> ES_VERIFIED \<and> res_overclaimed r"
proof -
  have "map_of [(Ident 31, ES_CORROBORATED), (Ident 32, ES_CORROBORATED), (Ident 33, ES_CONTRADICTED)] (Ident 31) =
      Some ES_CORROBORATED" by simp
  moreover have "LADDER_RANK ES_VERIFIED = Some 0" "LADDER_RANK ES_CORROBORATED = Some 1" by code_simp+
  ultimately show ?thesis
    using resolved_status_only_lowers [OF w_statuses, of "Ident 31" ES_CORROBORATED "Some ES_VERIFIED"] by auto
qed

end
