(* ===== verification/Calendar.thy ===== *)
theory Calendar
  imports Canonical
begin

text \<open>
  \<open>parse_utc\<close> of \<open>src/chorus/domain/time.py\<close>: the inverse of the canonical text of an instant.
  \<open>datetime.fromisoformat\<close> reads more spellings than the canonical one; each of them fails the
  comparison with its own canonical text, so the model refuses it where it reads the text.
\<close>

section \<open>The day number of a date\<close>

definition days_of_civil :: "int \<Rightarrow> int \<Rightarrow> int \<Rightarrow> int" where
  "days_of_civil y m d =
     (let y' = (if m \<le> 2 then y - 1 else y);
          mp = (if m \<le> 2 then m + 9 else m - 3);
          doy = (153 * mp + 2) div 5 + d - 1;
          doe = y' mod 400 * 365 + y' mod 400 div 4 - y' mod 400 div 100 + doy
      in y' div 400 * 146097 + doe - 719468)"

text \<open>The first day of a year of the 400-year cycle, and the days that are not leap days before a day.\<close>

definition year_start :: "int \<Rightarrow> int" where
  "year_start y = 365 * y + y div 4 - y div 100 + y div 400"

definition common_days :: "int \<Rightarrow> int" where
  "common_days n = n - n div 1460 + n div 36524 - n div 146096"

lemma div_succ:
  fixes n k :: int
  assumes "0 < k"
  shows "(n + 1) div k = n div k + (if (n + 1) mod k = 0 then 1 else 0)"
proof -
  have n: "n + 1 = n mod k + 1 + k * (n div k)" by simp
  have "(n + 1) div k = n div k + (n mod k + 1) div k"
    by (subst n) (use assms in \<open>simp only: div_mult_self2\<close>)
  moreover have "(n + 1) mod k = (n mod k + 1) mod k" by (simp add: mod_add_left_eq)
  moreover have "n mod k + 1 \<le> k" using assms by (simp add: add1_zle_eq)
  ultimately show ?thesis
    using assms pos_mod_sign [OF assms, of n] by (cases "n mod k + 1 = k") (simp_all add: zmod_trivial_iff)
qed

lemma common_days_Suc: "common_days n \<le> common_days (n + 1)"
proof -
  have "(n + 1) mod 36524 = 0" if "(n + 1) mod 146096 = 0"
  proof -
    from that obtain q where "n + 1 = 146096 * q" by fastforce
    then have "n + 1 = 36524 * (4 * q)" by simp
    then show ?thesis by (metis mod_mult_self1_is_0)
  qed
  then show ?thesis by (simp add: common_days_def div_succ)
qed

lemma common_days_mono: "m \<le> n \<Longrightarrow> common_days m \<le> common_days n"
proof (induction n rule: int_ge_induct)
  case (step i)
  with common_days_Suc [of i] show ?case by linarith
qed simp

definition year_ok :: "int \<Rightarrow> bool" where
  "year_ok y \<longleftrightarrow> common_days (year_start y) div 365 = y \<and> common_days (year_start (y + 1) - 1) div 365 = y \<and>
     year_start (y + 1) - year_start y \<le> 366"

lemma years_ok: "list_all year_ok [0..399]"
  by code_simp

lemma year_of_day:
  assumes "0 \<le> n" "n < 146097"
  defines "y \<equiv> common_days n div 365"
  shows "0 \<le> y" "y < 400" "0 \<le> n - year_start y" "n - year_start y < 366"
proof -
  have "\<exists>y\<in>{0..399}. year_start y \<le> n \<and> n < year_start (y + 1)"
  proof (rule ccontr)
    assume none: "\<not> ?thesis"
    have "year_start (int k) \<le> n" if "k \<le> 400" for k :: nat
      using that
    proof (induction k)
      case (Suc k)
      then have "year_start (int k) \<le> n" by simp
      moreover from Suc.prems have "int k \<in> {0..399}" by simp
      ultimately show ?case using none by (metis add.commute not_le_imp_less of_nat_Suc)
    qed (use assms(1) in \<open>simp add: year_start_def\<close>)
    from this [of 400] assms(2) show False by (simp add: year_start_def)
  qed
  then obtain z where z: "z \<in> {0..399}" "year_start z \<le> n" "n \<le> year_start (z + 1) - 1" by auto
  with years_ok have ok: "year_ok z" by (simp add: list_all_iff)
  have "common_days (year_start z) div 365 \<le> y" "y \<le> common_days (year_start (z + 1) - 1) div 365"
    unfolding y_def by (intro zdiv_mono1 common_days_mono z(2,3); simp)+
  with ok have "y = z" by (simp add: year_ok_def)
  with z ok show "0 \<le> y" "y < 400" "0 \<le> n - year_start y" "n - year_start y < 366"
    by (auto simp: year_ok_def)
qed

definition month_ok :: "int \<Rightarrow> bool" where
  "month_ok doy \<longleftrightarrow>
     (let mp = (5 * doy + 2) div 153; d = doy - (153 * mp + 2) div 5 + 1 in 0 \<le> mp \<and> mp < 12 \<and> 1 \<le> d \<and> d \<le> 31)"

lemma months_ok: "list_all month_ok [0..365]"
  by code_simp

lemma month_day: "0 \<le> doy \<Longrightarrow> doy < 366 \<Longrightarrow> month_ok doy"
  using months_ok by (simp add: list_all_iff)

lemma civil_of_days_fields:
  assumes "civil_of_days n = (y, m, d)"
  shows "1 \<le> m" "m \<le> 12" "1 \<le> d" "d \<le> 31" "days_of_civil y m d = n"
proof -
  define era doe where "era = (n + 719468) div 146097" and "doe = (n + 719468) mod 146097"
  define yoe where "yoe = common_days doe div 365"
  define doy where "doy = doe - year_start yoe"
  define mp where "mp = (5 * doy + 2) div 153"
  have doe: "0 \<le> doe" "doe < 146097" by (simp_all add: doe_def)
  note yr = year_of_day [OF doe, folded yoe_def, folded doy_def]
  from month_day [OF yr(3,4)] have md: "0 \<le> mp" "mp < 12" "1 \<le> doy - (153 * mp + 2) div 5 + 1"
    "doy - (153 * mp + 2) div 5 + 1 \<le> 31" by (simp_all add: month_ok_def Let_def mp_def)
  have start: "year_start yoe = 365 * yoe + yoe div 4 - yoe div 100" using yr(1,2) by (simp add: year_start_def)
  let ?m = "if mp < 10 then mp + 3 else mp - 9"
  have "civil_of_days n = (yoe + era * 400 + (if ?m \<le> 2 then 1 else 0), ?m, doy - (153 * mp + 2) div 5 + 1)"
    unfolding civil_of_days_def Let_def mp_def doy_def start unfolding yoe_def common_days_def era_def doe_def ..
  from trans [OF assms [symmetric] this] have m: "m = ?m" and d: "d = doy - (153 * mp + 2) div 5 + 1"
    and "y = yoe + era * 400 + (if ?m \<le> 2 then 1 else 0)" by (simp_all only: prod.inject)
  then have y: "y = yoe + era * 400 + (if m \<le> 2 then 1 else 0)" by (simp only: m)
  show "1 \<le> m" "m \<le> 12" using md(1,2) unfolding m by (auto split: if_splits)
  show "1 \<le> d" "d \<le> 31" unfolding d by (rule md)+
  have mp: "(if m \<le> 2 then m + 9 else m - 3) = mp" using md(1,2) unfolding m by (auto split: if_splits)
  have y': "(if m \<le> 2 then y - 1 else y) = yoe + era * 400" unfolding y by simp
  have "(yoe + era * 400) div 400 = era" "(yoe + era * 400) mod 400 = yoe" using yr(1,2) by simp_all
  then have "days_of_civil y m d = era * 146097 + (yoe * 365 + yoe div 4 - yoe div 100 + doy) - 719468"
    unfolding days_of_civil_def Let_def mp y' d by simp
  also have "\<dots> = era * 146097 + doe - 719468" by (simp add: doy_def start)
  also have "\<dots> = n" by (simp add: era_def doe_def)
  finally show "days_of_civil y m d = n" .
qed

section \<open>Reading the text\<close>

fun dec_value :: "int \<Rightarrow> string \<Rightarrow> int option" where
  "dec_value acc [] = Some acc"
| "dec_value acc (c # s) = (if is_digit c then dec_value (10 * acc + int (code c - 48)) s else None)"

definition digits_at :: "string \<Rightarrow> nat \<Rightarrow> nat \<Rightarrow> int option" where
  "digits_at s i n = dec_value 0 (take n (drop i s))"

abbreviation not_canonical :: error where
  "not_canonical \<equiv> ValueError ''datetime is not canonical RFC 3339 UTC''"

text \<open>The instant that the fields of a 27 character text denote, year 1 to 9999.\<close>

definition read_instant :: "string \<Rightarrow> int option" where
  "read_instant s =
     (case (digits_at s 0 4, digits_at s 5 2, digits_at s 8 2, digits_at s 11 2, digits_at s 14 2, digits_at s 17 2,
            digits_at s 20 6) of
        (Some y, Some m, Some d, Some hour, Some minute, Some second, Some micro) \<Rightarrow>
          if 1 \<le> y \<and> 1 \<le> m \<and> m \<le> 12 \<and> 1 \<le> d \<and> d \<le> 31 \<and> hour \<le> 23 \<and> minute \<le> 59 \<and> second \<le> 59
          then Some ((days_of_civil y m d * 86400 + hour * 3600 + minute * 60 + second) * 1000000 + micro)
          else None
      | _ \<Rightarrow> None)"

definition parse_utc :: "string \<Rightarrow> datetime result" where
  "parse_utc s =
     (if length s < 8 \<or> last s \<noteq> CHR ''Z'' \<or> CHR ''.'' \<notin> set s then Inl not_canonical
      else
        let fraction = butlast (rev (takeWhile (\<lambda>c. c \<noteq> CHR ''.'') (rev s))) in
        if length fraction \<noteq> 6 \<or> \<not> list_all is_digit fraction
        then Inl (ValueError ''datetime must have exactly six fractional digits'')
        else
          (case read_instant s of
             None \<Rightarrow> Inl not_canonical
           | Some i \<Rightarrow> if utc_text i \<noteq> s then Inl not_canonical else Inr (utc i)))"

text \<open>The instants a \<open>datetime\<close> can hold.\<close>

definition year_of :: "int \<Rightarrow> int" where
  "year_of i = fst (civil_of_days (delta_days i))"

definition representable :: "int \<Rightarrow> bool" where
  "representable i \<longleftrightarrow> 1 \<le> year_of i \<and> year_of i \<le> 9999"

lemma less_10_cases: "0 \<le> n \<Longrightarrow> n < 10 \<Longrightarrow> (n :: int) \<in> {0,1,2,3,4,5,6,7,8,9}"
  by simp presburger

lemma dec_digit_digit:
  assumes "0 \<le> n" "n < 10"
  shows "is_digit (dec_digit n)" "int (code (dec_digit n) - 48) = n"
proof -
  have "\<forall>n\<in>{0,1,2,3,4,5,6,7,8,9}. is_digit (dec_digit n) \<and> int (code (dec_digit n) - 48) = n" by code_simp
  moreover have "n \<in> {0,1,2,3,4,5,6,7,8,9}" using assms by (rule less_10_cases)
  ultimately show "is_digit (dec_digit n)" "int (code (dec_digit n) - 48) = n" by blast+
qed

lemma dec_value_append:
  "dec_value acc (s @ t) = (case dec_value acc s of None \<Rightarrow> None | Some a \<Rightarrow> dec_value a t)"
  by (induction acc s rule: dec_value.induct) auto

lemma dec_value_fixed: "dec_value acc (dec_fixed k n) = Some (acc * 10 ^ k + n mod 10 ^ k)"
proof (induction k arbitrary: n)
  case (Suc k)
  have "n mod 10 ^ Suc k = 10 * (n div 10 mod 10 ^ k) + n mod 10"
    by (simp add: zmod_zmult2_eq)
  then show ?case using Suc by (simp add: dec_value_append dec_digit_digit algebra_simps)
qed simp

lemma dec_fixed_digits: "list_all is_digit (dec_fixed k n)"
  by (induction k arbitrary: n) (simp_all add: dec_digit_digit)

lemma digits_at_fixed: "length s = i \<Longrightarrow> digits_at (s @ dec_fixed k n @ t) i k = Some (n mod 10 ^ k)"
  by (simp add: digits_at_def dec_value_fixed)

lemma delta_seconds_range: "0 \<le> delta_seconds i" "delta_seconds i < 86400"
proof -
  have "0 \<le> i mod 86400000000" "i mod 86400000000 < 86400000000" by simp_all
  then show "0 \<le> delta_seconds i" "delta_seconds i < 86400"
    unfolding delta_seconds_def using div_mult_mod_eq [of "i mod 86400000000" 1000000] pos_mod_sign [of 1000000 "i mod 86400000000"]
    by (simp_all add: pos_imp_zdiv_nonneg_iff)
qed

lemma instant_split: "((i div 86400000000) * 86400 + i mod 86400000000 div 1000000) * 1000000 + i mod 1000000 = (i :: int)"
proof -
  have "i mod 86400000000 mod 1000000 = i mod 1000000" by (rule mod_mod_cancel) simp
  with div_mult_mod_eq [of "i mod 86400000000" 1000000]
  have "i mod 86400000000 div 1000000 * 1000000 + i mod 1000000 = i mod 86400000000" by simp
  with div_mult_mod_eq [of i 86400000000] show ?thesis by (rule split_recombines)
qed

lemma read_instant_text:
  assumes "representable i"
  shows "read_instant (utc_text i) = Some i"
proof -
  obtain y m d where ymd: "civil_of_days (delta_days i) = (y, m, d)" by (cases "civil_of_days (delta_days i)")
  note f = civil_of_days_fields [OF ymd]
  have y: "1 \<le> y" "y \<le> 9999" using assms ymd by (simp_all add: representable_def year_of_def)
  define s where "s = delta_seconds i"
  have s: "0 \<le> s" "s < 86400" unfolding s_def by (rule delta_seconds_range)+
  have shape: "utc_text i = dec_fixed 4 y @ ''-'' @ dec_fixed 2 m @ ''-'' @ dec_fixed 2 d @ ''T'' @ dec_fixed 2 (s div 3600) @
      '':'' @ dec_fixed 2 (s mod 3600 div 60) @ '':'' @ dec_fixed 2 (s mod 60) @ ''.'' @ dec_fixed 6 (delta_micros i) @ ''Z''"
    by (simp add: utc_text_def date_isoformat_def ymd s_def Let_def)
  have at: "digits_at (utc_text i) 0 4 = Some y" "digits_at (utc_text i) 5 2 = Some m" "digits_at (utc_text i) 8 2 = Some d"
    "digits_at (utc_text i) 11 2 = Some (s div 3600)" "digits_at (utc_text i) 14 2 = Some (s mod 3600 div 60)"
    "digits_at (utc_text i) 17 2 = Some (s mod 60)" "digits_at (utc_text i) 20 6 = Some (delta_micros i)"
    using f(1-4) y s
    by (simp_all add: shape delta_micros_def digits_at_def dec_value_fixed take_Cons' drop_Cons' mod_pos_pos_trivial)
  have "(days_of_civil y m d * 86400 + s div 3600 * 3600 + s mod 3600 div 60 * 60 + s mod 60) * 1000000 + delta_micros i = i"
  proof -
    have "s div 3600 * 3600 + s mod 3600 div 60 * 60 + s mod 60 = s"
    proof -
      have "s mod 3600 mod 60 = s mod 60" by (rule mod_mod_cancel) simp
      with div_mult_mod_eq [of "s mod 3600" 60] div_mult_mod_eq [of s 3600] show ?thesis by linarith
    qed
    then have "days_of_civil y m d * 86400 + s div 3600 * 3600 + s mod 3600 div 60 * 60 + s mod 60 =
        delta_days i * 86400 + delta_seconds i" using f(5) by (simp add: s_def)
    then show ?thesis using instant_split [of i] by (simp add: delta_days_def delta_seconds_def delta_micros_def)
  qed
  moreover have "s div 3600 \<le> 86399 div 3600" "s mod 3600 div 60 \<le> 3599 div 60"
    using s pos_mod_bound [of 3600 s] by (intro zdiv_mono1; simp)+
  moreover have "s mod 60 \<le> 59" using pos_mod_bound [of 60 s] by simp
  ultimately show ?thesis using y f(1-4) by (simp add: read_instant_def at)
qed

text \<open>\<open>parse_utc\<close> reads back what \<open>format_utc\<close> writes, and nothing else.\<close>

lemma parse_utc_canonical: "parse_utc s = Inr t \<Longrightarrow> format_utc t = Inr s"
  by (auto simp: parse_utc_def Let_def format_utc_text split: if_splits option.splits)

lemma parse_utc_text:
  assumes "representable i"
  shows "parse_utc (utc_text i) = Inr (utc i)"
proof -
  obtain pre where shape: "utc_text i = pre @ ''.'' @ dec_fixed 6 (delta_micros i) @ ''Z''" and pre: "length pre = 19"
    by (rule that [of "take 19 (utc_text i)"])
      (simp_all add: utc_text_def date_isoformat_def Let_def take_Cons' drop_Cons' split: prod.splits)
  have digits: "list_all is_digit (dec_fixed 6 (delta_micros i))" by (rule dec_fixed_digits)
  moreover have "\<not> is_digit CHR ''.''" by code_simp
  ultimately have "\<forall>c\<in>set (dec_fixed 6 (delta_micros i)). c \<noteq> CHR ''.''" by (auto simp: list_all_iff)
  then have "takeWhile (\<lambda>c. c \<noteq> CHR ''.'') (rev (utc_text i)) = CHR ''Z'' # rev (dec_fixed 6 (delta_micros i))"
    by (simp add: shape takeWhile_append2 takeWhile_tail)
  with digits show ?thesis
    unfolding parse_utc_def Let_def read_instant_text [OF assms]
    by (simp add: shape [symmetric]) (simp add: shape pre)
qed

end
