(* ===== verification/Storage.thy ===== *)
theory Storage
  imports Calendar "HOL-Library.AList"
begin

text \<open>
  The storage boundary: the values, conditions and operations of \<open>src/chorus/ports/storage.py\<close>, the
  reference driver \<open>src/chorus/infrastructure/local/memory.py\<close> and the participants
  \<open>src/chorus/infrastructure/dynamodb/demo_mutation.py\<close> adds to ordinary writes of the demo namespace.
  A dictionary is an association list in insertion order; a stored item has distinct attribute
  names. \<open>canon\<close> sorts the members of every mapping, so it maps a dictionary to one value. The
  hexadecimal SHA-256 digest of the standard library is the argument \<open>sha\<close>.
\<close>

section \<open>Values, conditions, operations\<close>

datatype stored_value =
    SNull
  | SBool bool
  | SInt int
  | SStr string
  | SList "stored_value list"
  | SMap "(string \<times> stored_value) list"

type_synonym stored_item = "(string \<times> stored_value) list"

datatype table_name = TN_CORE | TN_SHAREABLE | TN_AUDIT

record item_key =
  key_table :: table_name
  key_partition :: string
  key_sort :: string

datatype item_condition =
    Key_absent
  | Key_present
  | Attribute_equals_string string string
  | Attribute_equals_number string int
  | Attribute_at_most_number string int
  | Attribute_less_than_number string int
  | All_of "item_condition list"
  | Any_of "item_condition list"

definition all_of_post_init :: "item_condition list \<Rightarrow> unit result" where
  "all_of_post_init cs = checks [(cs = [], ValueError ''AllOf requires at least one condition'')]"

definition any_of_post_init :: "item_condition list \<Rightarrow> unit result" where
  "any_of_post_init cs = checks [(cs = [], ValueError ''AnyOf requires at least one condition'')]"

datatype write_operation =
    Put_item (op_key: item_key) (op_item: stored_item) (op_condition: item_condition)
  | Delete_item (op_key: item_key) (op_condition: item_condition)
  | Check_item (op_key: item_key) (op_condition: item_condition)

fun is_check :: "write_operation \<Rightarrow> bool" where
  "is_check (Check_item _ _) = True"
| "is_check _ = False"

fun is_put :: "write_operation \<Rightarrow> bool" where
  "is_put (Put_item _ _ _) = True"
| "is_put _ = False"

definition attribute :: "string \<Rightarrow> stored_item option \<Rightarrow> stored_value option" where
  "attribute name item = Option.bind item (\<lambda>i. map_of i name)"

fun number_test :: "(int \<Rightarrow> bool) \<Rightarrow> stored_value option \<Rightarrow> bool" where
  "number_test P (Some (SInt n)) = P n"
| "number_test P _ = False"

fun evaluate :: "item_condition \<Rightarrow> stored_item option \<Rightarrow> bool" where
  "evaluate Key_absent item = (item = None)"
| "evaluate Key_present item = (item \<noteq> None)"
| "evaluate (Attribute_equals_string name v) item = (attribute name item = Some (SStr v))"
| "evaluate (Attribute_equals_number name v) item = number_test (\<lambda>n. n = v) (attribute name item)"
| "evaluate (Attribute_at_most_number name v) item = number_test (\<lambda>n. n \<le> v) (attribute name item)"
| "evaluate (Attribute_less_than_number name v) item = number_test (\<lambda>n. n < v) (attribute name item)"
| "evaluate (All_of cs) item = list_all (\<lambda>c. evaluate c item) cs"
| "evaluate (Any_of cs) item = list_ex (\<lambda>c. evaluate c item) cs"

fun canon :: "stored_value \<Rightarrow> stored_value" where
  "canon (SList vs) = SList (map canon vs)"
| "canon (SMap ms) = SMap (sort_key fst (map (\<lambda>(k, v). (k, canon v)) ms))"
| "canon v = v"

fun canon_operation :: "write_operation \<Rightarrow> write_operation" where
  "canon_operation (Put_item k i c) = Put_item k (sort_key fst (map (\<lambda>(k, v). (k, canon v)) i)) c"
| "canon_operation other = other"

text \<open>Python's \<open>==\<close> on stored values: members in any order, and \<open>True == 1\<close>, \<open>False == 0\<close>.\<close>

fun compared :: "stored_value \<Rightarrow> stored_value" where
  "compared (SList vs) = SList (map compared vs)"
| "compared (SMap ms) = SMap (sort_key fst (map (\<lambda>(k, v). (k, compared v)) ms))"
| "compared (SBool b) = SInt (if b then 1 else 0)"
| "compared v = v"

fun compared_operation :: "write_operation \<Rightarrow> write_operation" where
  "compared_operation (Put_item k i c) = Put_item k (sort_key fst (map (\<lambda>(k, v). (k, compared v)) i)) c"
| "compared_operation other = other"

section \<open>Queries\<close>

datatype sort_key_condition = Sort_key_all | Sort_key_begins_with string | Sort_key_between string string

definition starts_with :: "string \<Rightarrow> string \<Rightarrow> bool" where
  "starts_with s p \<longleftrightarrow> take (length p) s = p"

fun matches_sort_key :: "sort_key_condition \<Rightarrow> string \<Rightarrow> bool" where
  "matches_sort_key Sort_key_all s = True"
| "matches_sort_key (Sort_key_begins_with p) s = starts_with s p"
| "matches_sort_key (Sort_key_between low high) s = (low \<le> s \<and> s \<le> high)"

definition sort_key_between_post_init :: "string \<Rightarrow> string \<Rightarrow> unit result" where
  "sort_key_between_post_init low high = checks [(low > high, ValueError ''sort key range is inverted'')]"

record query_request =
  qr_table :: table_name
  qr_partition :: string
  qr_sort :: sort_key_condition
  qr_consistent :: bool
  qr_limit :: nat
  qr_start :: "string option"
  qr_ascending :: bool

definition query_request_post_init :: "query_request \<Rightarrow> unit result" where
  "query_request_post_init r = checks [(qr_limit r < 1, ValueError ''query limit must be positive'')]"

record query_result =
  res_items :: "stored_item list"
  res_last :: "string option"

section \<open>The participants of a demo write\<close>

definition LOCK_KEY :: item_key where
  "LOCK_KEY = \<lparr>key_table = TN_CORE, key_partition = ''NS#DEMO'', key_sort = ''DEMO_RESET_LOCK''\<rparr>"

definition is_normal_demo_write :: "write_operation \<Rightarrow> bool" where
  "is_normal_demo_write operation \<longleftrightarrow>
     (let k = op_key operation in
      \<not> is_check operation \<and> (key_partition k = ''NS#DEMO'' \<or> starts_with (key_partition k) ''NS#DEMO#'') \<and>
      \<not> (key_partition k = ''NS#DEMO'' \<and> starts_with (key_sort k) ''DEMO_''))"

definition demo_registered_partition_sort_key :: "(string \<Rightarrow> string) \<Rightarrow> string \<Rightarrow> string" where
  "demo_registered_partition_sort_key sha root = ''DEMO_REGISTERED_PARTITION#'' @ take 32 (sha root)"

text \<open>The partitions the driver registers are in the demo namespace, so the encoder does not refuse them.\<close>

definition encode_demo_registered_partition :: "(string \<Rightarrow> string) \<Rightarrow> string \<Rightarrow> string \<Rightarrow> stored_item" where
  "encode_demo_registered_partition sha ns root =
     [(''PK'', SStr (''NS#'' @ ns)), (''SK'', SStr (demo_registered_partition_sort_key sha root)),
      (''entity_type'', SStr ''DEMO_REGISTERED_PARTITION''), (''schema_version'', SStr ''demo-registered-partition/v1''),
      (''namespace'', SStr ns), (''community_id'', SNull), (''case_id'', SNull),
      (''registered_partition_key'', SStr root)]"

definition partition_registration :: "(string \<Rightarrow> string) \<Rightarrow> string \<Rightarrow> string \<Rightarrow> write_operation" where
  "partition_registration sha ns root = Put_item
     \<lparr>key_table = TN_CORE, key_partition = ''NS#'' @ ns, key_sort = demo_registered_partition_sort_key sha root\<rparr>
     (encode_demo_registered_partition sha ns root) Key_absent"

fun creates_demo_case :: "write_operation \<Rightarrow> bool" where
  "creates_demo_case (Put_item k i c) =
     (c = Key_absent \<and> key_table k = TN_CORE \<and> starts_with (key_partition k) ''NS#DEMO#CASE#'' \<and> key_sort k = ''CASE'')"
| "creates_demo_case _ = False"

definition DEMO_FAMILIES :: "string list" where
  "DEMO_FAMILIES = [''CASE'', ''FENCE'', ''VIEW_CURRENT'', ''ACTION_CURRENT'']"

definition case_registrations :: "(string \<Rightarrow> string) \<Rightarrow> write_operation \<Rightarrow> write_operation list" where
  "case_registrations sha operation =
     (if creates_demo_case operation
      then map (\<lambda>family. partition_registration sha ''DEMO''
             (''NS#DEMO#'' @ family @ ''#'' @ drop (length ''NS#DEMO#CASE#'') (key_partition (op_key operation)))) DEMO_FAMILIES
      else [])"

text \<open>\<open>if registration.key not in targets\<close>: an operation is added when its key is not there yet.\<close>

definition add_target :: "write_operation \<Rightarrow> write_operation list \<Rightarrow> write_operation list" where
  "add_target operation ops = (if op_key operation \<in> set (map op_key ops) then ops else ops @ [operation])"

definition fence_operations ::
    "(string \<Rightarrow> string) \<Rightarrow> string option \<Rightarrow> write_operation list \<Rightarrow> write_operation list result" where
  "fence_operations sha reset_authority operations =
     (if reset_authority \<noteq> None \<or> \<not> list_ex is_normal_demo_write operations then Inr operations
      else
        let guard = Check_item LOCK_KEY Key_absent in
        if list_ex (\<lambda>operation. op_key operation = LOCK_KEY \<and> operation \<noteq> guard) operations
        then Inl (ValueError ''normal DEMO mutations require the reset lock to be absent'')
        else Inr (fold add_target (concat (map (case_registrations sha) operations)) (add_target guard operations)))"

definition transaction_token :: "(string \<Rightarrow> string) \<Rightarrow> string option \<Rightarrow> string \<Rightarrow> string" where
  "transaction_token sha reset_identity token =
     (case reset_identity of None \<Rightarrow> token | Some i \<Rightarrow> take 36 (sha (i @ char_of (31 :: nat) # token)))"

section \<open>The reference driver\<close>

definition TRANSACTION_MAX_OPERATIONS :: nat where "TRANSACTION_MAX_OPERATIONS = 100"
definition TRANSACTION_TOKEN_WINDOW_SECONDS :: int where "TRANSACTION_TOKEN_WINDOW_SECONDS = 10 * 60"

text \<open>What a driver is built with and the two context variables of the calling task.\<close>

record driver_context =
  dc_sha :: "string \<Rightarrow> string"
  dc_stale_eventual_reads :: bool
  dc_reset_authority :: "string option"
  dc_reset_identity :: "string option"

record memory =
  mem_current :: "(item_key \<times> stored_item) list"
  mem_previous :: "(item_key \<times> stored_item option) list"
  mem_tokens :: "(string \<times> int \<times> write_operation list) list"

definition read_item :: "driver_context \<Rightarrow> bool \<Rightarrow> memory \<Rightarrow> item_key \<Rightarrow> stored_item option" where
  "read_item dc consistent m k =
     (if \<not> consistent \<and> dc_stale_eventual_reads dc
      then (case map_of (mem_previous m) k of Some stale \<Rightarrow> stale | None \<Rightarrow> map_of (mem_current m) k)
      else map_of (mem_current m) k)"

definition apply_operation :: "write_operation \<Rightarrow> memory \<Rightarrow> memory" where
  "apply_operation operation m =
     (let k = op_key operation;
          before = AList.update k (map_of (mem_current m) k) (mem_previous m) in
      case operation of
        Check_item _ _ \<Rightarrow> m
      | Put_item _ i _ \<Rightarrow> m\<lparr>mem_previous := before, mem_current := AList.update k i (mem_current m)\<rparr>
      | Delete_item _ _ \<Rightarrow> m\<lparr>mem_previous := before, mem_current := AList.delete k (mem_current m)\<rparr>)"

definition addressed :: "write_operation \<Rightarrow> bool" where
  "addressed operation \<longleftrightarrow>
     (case operation of
        Put_item k i _ \<Rightarrow> map_of i ''PK'' = Some (SStr (key_partition k)) \<and> map_of i ''SK'' = Some (SStr (key_sort k))
      | _ \<Rightarrow> True)"

abbreviation not_addressed :: error where
  "not_addressed \<equiv> ValueError ''a stored item must carry the key attributes it is written to''"

text \<open>The loop that checks the address and the condition of every operation before any is applied.\<close>

definition operation_check :: "memory \<Rightarrow> write_operation \<Rightarrow> (bool \<times> error) list" where
  "operation_check m operation =
     [(\<not> addressed operation, not_addressed),
      (\<not> evaluate (op_condition operation) (map_of (mem_current m) (op_key operation)),
       PersistenceConflictError ''TRANSACTION'')]"

definition live_token :: "int \<Rightarrow> string \<times> int \<times> write_operation list \<Rightarrow> bool" where
  "live_token now = (\<lambda>(token, at, ops). now - at < seconds TRANSACTION_TOKEN_WINDOW_SECONDS)"

definition transact_write ::
    "driver_context \<Rightarrow> int \<Rightarrow> write_operation list \<Rightarrow> string \<Rightarrow> memory \<Rightarrow> unit result \<times> memory" where
  "transact_write dc now operations0 token0 m =
     (case fence_operations (dc_sha dc) (dc_reset_authority dc) operations0 of
        Inl e \<Rightarrow> (Inl e, m)
      | Inr operations \<Rightarrow>
          let token = transaction_token (dc_sha dc) (dc_reset_identity dc) token0 in
          if operations = [] then (Inl (ValueError ''a transaction requires at least one operation''), m)
          else if length operations > TRANSACTION_MAX_OPERATIONS then (Inl (TransactionLimitExceededError ''TRANSACTION''), m)
          else
            let m' = m\<lparr>mem_tokens := filter (live_token now) (mem_tokens m)\<rparr> in
            (case map_of (mem_tokens m') token of
               Some (_, ops) \<Rightarrow>
                 if map compared_operation ops \<noteq> map compared_operation operations
                 then (Inl (IdempotencyConflictError ''TRANSACTION''), m') else (Inr (), m')
             | None \<Rightarrow>
                 if \<not> distinct (map op_key operations)
                 then (Inl (ValueError ''a transaction cannot address the same item twice''), m')
                 else
                   (case checks (concat (map (operation_check m') operations)) of
                      Inl e \<Rightarrow> (Inl e, m')
                    | Inr _ \<Rightarrow>
                        let m'' = fold apply_operation operations m' in
                        (Inr (), m''\<lparr>mem_tokens := AList.update token (now, operations) (mem_tokens m'')\<rparr>))))"

text \<open>A single write that needs participants becomes a transaction under a fresh token.\<close>

definition write_item ::
    "driver_context \<Rightarrow> int \<Rightarrow> string \<Rightarrow> write_operation \<Rightarrow> memory \<Rightarrow> unit result \<times> memory" where
  "write_item dc now fresh operation m =
     (case fence_operations (dc_sha dc) (dc_reset_authority dc) [operation] of
        Inl e \<Rightarrow> (Inl e, m)
      | Inr fenced \<Rightarrow>
          if fenced \<noteq> [operation] then transact_write dc now fenced fresh m
          else if \<not> addressed operation then (Inl not_addressed, m)
          else if \<not> evaluate (op_condition operation) (map_of (mem_current m) (op_key operation))
          then (Inl (PersistenceConflictError ''WRITE''), m)
          else (Inr (), apply_operation operation m))"

definition get_item :: "driver_context \<Rightarrow> bool \<Rightarrow> item_key \<Rightarrow> memory \<Rightarrow> stored_item option" where
  "get_item dc consistent k m = read_item dc consistent m k"

definition batch_get_items ::
    "driver_context \<Rightarrow> bool \<Rightarrow> item_key list \<Rightarrow> memory \<Rightarrow> stored_item list result" where
  "batch_get_items dc consistent ks m =
     (if ks = [] then Inr []
      else if length (remdups (map key_table ks)) \<noteq> 1
      then Inl (ValueError ''a batch read addresses exactly one table'')
      else Inr (List.map_filter (read_item dc consistent m) ks))"

definition matching_keys :: "query_request \<Rightarrow> memory \<Rightarrow> item_key list" where
  "matching_keys r m =
     (let found = filter (\<lambda>k. key_table k = qr_table r \<and> key_partition k = qr_partition r \<and>
            matches_sort_key (qr_sort r) (key_sort k)) (map fst (mem_current m));
          ordered = sort_key key_sort found in
      if qr_ascending r then ordered else rev ordered)"

definition after_start :: "query_request \<Rightarrow> item_key \<Rightarrow> bool" where
  "after_start r k \<longleftrightarrow>
     (case qr_start r of None \<Rightarrow> True
      | Some start \<Rightarrow> if qr_ascending r then key_sort k > start else key_sort k < start)"

definition run_query :: "driver_context \<Rightarrow> query_request \<Rightarrow> memory \<Rightarrow> query_result" where
  "run_query dc r m =
     (let page = take (qr_limit r) (filter (after_start r) (matching_keys r m)) in
      \<lparr>res_items = List.map_filter (read_item dc (qr_consistent r) m) page,
       res_last = (if length page = qr_limit r then Some (key_sort (last page)) else None)\<rparr>)"

definition in_namespace :: "string \<Rightarrow> item_key \<Rightarrow> bool" where
  "in_namespace ns k \<longleftrightarrow> key_partition k = ''NS#'' @ ns \<or> starts_with (key_partition k) (''NS#'' @ ns @ ''#'')"

definition purge_namespace :: "string \<Rightarrow> memory \<Rightarrow> nat \<times> memory" where
  "purge_namespace ns m =
     (let victims = filter (in_namespace ns) (map fst (mem_current m)) in
      (length victims, (fold (\<lambda>k m. m\<lparr>mem_previous := AList.update k (map_of (mem_current m) k) (mem_previous m),
           mem_current := AList.delete k (mem_current m)\<rparr>) victims m)\<lparr>mem_tokens := []\<rparr>))"

definition namespace_items :: "string \<Rightarrow> memory \<Rightarrow> stored_item list" where
  "namespace_items ns m = map snd (filter (\<lambda>(k, i). in_namespace ns k) (mem_current m))"

end
