(* ===== verification/Storage_Laws.thy ===== *)
theory Storage_Laws
  imports Storage
begin

text \<open>
  What the reference driver promises: a transaction takes effect as a whole or not at all, every
  stored item carries its address, a paged query enumerates a partition, and no ordinary write of the
  demo namespace passes a reset lock.
\<close>

section \<open>The effect of a write\<close>

abbreviation stored :: "memory \<Rightarrow> item_key \<Rightarrow> stored_item option" where
  "stored m \<equiv> map_of (mem_current m)"

text \<open>What an operation leaves at its own address.\<close>

fun written :: "write_operation \<Rightarrow> stored_item option \<Rightarrow> stored_item option" where
  "written (Put_item k i c) old = Some i"
| "written (Delete_item k c) old = None"
| "written (Check_item k c) old = old"

definition all_written :: "write_operation list \<Rightarrow> (item_key \<Rightarrow> stored_item option) \<Rightarrow> item_key \<Rightarrow> stored_item option" where
  "all_written ops before k =
     (case List.find (\<lambda>operation. op_key operation = k) ops of None \<Rightarrow> before k | Some operation \<Rightarrow> written operation (before k))"

lemma stored_apply [simp]:
  "stored (apply_operation operation m) k = (if op_key operation = k then written operation (stored m k) else stored m k)"
  by (cases operation) (auto simp: apply_operation_def Let_def update_conv' delete_conv')

lemma apply_operation_tokens [simp]: "mem_tokens (apply_operation operation m) = mem_tokens m"
  by (cases operation) (simp_all add: apply_operation_def Let_def)

lemma fold_apply_tokens [simp]: "mem_tokens (fold apply_operation ops m) = mem_tokens m"
  by (induction ops arbitrary: m) simp_all

lemma stored_fold_apply:
  "distinct (map op_key ops) \<Longrightarrow> stored (fold apply_operation ops m) k = all_written ops (stored m) k"
proof (induction ops arbitrary: m)
  case (Cons operation ops)
  show ?case
  proof (cases "op_key operation = k")
    case True
    with Cons.prems have "List.find (\<lambda>operation. op_key operation = k) ops = None" by (auto simp: find_None_iff image_iff)
    with Cons True show ?thesis by (simp add: all_written_def)
  qed (use Cons in \<open>simp add: all_written_def split: option.splits\<close>)
qed (simp add: all_written_def)

lemma find_distinct_key:
  assumes "distinct (map op_key ops)" "operation \<in> set ops"
  shows "List.find (\<lambda>x. op_key x = op_key operation) ops = Some operation"
proof (cases "List.find (\<lambda>x. op_key x = op_key operation) ops")
  case None
  with assms(2) show ?thesis by (auto simp: find_None_iff)
next
  case (Some x)
  with find_SomeD [OF Some] assms inj_on_distinct_key [of op_key ops x operation] show ?thesis by simp
qed

lemma all_written_mem:
  "distinct (map op_key ops) \<Longrightarrow> operation \<in> set ops \<Longrightarrow>
     all_written ops before (op_key operation) = written operation (before (op_key operation))"
  by (simp add: all_written_def find_distinct_key)

lemma all_written_other: "k \<notin> set (map op_key ops) \<Longrightarrow> all_written ops before k = before k"
  by (auto simp: all_written_def dest: find_SomeD split: option.splits)

section \<open>Transactions\<close>

lemma stored_tokens [simp]: "stored (m\<lparr>mem_tokens := ts\<rparr>) = stored m"
  by simp

lemma operation_checks_Inr_iff:
  "checks (concat (map (operation_check m) ops)) = Inr u \<longleftrightarrow>
     (\<forall>operation\<in>set ops. addressed operation \<and> evaluate (op_condition operation) (stored m (op_key operation)))"
  by (auto simp: result_simps operation_check_def list_all_iff)

lemma operation_check_tokens [simp]: "operation_check (m\<lparr>mem_tokens := ts\<rparr>) = operation_check m"
  by (simp add: operation_check_def fun_eq_iff)

text \<open>The ways a transaction can go.\<close>

lemma transact_write_cases:
  assumes "transact_write dc now ops0 token m = (r, m')"
  obtains
    (rejected) e where "r = Inl e" "stored m' = stored m" "mem_current m' = mem_current m"
      "mem_previous m' = mem_previous m"
  | (replayed) ops old where "r = Inr ()" "stored m' = stored m" "mem_current m' = mem_current m"
      "mem_previous m' = mem_previous m"
      "fence_operations (dc_sha dc) (dc_reset_authority dc) ops0 = Inr ops"
      "map_of (filter (live_token now) (mem_tokens m)) (transaction_token (dc_sha dc) (dc_reset_identity dc) token) = Some old"
      "map compared_operation (snd old) = map compared_operation ops"
  | (applied) ops where "r = Inr ()" "fence_operations (dc_sha dc) (dc_reset_authority dc) ops0 = Inr ops"
      "map_of (filter (live_token now) (mem_tokens m)) (transaction_token (dc_sha dc) (dc_reset_identity dc) token) = None"
      "distinct (map op_key ops)"
      "\<forall>operation\<in>set ops. addressed operation \<and> evaluate (op_condition operation) (stored m (op_key operation))"
      "mem_current m' = mem_current (fold apply_operation ops (m\<lparr>mem_tokens := filter (live_token now) (mem_tokens m)\<rparr>))"
      "stored m' = all_written ops (stored m)"
proof (cases "fence_operations (dc_sha dc) (dc_reset_authority dc) ops0")
  case (Inl e)
  with assms have "m' = m" "r = Inl e" by (auto simp: transact_write_def)
  then show thesis using rejected by blast
next
  case fenced: (Inr ops)
  let ?token = "transaction_token (dc_sha dc) (dc_reset_identity dc) token"
  let ?m = "m\<lparr>mem_tokens := filter (live_token now) (mem_tokens m)\<rparr>"
  show thesis
  proof (cases "ops = [] \<or> length ops > TRANSACTION_MAX_OPERATIONS")
    case True
    with assms fenced have "m' = m" "\<exists>e. r = Inl e" by (auto simp: transact_write_def Let_def split: if_splits)
    then show thesis using rejected by blast
  next
    case size: False
    show thesis
    proof (cases "map_of (mem_tokens ?m) ?token")
      case (Some old)
      with assms fenced size show thesis
        by (cases "map compared_operation (snd old) = map compared_operation ops")
          (auto simp: transact_write_def Let_def split: prod.splits intro: rejected replayed)
    next
      case None
      show thesis
      proof (cases "distinct (map op_key ops) \<and> checks (concat (map (operation_check ?m) ops)) = Inr ()")
        case True
        with assms fenced size None have r: "r = Inr ()"
          "mem_current m' = mem_current (fold apply_operation ops ?m)"
          by (auto simp: transact_write_def Let_def simp del: operation_check_tokens)
        then have "stored m' = all_written ops (stored m)" using True by (auto simp: stored_fold_apply)
        with True r fenced None show thesis
          by (intro applied) (auto simp: operation_checks_Inr_iff simp del: operation_check_tokens)
      next
        case False
        have "(\<exists>e. r = Inl e) \<and> m' = ?m"
        proof (cases "distinct (map op_key ops)")
          case True
          with False obtain e where "checks (concat (map (operation_check ?m) ops)) = Inl e"
            by (cases "checks (concat (map (operation_check ?m) ops))") auto
          with assms fenced size None True have "r = Inl e" "m' = ?m"
            by (simp_all add: transact_write_def Let_def del: operation_check_tokens)
          then show ?thesis by blast
        qed (use assms fenced size None in \<open>auto simp: transact_write_def Let_def\<close>)
        then show thesis using rejected by auto
      qed
    qed
  qed
qed

section \<open>Well-formed stores\<close>

definition carries_address :: "item_key \<Rightarrow> stored_item \<Rightarrow> bool" where
  "carries_address k i \<longleftrightarrow> map_of i ''PK'' = Some (SStr (key_partition k)) \<and> map_of i ''SK'' = Some (SStr (key_sort k))"

definition memory_ok :: "memory \<Rightarrow> bool" where
  "memory_ok m \<longleftrightarrow> distinct (map fst (mem_current m)) \<and> (\<forall>k i. stored m k = Some i \<longrightarrow> carries_address k i)"

lemma distinct_apply: "distinct (map fst (mem_current m)) \<Longrightarrow> distinct (map fst (mem_current (apply_operation operation m)))"
  by (cases operation) (simp_all add: apply_operation_def Let_def distinct_update distinct_delete)

lemma memory_ok_apply:
  assumes "memory_ok m" "addressed operation"
  shows "memory_ok (apply_operation operation m)"
  using assms distinct_apply
  by (cases operation) (auto simp: memory_ok_def addressed_def carries_address_def)

lemma memory_ok_fold: "memory_ok m \<Longrightarrow> list_all addressed ops \<Longrightarrow> memory_ok (fold apply_operation ops m)"
  by (induction ops arbitrary: m) (simp_all add: memory_ok_apply)

lemma memory_ok_current: "mem_current m' = mem_current m \<Longrightarrow> memory_ok m' = memory_ok m"
  by (simp add: memory_ok_def)

lemma memory_ok_transact:
  assumes "memory_ok m" "transact_write dc now ops token m = (r, m')"
  shows "memory_ok m'"
  using assms(2)
proof (cases rule: transact_write_cases)
  case (applied ops)
  have "memory_ok (m\<lparr>mem_tokens := filter (live_token now) (mem_tokens m)\<rparr>)" using assms(1) by (simp add: memory_ok_def)
  with applied(5) have "memory_ok (fold apply_operation ops (m\<lparr>mem_tokens := filter (live_token now) (mem_tokens m)\<rparr>))"
    by (intro memory_ok_fold) (auto simp: list_all_iff)
  with memory_ok_current [OF applied(6)] show ?thesis by simp
next
  case (rejected e)
  with memory_ok_current [OF rejected(3)] assms(1) show ?thesis by simp
next
  case (replayed ops old)
  with memory_ok_current [OF replayed(3)] assms(1) show ?thesis by simp
qed

text \<open>The ways a single write can go.\<close>

lemma write_item_cases:
  assumes "write_item dc now fresh operation m = (r, m')"
  obtains
    (failed) e where "r = Inl e" "m' = m"
  | (transacted) ops where "fence_operations (dc_sha dc) (dc_reset_authority dc) [operation] = Inr ops" "ops \<noteq> [operation]"
      "transact_write dc now ops fresh m = (r, m')"
  | (applied) "r = Inr ()" "fence_operations (dc_sha dc) (dc_reset_authority dc) [operation] = Inr [operation]"
      "addressed operation" "evaluate (op_condition operation) (stored m (op_key operation))"
      "m' = apply_operation operation m"
proof (cases "fence_operations (dc_sha dc) (dc_reset_authority dc) [operation]")
  case (Inl e)
  with assms have "r = Inl e" "m' = m" by (simp_all add: write_item_def)
  then show thesis by (rule failed)
next
  case (Inr ops)
  show thesis
  proof (cases "ops = [operation]")
    case True
    with assms Inr show thesis by (simp add: write_item_def split: if_splits) (metis failed applied)+
  next
    case False
    with assms Inr show thesis by (intro transacted) (simp_all add: write_item_def)
  qed
qed

lemma memory_ok_write:
  assumes "memory_ok m" "write_item dc now fresh operation m = (r, m')"
  shows "memory_ok m'"
  using assms(2)
proof (cases rule: write_item_cases)
  case (transacted ops)
  from memory_ok_transact [OF assms(1) transacted(3)] show ?thesis .
qed (use assms(1) memory_ok_apply in simp_all)

section \<open>Paged queries\<close>

text \<open>
  The loop of \<open>partition_item_sort_keys\<close> (\<open>infrastructure/dynamodb/demo_reset_store.py\<close>): at most
  \<open>pages\<close> queries, each continuing at the last key of the one before.
\<close>

fun page_loop :: "driver_context \<Rightarrow> query_request \<Rightarrow> memory \<Rightarrow> nat \<Rightarrow> string option \<Rightarrow> stored_item list option" where
  "page_loop dc r m 0 start = None"
| "page_loop dc r m (Suc pages) start =
     (let res = run_query dc (r\<lparr>qr_start := start\<rparr>) m in
      case res_last res of
        None \<Rightarrow> Some (res_items res)
      | Some s \<Rightarrow> map_option (append (res_items res)) (page_loop dc r m pages (Some s)))"

definition MAX_PARTITION_DELETE_PAGES :: nat where "MAX_PARTITION_DELETE_PAGES = 200"

definition item_text :: "string \<Rightarrow> stored_item \<Rightarrow> string" where
  "item_text name i = (case map_of i name of Some (SStr s) \<Rightarrow> s | _ \<Rightarrow> [])"

definition partition_item_sort_keys ::
    "driver_context \<Rightarrow> nat \<Rightarrow> table_name \<Rightarrow> string \<Rightarrow> memory \<Rightarrow> string list result" where
  "partition_item_sort_keys dc page_size table root m =
     (if \<not> (root = ''NS#DEMO'' \<or> starts_with root ''NS#DEMO#'') then Inl (IntegrityError (''DEMO_RESET_TARGET:'' @ root))
      else
        (case page_loop dc \<lparr>qr_table = table, qr_partition = root, qr_sort = Sort_key_all, qr_consistent = True,
             qr_limit = page_size, qr_start = None, qr_ascending = True\<rparr> m MAX_PARTITION_DELETE_PAGES None of
           None \<Rightarrow> Inl (IntegrityError (''DEMO_RESET_PARTITION_TOO_LARGE:'' @ root))
         | Some items \<Rightarrow> Inr (map (item_text ''SK'') items)))"

text \<open>The keys after a cursor are a suffix of the ordered keys.\<close>

lemma filter_after_sorted:
  assumes "sorted (map f (xs @ ys))" "distinct (map f (xs @ ys))" "xs \<noteq> []"
  shows "filter (\<lambda>x. f x > f (last xs)) (xs @ ys) = ys"
proof -
  have "f x \<le> f (last xs)" if "x \<in> set xs" for x
  proof -
    from that obtain us vs where "xs = us @ x # vs" by (meson split_list)
    with assms(1) show ?thesis by (cases "vs = []") (auto simp: sorted_append)
  qed
  moreover have "f (last xs) < f y" if "y \<in> set ys" for y
  proof -
    have "f (last xs) \<le> f y" using assms(1,3) that by (auto simp: sorted_append)
    moreover have "f (last xs) \<noteq> f y" using assms(2,3) that by (force simp: distinct_map)
    ultimately show ?thesis by simp
  qed
  ultimately show ?thesis by (auto simp: filter_id_conv filter_empty_conv not_less)
qed

lemma matching_keys_start [simp]: "matching_keys (r\<lparr>qr_start := s\<rparr>) m = matching_keys r m"
  by (simp add: matching_keys_def)

lemma matching_keys_ordered:
  assumes "memory_ok m" "qr_ascending r"
  shows "sorted (map key_sort (matching_keys r m))" "distinct (map key_sort (matching_keys r m))"
proof -
  let ?found = "filter (\<lambda>k. key_table k = qr_table r \<and> key_partition k = qr_partition r \<and>
    matches_sort_key (qr_sort r) (key_sort k)) (map fst (mem_current m))"
  have keys: "matching_keys r m = sort_key key_sort ?found" using assms(2) by (simp add: matching_keys_def)
  then show "sorted (map key_sort (matching_keys r m))" by simp
  have "inj_on key_sort (set ?found)" by (auto simp: inj_on_def intro!: item_key.equality)
  moreover have "distinct ?found" using assms(1) by (simp add: memory_ok_def)
  ultimately show "distinct (map key_sort (matching_keys r m))" unfolding keys distinct_map_sort_key by (simp add: distinct_map)
qed

lemma after_start_Some: "qr_ascending r \<Longrightarrow> after_start (r\<lparr>qr_start := Some s\<rparr>) = (\<lambda>k. s < key_sort k)"
  by (auto simp: after_start_def fun_eq_iff)

lemma read_item_consistent [simp]: "read_item dc True m = stored m"
  by (simp add: read_item_def fun_eq_iff)

lemma map_filter_append: "List.map_filter f (xs @ ys) = List.map_filter f xs @ List.map_filter f ys"
  by (simp add: map_filter_def)

lemma page_loop_result:
  assumes m: "memory_ok m" "qr_ascending r" "qr_consistent r" and limit: "0 < qr_limit r"
    and keys: "matching_keys r m = done' @ todo" and start: "start = (if done' = [] then None else Some (key_sort (last done')))"
  shows "page_loop dc r m pages start =
    (if length todo div qr_limit r < pages then Some (List.map_filter (stored m) todo) else None)"
  using keys start
proof (induction pages arbitrary: done' todo start)
  case (Suc pages)
  let ?L = "qr_limit r"
  note ord = matching_keys_ordered [OF m(1,2)]
  have "filter (after_start (r\<lparr>qr_start := start\<rparr>)) (matching_keys r m) = todo"
  proof (cases "done' = []")
    case False
    with Suc.prems ord filter_after_sorted [of key_sort done' todo] show ?thesis
      by (simp add: after_start_Some [OF m(2)])
  qed (use Suc.prems in \<open>simp add: after_start_def\<close>)
  then have q: "run_query dc (r\<lparr>qr_start := start\<rparr>) m =
      \<lparr>res_items = List.map_filter (stored m) (take ?L todo),
       res_last = (if ?L \<le> length todo then Some (key_sort (last (take ?L todo))) else None)\<rparr>"
    using m(3) by (simp add: run_query_def Let_def read_item_consistent min_def)
  show ?case
  proof (cases "?L \<le> length todo")
    case True
    let ?page = "take ?L todo"
    from True limit have page: "?page \<noteq> []" by auto
    have "page_loop dc r m pages (Some (key_sort (last ?page))) =
        (if length (drop ?L todo) div ?L < pages then Some (List.map_filter (stored m) (drop ?L todo)) else None)"
      by (rule Suc.IH [of "done' @ ?page"]) (use Suc.prems page in simp_all)
    moreover have "length todo div ?L = Suc (length (drop ?L todo) div ?L)"
      using True limit by (simp add: le_div_geq)
    moreover have "List.map_filter (stored m) todo =
        List.map_filter (stored m) ?page @ List.map_filter (stored m) (drop ?L todo)"
      by (simp flip: map_filter_append)
    ultimately show ?thesis using True by (simp add: q Let_def)
  qed (simp add: q Let_def)
qed simp


text \<open>The sort keys of a partition, in order, as the whole of its keys.\<close>

definition partition_keys :: "table_name \<Rightarrow> string \<Rightarrow> memory \<Rightarrow> string set" where
  "partition_keys table root m = {key_sort k | k. key_table k = table \<and> key_partition k = root \<and> stored m k \<noteq> None}"

lemma partition_item_sort_keys_result:
  assumes "memory_ok m" "0 < page_size" "root = ''NS#DEMO'' \<or> starts_with root ''NS#DEMO#''"
  shows "partition_item_sort_keys dc page_size table root m =
    (if card (partition_keys table root m) < page_size * MAX_PARTITION_DELETE_PAGES
     then Inr (sorted_list_of_set (partition_keys table root m))
     else Inl (IntegrityError (''DEMO_RESET_PARTITION_TOO_LARGE:'' @ root)))"
proof -
  let ?r = "\<lparr>qr_table = table, qr_partition = root, qr_sort = Sort_key_all, qr_consistent = True, qr_limit = page_size,
    qr_start = None, qr_ascending = True\<rparr>"
  let ?ks = "matching_keys ?r m"
  have ord: "sorted (map key_sort ?ks)" "distinct (map key_sort ?ks)"
    using assms(1) by (intro matching_keys_ordered; simp)+
  have mem: "k \<in> set ?ks \<longleftrightarrow> key_table k = table \<and> key_partition k = root \<and> stored m k \<noteq> None" for k
    by (auto simp: matching_keys_def map_of_eq_None_iff)
  have "key_sort ` set ?ks = partition_keys table root m"
    unfolding partition_keys_def using mem by (auto simp: image_iff)
  with ord have keys: "map key_sort ?ks = sorted_list_of_set (partition_keys table root m)"
    by (metis list.set_map sorted_list_of_set.idem_if_sorted_distinct)
  then have len: "length ?ks = card (partition_keys table root m)" by (metis length_map length_sorted_list_of_set)
  have "map (item_text ''SK'') (List.map_filter (stored m) ks) = map key_sort ks" if "set ks \<subseteq> set ?ks" for ks
    using that
  proof (induction ks)
    case (Cons k ks)
    then obtain i where i: "stored m k = Some i" using mem by auto
    with assms(1) have "item_text ''SK'' i = key_sort k" by (simp add: memory_ok_def carries_address_def item_text_def)
    with Cons i show ?case by (simp add: map_filter_simps)
  qed (simp add: map_filter_simps)
  then have items: "map (item_text ''SK'') (List.map_filter (stored m) ?ks) = map key_sort ?ks" by simp
  have "page_loop dc ?r m MAX_PARTITION_DELETE_PAGES None =
      (if length ?ks div page_size < MAX_PARTITION_DELETE_PAGES then Some (List.map_filter (stored m) ?ks) else None)"
    using page_loop_result [where done' = "[]" and todo = ?ks and r = ?r and m = m] assms(1,2) by simp
  then show ?thesis
    using assms(2,3) items keys len by (simp add: partition_item_sort_keys_def div_less_iff_less_mult mult.commute)
qed

section \<open>The reset lock\<close>

lemma set_add_target: "set ops \<subseteq> set (add_target operation ops)" "set (add_target operation ops) \<subseteq> insert operation (set ops)"
  by (auto simp: add_target_def)

lemma fold_add_target: "set ops \<subseteq> set (fold add_target new ops)"
proof (induction new arbitrary: ops)
  case (Cons x new)
  from Cons [of "add_target x ops"] set_add_target(1) [of ops x] show ?case by simp
qed simp

lemma fence_operations_superset: "fence_operations sha a ops = Inr full \<Longrightarrow> set ops \<subseteq> set full"
  using fold_add_target set_add_target(1) by (fastforce simp: fence_operations_def Let_def split: if_splits)

lemma fence_operations_guard:
  assumes "fence_operations sha None ops = Inr full" "list_ex is_normal_demo_write ops"
  shows "Check_item LOCK_KEY Key_absent \<in> set full"
proof -
  let ?g = "Check_item LOCK_KEY Key_absent"
  have "?g \<in> set (add_target ?g ops)"
    using assms by (auto simp: fence_operations_def add_target_def Let_def list_ex_iff split: if_splits)
  then show ?thesis
    using assms fold_add_target by (fastforce simp: fence_operations_def Let_def split: if_splits)
qed

lemma fence_operations_normal:
  "fence_operations sha None ops = Inr full \<Longrightarrow> list_ex is_normal_demo_write ops \<Longrightarrow> list_ex is_normal_demo_write full"
  using fence_operations_superset by (fastforce simp: list_ex_iff)

lemma transact_write_locked:
  assumes "transact_write dc now ops token m = (r, m')" "dc_reset_authority dc = None"
    "list_ex is_normal_demo_write ops" "stored m LOCK_KEY \<noteq> None"
  shows "mem_current m' = mem_current m"
  using assms(1)
proof (cases rule: transact_write_cases)
  case (applied full)
  with assms(2,3) fence_operations_guard have "Check_item LOCK_KEY Key_absent \<in> set full" by simp
  with applied(5) assms(4) show ?thesis by force
qed simp_all

lemma write_item_locked:
  assumes "write_item dc now fresh operation m = (r, m')" "dc_reset_authority dc = None"
    "is_normal_demo_write operation" "stored m LOCK_KEY \<noteq> None"
  shows "mem_current m' = mem_current m"
  using assms(1)
proof (cases rule: write_item_cases)
  case (transacted ops)
  with assms(2,3) fence_operations_normal have "list_ex is_normal_demo_write ops" by simp
  with transact_write_locked [OF transacted(3) assms(2)] assms(4) show ?thesis by blast
next
  case applied
  with assms(2,3) fence_operations_guard [of "dc_sha dc" "[operation]"] have "operation = Check_item LOCK_KEY Key_absent" by simp
  with assms(3) show ?thesis by (simp add: is_normal_demo_write_def)
qed simp

end
