(* ===== verification/Keys.thy ===== *)
theory Keys
  imports Calendar
begin

text \<open>
  \<open>src/chorus/infrastructure/dynamodb/keys.py\<close>: the key grammar of the three tables. A key is a list of
  checked segments joined with the reserved separator, so it determines its segments. The SHA-256
  digests inside keys are the argument \<open>sha\<close> (hexadecimal text).
\<close>

section \<open>Segments\<close>

definition MAX_KEY_SEGMENT_LENGTH :: nat where "MAX_KEY_SEGMENT_LENGTH = 256"
definition MANDATE_VERSION_WIDTH :: nat where "MANDATE_VERSION_WIDTH = 10"
definition SNAPSHOT_CHUNK_INDEX_WIDTH :: nat where "SNAPSHOT_CHUNK_INDEX_WIDTH = 6"

definition key_segment :: "string \<Rightarrow> string result" where
  "key_segment s = bindE (checks
     [(s = [] \<or> length s > MAX_KEY_SEGMENT_LENGTH, ValueError ''key segment length is invalid''),
      (CHR ''#'' \<in> set s, ValueError ''key segment cannot contain the reserved separator''),
      (list_ex (\<lambda>c. c < CHR '' '' \<or> c = char_of (127 :: nat)) s,
       ValueError ''key segment cannot contain control characters'')]) (\<lambda>_. Inr s)"

fun hash_join :: "string list \<Rightarrow> string" where
  "hash_join [] = []"
| "hash_join [s] = s"
| "hash_join (s # t # ss) = s @ CHR ''#'' # hash_join (t # ss)"

definition key_join :: "string list \<Rightarrow> string result" where
  "key_join segments = bindE (map_result key_segment segments) (\<lambda>ss. Inr (hash_join ss))"

lemma key_segment_Inr_iff:
  "key_segment s = Inr t \<longleftrightarrow> t = s \<and> s \<noteq> [] \<and> length s \<le> MAX_KEY_SEGMENT_LENGTH \<and> CHR ''#'' \<notin> set s \<and>
     (\<forall>c\<in>set s. CHR '' '' \<le> c \<and> c \<noteq> char_of (127 :: nat))"
  by (auto simp: key_segment_def result_simps list_ex_iff not_less)

lemma key_join_Inr:
  assumes "key_join segments = Inr s"
  shows "s = hash_join segments" "\<forall>x\<in>set segments. x \<noteq> [] \<and> CHR ''#'' \<notin> set x"
proof -
  from assms obtain ss where "list_all2 (\<lambda>x y. key_segment x = Inr y) segments ss" "s = hash_join ss"
    by (auto simp: key_join_def result_simps map_result_Inr_iff)
  moreover from this(1) have "ss = segments"
    by (induction rule: list_all2_induct) (auto simp: key_segment_Inr_iff)
  ultimately show "s = hash_join segments" "\<forall>x\<in>set segments. x \<noteq> [] \<and> CHR ''#'' \<notin> set x"
    by (auto simp: list_all2_same key_segment_Inr_iff)
qed

lemma append_hash_inj:
  "CHR ''#'' \<notin> set s \<Longrightarrow> CHR ''#'' \<notin> set t \<Longrightarrow> s @ CHR ''#'' # u = t @ CHR ''#'' # v \<longleftrightarrow> s = t \<and> u = v"
proof (induction s arbitrary: t)
  case Nil
  then show ?case by (cases t) auto
next
  case (Cons c s)
  then show ?case by (cases t) auto
qed

lemma hash_join_inj:
  assumes "\<forall>x\<in>set xs. x \<noteq> [] \<and> CHR ''#'' \<notin> set x" "\<forall>x\<in>set ys. x \<noteq> [] \<and> CHR ''#'' \<notin> set x"
    "hash_join xs = hash_join ys"
  shows "xs = ys"
  using assms
proof (induction xs arbitrary: ys rule: hash_join.induct)
  case 1
  then show ?case by (cases ys rule: hash_join.cases) auto
next
  case (2 s)
  then show ?case by (cases ys rule: hash_join.cases) auto
next
  case (3 s t ss)
  show ?case
  proof (cases ys rule: hash_join.cases)
    case (3 u v vs)
    with "3.prems" have "s = u \<and> hash_join (t # ss) = hash_join (v # vs)" by (simp add: append_hash_inj)
    with "3.IH" [of "v # vs"] "3.prems" 3 show ?thesis by simp
  qed (use "3.prems" in auto)
qed

text \<open>Two keys are equal only when they are built from the same segments.\<close>

lemma key_join_inj: "key_join xs = Inr s \<Longrightarrow> key_join ys = Inr s \<Longrightarrow> xs = ys"
  using key_join_Inr hash_join_inj by metis

section \<open>Partitions\<close>

definition namespace_partition :: "namespace \<Rightarrow> string result" where
  "namespace_partition ns = key_join [''NS'', ns_value ns]"

definition community_partition :: "namespace \<Rightarrow> community_id \<Rightarrow> string result" where
  "community_partition ns i = key_join [''NS'', ns_value ns, ''COMM'', ident_str i]"

definition case_partition :: "namespace \<Rightarrow> case_id \<Rightarrow> string result" where
  "case_partition ns i = key_join [''NS'', ns_value ns, ''CASE'', ident_str i]"

definition operation_partition :: "namespace \<Rightarrow> operation_id \<Rightarrow> string result" where
  "operation_partition ns i = key_join [''NS'', ns_value ns, ''OPERATION'', ident_str i]"

definition view_partition :: "namespace \<Rightarrow> view_id \<Rightarrow> string result" where
  "view_partition ns i = key_join [''NS'', ns_value ns, ''VIEW'', ident_str i]"

definition view_current_partition :: "namespace \<Rightarrow> case_id \<Rightarrow> string result" where
  "view_current_partition ns i = key_join [''NS'', ns_value ns, ''VIEW_CURRENT'', ident_str i]"

definition action_partition :: "namespace \<Rightarrow> action_id \<Rightarrow> string result" where
  "action_partition ns i = key_join [''NS'', ns_value ns, ''ACTION'', ident_str i]"

definition action_current_partition :: "namespace \<Rightarrow> case_id \<Rightarrow> string result" where
  "action_current_partition ns i = key_join [''NS'', ns_value ns, ''ACTION_CURRENT'', ident_str i]"

definition execution_partition :: "namespace \<Rightarrow> action_id \<Rightarrow> string result" where
  "execution_partition ns i = key_join [''NS'', ns_value ns, ''EXECUTION'', ident_str i]"

definition fence_partition :: "namespace \<Rightarrow> case_id \<Rightarrow> string result" where
  "fence_partition ns i = key_join [''NS'', ns_value ns, ''FENCE'', ident_str i]"

definition demo_clock_partition :: "namespace \<Rightarrow> string result" where
  "demo_clock_partition ns = key_join [''NS'', ns_value ns, ''CLOCK'']"

definition demo_control_partition :: "namespace \<Rightarrow> string result" where
  "demo_control_partition ns = key_join [''NS'', ns_value ns]"

definition outbound_message_digest :: "(string \<Rightarrow> string) \<Rightarrow> namespace \<Rightarrow> string \<Rightarrow> string result" where
  "outbound_message_digest sha ns ses_message_id =
     (if ses_message_id = [] then Inl (ValueError ''an SES message identifier is required'')
      else Inr (sha (ns_value ns @ char_of (31 :: nat) # ses_message_id)))"

definition outbound_message_partition :: "(string \<Rightarrow> string) \<Rightarrow> namespace \<Rightarrow> string \<Rightarrow> string result" where
  "outbound_message_partition sha ns ses_message_id =
     bindE (outbound_message_digest sha ns ses_message_id) (\<lambda>digest.
       key_join [''NS'', ns_value ns, ''OUTBOUND_MESSAGE'', digest])"

section \<open>Sort keys\<close>

definition community_sort_key :: "community_id \<Rightarrow> string result" where
  "community_sort_key i = key_join [''COMMUNITY'', ident_str i]"

definition contributor_sort_key :: "contributor_id \<Rightarrow> string result" where
  "contributor_sort_key i = key_join [''CONTRIBUTOR'', ident_str i]"

definition message_sort_key :: "datetime \<Rightarrow> message_id \<Rightarrow> string result" where
  "message_sort_key sent_at i = bindE (format_utc sent_at) (\<lambda>t. key_join [''MESSAGE'', t, ident_str i])"

definition message_sort_key_lower_bound :: "datetime \<Rightarrow> string result" where
  "message_sort_key_lower_bound moment = bindE (format_utc moment) (\<lambda>t. key_join [''MESSAGE'', t])"

definition channel_lock_sort_key :: "string \<Rightarrow> digest \<Rightarrow> string result" where
  "channel_lock_sort_key adapter d = key_join [''MESSAGE_KEY'', adapter, digest_value d]"

definition feed_signal_sort_key :: "message_id \<Rightarrow> string result" where
  "feed_signal_sort_key i = key_join [''MESSAGE_SIGNAL'', ident_str i]"

definition operation_sort_key :: string where "operation_sort_key = ''OPERATION''"

definition evidence_root_sort_key :: "digest \<Rightarrow> string result" where
  "evidence_root_sort_key d = key_join [''EVIDENCE_ROOT'', digest_value d]"

definition evidence_root_id_sort_key :: "evidence_root_id \<Rightarrow> string result" where
  "evidence_root_id_sort_key i = key_join [''EVIDENCE_ROOT_ID'', ident_str i]"

definition case_sort_key :: string where "case_sort_key = ''CASE''"

definition report_sort_key :: "report_id \<Rightarrow> string result" where
  "report_sort_key i = key_join [''REPORT'', ident_str i]"

definition fact_sort_key :: "fact_id \<Rightarrow> string result" where
  "fact_sort_key i = key_join [''FACT'', ident_str i]"

definition evidence_item_sort_key :: "evidence_item_id \<Rightarrow> string result" where
  "evidence_item_sort_key i = key_join [''EVIDENCE'', ident_str i]"

definition assessment_sort_key :: "datetime \<Rightarrow> assessment_id \<Rightarrow> string result" where
  "assessment_sort_key created_at i = bindE (format_utc created_at) (\<lambda>t. key_join [''ASSESSMENT'', t, ident_str i])"

definition zfill :: "nat \<Rightarrow> string \<Rightarrow> string" where
  "zfill w s = replicate (w - length s) CHR ''0'' @ s"

definition mandate_version_sort_key :: "mandate_id \<Rightarrow> int \<Rightarrow> string result" where
  "mandate_version_sort_key i version =
     bindE (checks
       [(version < 1, ValueError ''mandate version must be positive''),
        (length (nat_text (nat version)) > MANDATE_VERSION_WIDTH, ValueError ''mandate version exceeds the fixed key width'')])
     (\<lambda>_. key_join [''MANDATE'', ident_str i, ''VERSION'', zfill MANDATE_VERSION_WIDTH (nat_text (nat version))])"

definition mandate_current_sort_key :: "mandate_id \<Rightarrow> string result" where
  "mandate_current_sort_key i = key_join [''MANDATE_CURRENT'', ident_str i]"

definition fact_mandate_sort_key :: "fact_id \<Rightarrow> mandate_id \<Rightarrow> string result" where
  "fact_mandate_sort_key f m = key_join [''FACT_MANDATE'', ident_str f, ident_str m]"

definition agent_invocation_sort_key :: "uuid \<Rightarrow> string result" where
  "agent_invocation_sort_key u = key_join [''AGENT_INVOCATION'', uuid_text u]"

definition monitor_progress_sort_key :: "uuid \<Rightarrow> string result" where
  "monitor_progress_sort_key u = key_join [''AGENT_PROGRESS'', uuid_text u]"

definition monitor_snapshot_manifest_sort_key :: "string \<Rightarrow> uuid \<Rightarrow> string result" where
  "monitor_snapshot_manifest_sort_key k u = key_join [k, uuid_text u, ''MANIFEST'']"

definition monitor_snapshot_chunk_sort_key :: "string \<Rightarrow> uuid \<Rightarrow> int \<Rightarrow> string result" where
  "monitor_snapshot_chunk_sort_key k u index =
     bindE (checks [(index < 0 \<or> length (nat_text (nat index)) > SNAPSHOT_CHUNK_INDEX_WIDTH,
       ValueError ''snapshot chunk index exceeds the fixed key width'')])
     (\<lambda>_. key_join [k, uuid_text u, ''CHUNK'', zfill SNAPSHOT_CHUNK_INDEX_WIDTH (nat_text (nat index))])"

definition send_fence_sort_key :: string where "send_fence_sort_key = ''SEND_FENCE''"

definition idempotency_sort_key :: "string \<Rightarrow> digest \<Rightarrow> digest \<Rightarrow> string result" where
  "idempotency_sort_key command actor_id_hash key_hash =
     key_join [''IDEMPOTENCY'', command, digest_value actor_id_hash, digest_value key_hash]"

definition view_sort_key :: string where "view_sort_key = ''VIEW''"
definition current_pointer_sort_key :: string where "current_pointer_sort_key = ''CURRENT''"
definition action_sort_key :: string where "action_sort_key = ''ACTION''"
definition outbound_message_sort_key :: string where "outbound_message_sort_key = ''OUTBOUND_MESSAGE''"

definition view_history_sort_key :: "datetime \<Rightarrow> view_id \<Rightarrow> string result" where
  "view_history_sort_key generated_at i = bindE (format_utc generated_at) (\<lambda>t. key_join [''HISTORY'', t, ident_str i])"

definition approval_sort_key :: "approval_id \<Rightarrow> string result" where
  "approval_sort_key i = key_join [''APPROVAL'', ident_str i]"

definition execution_sort_key :: "execution_id \<Rightarrow> string result" where
  "execution_sort_key i = key_join [''EXECUTION'', ident_str i]"

definition action_history_sort_key :: "datetime \<Rightarrow> action_id \<Rightarrow> string result" where
  "action_history_sort_key created_at i = bindE (format_utc created_at) (\<lambda>t. key_join [''HISTORY'', t, ident_str i])"

definition commitment_sort_key :: "commitment_id \<Rightarrow> string result" where
  "commitment_sort_key i = key_join [''COMMITMENT'', ident_str i]"

definition compile_audit_sort_key :: "uuid \<Rightarrow> string result" where
  "compile_audit_sort_key u = key_join [''COMPILE'', uuid_text u]"

definition audit_event_sort_key :: "datetime \<Rightarrow> uuid \<Rightarrow> string result" where
  "audit_event_sort_key moment u = bindE (format_utc moment) (\<lambda>t. key_join [''EVENT'', t, uuid_text u])"

definition commitment_schedule_sort_key :: "commitment_id \<Rightarrow> string result" where
  "commitment_schedule_sort_key i = key_join [''COMMITMENT_SCHEDULE'', ident_str i]"

definition verification_request_sort_key :: "commitment_id \<Rightarrow> int \<Rightarrow> string result" where
  "verification_request_sort_key i generation =
     bindE (checks [(generation < 1 \<or> length (nat_text (nat generation)) > MANDATE_VERSION_WIDTH,
       ValueError ''verification request generation exceeds the fixed key width'')])
     (\<lambda>_. key_join [''VERIFICATION_REQUEST'', ident_str i, zfill MANDATE_VERSION_WIDTH (nat_text (nat generation))])"

definition demo_manifest_sort_key :: "string \<Rightarrow> string result" where
  "demo_manifest_sort_key seed_version = bindE (key_segment seed_version) (\<lambda>s. Inr (''DEMO_MANIFEST#'' @ s))"

definition demo_reset_receipt_sort_key :: "string \<Rightarrow> string result" where
  "demo_reset_receipt_sort_key d = bindE (key_segment d) (\<lambda>s. Inr (''DEMO_RESET_RECEIPT#'' @ s))"

section \<open>The segments the typed values give\<close>

lemma hex_fixed_chars: "c \<in> set (hex_fixed k n) \<Longrightarrow> hex_digit_value c \<noteq> None"
  by (induction k arbitrary: n) (auto simp: hex_digit_value_digit)

lemma set_insert_at: "set (insert_at i c xs) = insert c (set xs)"
  by (metis append_take_drop_id insert_at_def list.simps(15) set_append Un_insert_right)

lemma uuid_text_chars: "c \<in> set (uuid_text u) \<Longrightarrow> c = CHR ''-'' \<or> hex_digit_value c \<noteq> None"
  using hex_fixed_chars by (auto simp: uuid_text_def set_insert_at)

lemma hex_char: "hex_digit_value c \<noteq> None \<Longrightarrow> CHR '' '' \<le> c \<and> c \<noteq> char_of (127 :: nat) \<and> c \<noteq> CHR ''#''"
proof -
  assume "hex_digit_value c \<noteq> None"
  then have "48 \<le> code c \<and> code c \<le> 57 \<or> 65 \<le> code c \<and> code c \<le> 70 \<or> 97 \<le> code c \<and> code c \<le> 102"
    by (auto simp: hex_digit_value_def is_digit_def in_range_def less_eq_char_def code_def split: if_splits)
  moreover have "code (CHR ''#'') = 35" "code (char_of (127 :: nat)) = 127" "code (CHR '' '') = 32"
    by (simp_all add: code_def)
  ultimately show ?thesis by (auto simp: less_eq_char_def code_def)
qed

lemma segment_uuid [simp]: "key_segment (uuid_text u) = Inr (uuid_text u)"
proof -
  have "length (uuid_text u) = 36" by (simp add: uuid_text_def)
  moreover have "uuid_text u \<noteq> []" using calculation by auto
  moreover have "CHR '' '' \<le> c \<and> c \<noteq> char_of (127 :: nat) \<and> c \<noteq> CHR ''#''" if "c \<in> set (uuid_text u)" for c
  proof -
    have "code (char_of (127 :: nat)) = 127" "code CHR ''-'' = 45" by (simp_all add: code_def)
    then have "CHR ''-'' \<noteq> char_of (127 :: nat)" by (metis numeral_eq_iff num.distinct num.inject)
    then show ?thesis using uuid_text_chars [OF that] hex_char [of c] by (auto simp: less_eq_char_def)
  qed
  ultimately show ?thesis by (auto simp: key_segment_Inr_iff MAX_KEY_SEGMENT_LENGTH_def)
qed

end
