(* ===== verification/Codec.thy ===== *)
theory Codec
  imports Storage_Laws Keys
begin

text \<open>
  \<open>src/chorus/infrastructure/dynamodb/codec.py\<close>: the envelope of a stored item and the exact attribute
  reader. A reader is the item, the reference its errors carry and the names consumed so far; a reading
  is a function on readers that fails or returns a value and the reader after it. The lemmas in
  \<open>reads\<close> say of each reading exactly when it returns a value, so a decoder's result unfolds to the
  attributes the item must have.
\<close>

named_theorems reads "when a reading returns a value"

section \<open>Readings\<close>

record item_reader =
  rd_item :: stored_item
  rd_ref :: string
  rd_consumed :: "string set"

type_synonym 'a reading = "item_reader \<Rightarrow> ('a \<times> item_reader) result"

definition item_reader_init :: "string \<Rightarrow> stored_item \<Rightarrow> item_reader" where
  "item_reader_init ref item = \<lparr>rd_item = item, rd_ref = ref, rd_consumed = {}\<rparr>"

definition read_fail :: "string \<Rightarrow> string \<Rightarrow> error" where
  "read_fail ref problem = IntegrityError (ref @ '':'' @ problem)"

definition retR :: "'a \<Rightarrow> 'a reading" where
  "retR x rd = Inr (x, rd)"

definition bindR :: "'a reading \<Rightarrow> ('a \<Rightarrow> 'b reading) \<Rightarrow> 'b reading" where
  "bindR m f rd = (case m rd of Inl e \<Rightarrow> Inl e | Inr (x, rd') \<Rightarrow> f x rd')"

definition failR :: "string \<Rightarrow> 'a reading" where
  "failR problem rd = Inl (read_fail (rd_ref rd) problem)"

text \<open>\<open>except ValueError as error: raise _fail(...)\<close>; the constructors called raise nothing else.\<close>

definition orfailR :: "string \<Rightarrow> 'a result \<Rightarrow> 'a reading" where
  "orfailR problem r = (case r of Inl e \<Rightarrow> failR problem | Inr x \<Rightarrow> retR x)"

definition consume :: "string \<Rightarrow> item_reader \<Rightarrow> item_reader" where
  "consume name rd = rd\<lparr>rd_consumed := insert name (rd_consumed rd)\<rparr>"

definition rd_raw :: "string \<Rightarrow> stored_value reading" where
  "rd_raw name rd =
     (case map_of (rd_item rd) name of
        None \<Rightarrow> Inl (read_fail (rd_ref rd) (''missing:'' @ name))
      | Some v \<Rightarrow> Inr (v, consume name rd))"

definition rd_text :: "string \<Rightarrow> string reading" where
  "rd_text name = bindR (rd_raw name) (\<lambda>v. case v of SStr s \<Rightarrow> retR s | _ \<Rightarrow> failR (''type:'' @ name))"

definition rd_optional_text :: "string \<Rightarrow> string option reading" where
  "rd_optional_text name = bindR (rd_raw name) (\<lambda>v. case v of
     SNull \<Rightarrow> retR None | SStr s \<Rightarrow> retR (Some s) | _ \<Rightarrow> failR (''type:'' @ name))"

text \<open>What follows an \<open>optional_text\<close>.\<close>

definition optionalR :: "('a \<Rightarrow> 'b reading) \<Rightarrow> 'a option \<Rightarrow> 'b option reading" where
  "optionalR f v = (case v of None \<Rightarrow> retR None | Some x \<Rightarrow> bindR (f x) (\<lambda>y. retR (Some y)))"

definition rd_wrap :: "string \<Rightarrow> string \<Rightarrow> sensitive_str reading" where
  "rd_wrap name s = orfailR (''value:'' @ name) (validated sensitive_str_post_init (SensitiveStr s))"

definition rd_sensitive :: "string \<Rightarrow> sensitive_str reading" where
  "rd_sensitive name = bindR (rd_text name) (rd_wrap name)"

definition rd_optional_sensitive :: "string \<Rightarrow> sensitive_str option reading" where
  "rd_optional_sensitive name = bindR (rd_optional_text name) (optionalR (rd_wrap name))"

definition rd_number :: "string \<Rightarrow> int reading" where
  "rd_number name = bindR (rd_raw name) (\<lambda>v. case v of SInt n \<Rightarrow> retR n | _ \<Rightarrow> failR (''type:'' @ name))"

definition rd_optional_number :: "string \<Rightarrow> int option reading" where
  "rd_optional_number name = bindR (rd_raw name) (\<lambda>v. case v of
     SNull \<Rightarrow> retR None | SInt n \<Rightarrow> retR (Some n) | _ \<Rightarrow> failR (''type:'' @ name))"

definition rd_flag :: "string \<Rightarrow> bool reading" where
  "rd_flag name = bindR (rd_raw name) (\<lambda>v. case v of SBool b \<Rightarrow> retR b | _ \<Rightarrow> failR (''type:'' @ name))"

definition rd_digest_value :: "string \<Rightarrow> string \<Rightarrow> digest reading" where
  "rd_digest_value name s = orfailR (''value:'' @ name) (validated digest_post_init (Sha256Digest s))"

definition rd_digest :: "string \<Rightarrow> digest reading" where
  "rd_digest name = bindR (rd_text name) (rd_digest_value name)"

definition rd_optional_digest :: "string \<Rightarrow> digest option reading" where
  "rd_optional_digest name = bindR (rd_optional_text name) (optionalR (rd_digest_value name))"

definition rd_parse_uuid :: "string \<Rightarrow> string \<Rightarrow> uuid reading" where
  "rd_parse_uuid name s =
     (case uuid_of_text s of None \<Rightarrow> failR (''value:'' @ name)
      | Some u \<Rightarrow> if uuid_text u \<noteq> s then failR (''value:'' @ name) else retR u)"

definition rd_uuid :: "string \<Rightarrow> uuid reading" where
  "rd_uuid name = bindR (rd_text name) (rd_parse_uuid name)"

definition rd_optional_uuid :: "string \<Rightarrow> uuid option reading" where
  "rd_optional_uuid name = bindR (rd_optional_text name) (optionalR (rd_parse_uuid name))"

definition rd_identifier :: "string \<Rightarrow> 'k ident reading" where
  "rd_identifier name = bindR (rd_text name) (\<lambda>s. bindR (rd_parse_uuid name s) (\<lambda>u. retR (Ident u)))"

definition rd_optional_identifier :: "string \<Rightarrow> 'k ident option reading" where
  "rd_optional_identifier name =
     bindR (rd_optional_text name) (optionalR (\<lambda>s. bindR (rd_parse_uuid name s) (\<lambda>u. retR (Ident u))))"

definition rd_namespace :: "string \<Rightarrow> namespace reading" where
  "rd_namespace name = bindR (rd_text name) (\<lambda>s.
     orfailR (''value:'' @ name) (validated namespace_post_init (Namespace s)))"

definition rd_instant :: "string \<Rightarrow> datetime reading" where
  "rd_instant name = bindR (rd_text name) (\<lambda>s. orfailR (''value:'' @ name) (parse_utc s))"

definition rd_optional_instant :: "string \<Rightarrow> datetime option reading" where
  "rd_optional_instant name =
     bindR (rd_optional_text name) (optionalR (\<lambda>s. orfailR (''value:'' @ name) (parse_utc s)))"

text \<open>A closed string enumeration is the text of each member and the list of members.\<close>

definition enum_of :: "('a \<Rightarrow> string) \<Rightarrow> 'a list \<Rightarrow> string \<Rightarrow> 'a option" where
  "enum_of as_text members s = List.find (\<lambda>x. as_text x = s) members"

definition rd_enum_value :: "string \<Rightarrow> ('a \<Rightarrow> string) \<Rightarrow> 'a list \<Rightarrow> string \<Rightarrow> 'a reading" where
  "rd_enum_value name as_text members s =
     (case enum_of as_text members s of None \<Rightarrow> failR (''enum:'' @ name) | Some x \<Rightarrow> retR x)"

definition rd_enum :: "string \<Rightarrow> ('a \<Rightarrow> string) \<Rightarrow> 'a list \<Rightarrow> 'a reading" where
  "rd_enum name as_text members = bindR (rd_text name) (rd_enum_value name as_text members)"

definition rd_optional_enum :: "string \<Rightarrow> ('a \<Rightarrow> string) \<Rightarrow> 'a list \<Rightarrow> 'a option reading" where
  "rd_optional_enum name as_text members =
     bindR (rd_optional_text name) (optionalR (rd_enum_value name as_text members))"

definition rd_sequence :: "string \<Rightarrow> stored_value list reading" where
  "rd_sequence name = bindR (rd_raw name) (\<lambda>v. case v of SList vs \<Rightarrow> retR vs | _ \<Rightarrow> failR (''type:'' @ name))"

fun mapR :: "('a \<Rightarrow> 'b reading) \<Rightarrow> 'a list \<Rightarrow> 'b list reading" where
  "mapR f [] = retR []"
| "mapR f (x # xs) = bindR (f x) (\<lambda>y. bindR (mapR f xs) (\<lambda>ys. retR (y # ys)))"

definition rd_texts :: "string \<Rightarrow> string list reading" where
  "rd_texts name = bindR (rd_sequence name)
     (mapR (\<lambda>v. case v of SStr s \<Rightarrow> retR s | _ \<Rightarrow> failR (''type:'' @ name)))"

definition rd_uuids :: "string \<Rightarrow> uuid list reading" where
  "rd_uuids name = bindR (rd_texts name) (mapR (rd_parse_uuid name))"

definition rd_identifiers :: "string \<Rightarrow> 'k ident list reading" where
  "rd_identifiers name =
     bindR (rd_texts name) (mapR (\<lambda>s. bindR (rd_parse_uuid name s) (\<lambda>u. retR (Ident u))))"

definition rd_mapping :: "string \<Rightarrow> stored_item reading" where
  "rd_mapping name = bindR (rd_raw name) (\<lambda>v. case v of SMap i \<Rightarrow> retR i | _ \<Rightarrow> failR (''type:'' @ name))"

definition rd_optional_mapping :: "string \<Rightarrow> stored_item option reading" where
  "rd_optional_mapping name = bindR (rd_raw name) (\<lambda>v. case v of
     SNull \<Rightarrow> retR None | SMap i \<Rightarrow> retR (Some i) | _ \<Rightarrow> failR (''type:'' @ name))"

definition rd_mappings :: "string \<Rightarrow> stored_item list reading" where
  "rd_mappings name = bindR (rd_sequence name)
     (mapR (\<lambda>v. case v of SMap i \<Rightarrow> retR i | _ \<Rightarrow> failR (''type:'' @ name)))"

text \<open>A child reader has its own item and its own consumed names; the parent reader is not touched.\<close>

definition rd_child :: "stored_item \<Rightarrow> string \<Rightarrow> 'a reading \<Rightarrow> 'a reading" where
  "rd_child item suffix m rd =
     (case m (item_reader_init (rd_ref rd @ ''.'' @ suffix) item) of
        Inl e \<Rightarrow> Inl e | Inr (x, _) \<Rightarrow> Inr (x, rd))"

definition rd_contains :: "string \<Rightarrow> item_reader \<Rightarrow> bool" where
  "rd_contains name rd \<longleftrightarrow> name \<in> set (map fst (rd_item rd))"

definition rd_finish :: "unit reading" where
  "rd_finish rd =
     (if set (map fst (rd_item rd)) - rd_consumed rd \<noteq> {} then failR ''unexpected_attributes'' rd else retR () rd)"

text \<open>\<open>build_entity\<close>: a \<open>ValueError\<close> or \<open>TypeError\<close> of the constructor becomes an integrity error.\<close>

definition build_entity :: "'a result \<Rightarrow> 'a reading" where
  "build_entity r rd =
     (case r of Inr x \<Rightarrow> Inr (x, rd)
      | Inl (ValueError _) \<Rightarrow> Inl (read_fail (rd_ref rd) ''invariant'')
      | Inl (TypeError _) \<Rightarrow> Inl (read_fail (rd_ref rd) ''invariant'')
      | Inl e \<Rightarrow> Inl e)"

definition build_entity_error :: "string \<Rightarrow> 'a reading" where
  "build_entity_error name = failR (''value:'' @ name)"

text \<open>A computation that raises its own errors.\<close>

definition liftR :: "'a result \<Rightarrow> 'a reading" where
  "liftR r rd = (case r of Inl e \<Rightarrow> Inl e | Inr x \<Rightarrow> Inr (x, rd))"

definition decode_with :: "string \<Rightarrow> 'a reading \<Rightarrow> stored_item \<Rightarrow> 'a result" where
  "decode_with ref m item = (case m (item_reader_init ref item) of Inl e \<Rightarrow> Inl e | Inr (x, _) \<Rightarrow> Inr x)"

section \<open>The envelope\<close>

datatype entity_type =
    ET_COMMUNITY | ET_CONTRIBUTOR | ET_COMMUNITY_MESSAGE | ET_CHANNEL_UNIQUENESS_LOCK | ET_APPLICATION_OPERATION
  | ET_EVIDENCE_ROOT | ET_EVIDENCE_ROOT_LOCATOR | ET_FEED_SIGNAL_PROJECTION | ET_MONITOR_APPLY_PROGRESS
  | ET_MONITOR_SNAPSHOT_MANIFEST | ET_MONITOR_SNAPSHOT_CHUNK | ET_COMMUNITY_CASE | ET_REPORT | ET_FACT
  | ET_EVIDENCE_ITEM | ET_INVESTIGATION_ASSESSMENT | ET_DISCLOSURE_MANDATE | ET_CURRENT_MANDATE_POINTER
  | ET_FACT_MANDATE_ASSOCIATION | ET_AGENT_INVOCATION_RESULT | ET_SEND_FENCE | ET_IDEMPOTENCY_RECORD
  | ET_SHAREABLE_VIEW | ET_CURRENT_VIEW_POINTER | ET_VIEW_HISTORY_LOCATOR | ET_ACTION_PROPOSAL | ET_APPROVAL
  | ET_ACTION_EXECUTION | ET_CURRENT_ACTION_POINTER | ET_ACTION_HISTORY_LOCATOR | ET_COMMITMENT
  | ET_COMMITMENT_SCHEDULE | ET_VERIFICATION_REQUEST | ET_OUTBOUND_MESSAGE_LOCATOR | ET_AUDIT_EVENT
  | ET_COMPILER_AUDIT_PROJECTION | ET_DEMO_CLOCK | ET_DEMO_MANIFEST | ET_DEMO_RESET_LOCK
  | ET_DEMO_RESET_RECEIPT | ET_DEMO_REGISTERED_PARTITION

fun entity_text :: "entity_type \<Rightarrow> string" where
  "entity_text ET_COMMUNITY = ''COMMUNITY''"
| "entity_text ET_CONTRIBUTOR = ''CONTRIBUTOR''"
| "entity_text ET_COMMUNITY_MESSAGE = ''COMMUNITY_MESSAGE''"
| "entity_text ET_CHANNEL_UNIQUENESS_LOCK = ''CHANNEL_UNIQUENESS_LOCK''"
| "entity_text ET_APPLICATION_OPERATION = ''APPLICATION_OPERATION''"
| "entity_text ET_EVIDENCE_ROOT = ''EVIDENCE_ROOT''"
| "entity_text ET_EVIDENCE_ROOT_LOCATOR = ''EVIDENCE_ROOT_LOCATOR''"
| "entity_text ET_FEED_SIGNAL_PROJECTION = ''FEED_SIGNAL_PROJECTION''"
| "entity_text ET_MONITOR_APPLY_PROGRESS = ''MONITOR_APPLY_PROGRESS''"
| "entity_text ET_MONITOR_SNAPSHOT_MANIFEST = ''MONITOR_SNAPSHOT_MANIFEST''"
| "entity_text ET_MONITOR_SNAPSHOT_CHUNK = ''MONITOR_SNAPSHOT_CHUNK''"
| "entity_text ET_COMMUNITY_CASE = ''COMMUNITY_CASE''"
| "entity_text ET_REPORT = ''REPORT''"
| "entity_text ET_FACT = ''FACT''"
| "entity_text ET_EVIDENCE_ITEM = ''EVIDENCE_ITEM''"
| "entity_text ET_INVESTIGATION_ASSESSMENT = ''INVESTIGATION_ASSESSMENT''"
| "entity_text ET_DISCLOSURE_MANDATE = ''DISCLOSURE_MANDATE''"
| "entity_text ET_CURRENT_MANDATE_POINTER = ''CURRENT_MANDATE_POINTER''"
| "entity_text ET_FACT_MANDATE_ASSOCIATION = ''FACT_MANDATE_ASSOCIATION''"
| "entity_text ET_AGENT_INVOCATION_RESULT = ''AGENT_INVOCATION_RESULT''"
| "entity_text ET_SEND_FENCE = ''SEND_FENCE''"
| "entity_text ET_IDEMPOTENCY_RECORD = ''IDEMPOTENCY_RECORD''"
| "entity_text ET_SHAREABLE_VIEW = ''SHAREABLE_VIEW''"
| "entity_text ET_CURRENT_VIEW_POINTER = ''CURRENT_VIEW_POINTER''"
| "entity_text ET_VIEW_HISTORY_LOCATOR = ''VIEW_HISTORY_LOCATOR''"
| "entity_text ET_ACTION_PROPOSAL = ''ACTION_PROPOSAL''"
| "entity_text ET_APPROVAL = ''APPROVAL''"
| "entity_text ET_ACTION_EXECUTION = ''ACTION_EXECUTION''"
| "entity_text ET_CURRENT_ACTION_POINTER = ''CURRENT_ACTION_POINTER''"
| "entity_text ET_ACTION_HISTORY_LOCATOR = ''ACTION_HISTORY_LOCATOR''"
| "entity_text ET_COMMITMENT = ''COMMITMENT''"
| "entity_text ET_COMMITMENT_SCHEDULE = ''COMMITMENT_SCHEDULE''"
| "entity_text ET_VERIFICATION_REQUEST = ''VERIFICATION_REQUEST''"
| "entity_text ET_OUTBOUND_MESSAGE_LOCATOR = ''OUTBOUND_MESSAGE_LOCATOR''"
| "entity_text ET_AUDIT_EVENT = ''AUDIT_EVENT''"
| "entity_text ET_COMPILER_AUDIT_PROJECTION = ''COMPILER_AUDIT_PROJECTION''"
| "entity_text ET_DEMO_CLOCK = ''DEMO_CLOCK''"
| "entity_text ET_DEMO_MANIFEST = ''DEMO_MANIFEST''"
| "entity_text ET_DEMO_RESET_LOCK = ''DEMO_RESET_LOCK''"
| "entity_text ET_DEMO_RESET_RECEIPT = ''DEMO_RESET_RECEIPT''"
| "entity_text ET_DEMO_REGISTERED_PARTITION = ''DEMO_REGISTERED_PARTITION''"

definition entity_types :: "entity_type list" where
  "entity_types =
     [ET_COMMUNITY, ET_CONTRIBUTOR, ET_COMMUNITY_MESSAGE, ET_CHANNEL_UNIQUENESS_LOCK, ET_APPLICATION_OPERATION,
      ET_EVIDENCE_ROOT, ET_EVIDENCE_ROOT_LOCATOR, ET_FEED_SIGNAL_PROJECTION, ET_MONITOR_APPLY_PROGRESS,
      ET_MONITOR_SNAPSHOT_MANIFEST, ET_MONITOR_SNAPSHOT_CHUNK, ET_COMMUNITY_CASE, ET_REPORT, ET_FACT,
      ET_EVIDENCE_ITEM, ET_INVESTIGATION_ASSESSMENT, ET_DISCLOSURE_MANDATE, ET_CURRENT_MANDATE_POINTER,
      ET_FACT_MANDATE_ASSOCIATION, ET_AGENT_INVOCATION_RESULT, ET_SEND_FENCE, ET_IDEMPOTENCY_RECORD,
      ET_SHAREABLE_VIEW, ET_CURRENT_VIEW_POINTER, ET_VIEW_HISTORY_LOCATOR, ET_ACTION_PROPOSAL, ET_APPROVAL,
      ET_ACTION_EXECUTION, ET_CURRENT_ACTION_POINTER, ET_ACTION_HISTORY_LOCATOR, ET_COMMITMENT,
      ET_COMMITMENT_SCHEDULE, ET_VERIFICATION_REQUEST, ET_OUTBOUND_MESSAGE_LOCATOR, ET_AUDIT_EVENT,
      ET_COMPILER_AUDIT_PROJECTION, ET_DEMO_CLOCK, ET_DEMO_MANIFEST, ET_DEMO_RESET_LOCK,
      ET_DEMO_RESET_RECEIPT, ET_DEMO_REGISTERED_PARTITION]"

record decoded_scope =
  ds_partition_key :: string
  ds_sort_key :: string
  ds_namespace :: namespace
  ds_community_id :: "community_id option"
  ds_case_id :: "case_id option"

fun opt_value :: "('a \<Rightarrow> stored_value) \<Rightarrow> 'a option \<Rightarrow> stored_value" where
  "opt_value f None = SNull"
| "opt_value f (Some x) = f x"

definition envelope ::
    "entity_type \<Rightarrow> string \<Rightarrow> item_key \<Rightarrow> namespace \<Rightarrow> community_id option \<Rightarrow> case_id option \<Rightarrow> stored_item" where
  "envelope entity version k ns community the_case =
     [(''PK'', SStr (key_partition k)), (''SK'', SStr (key_sort k)), (''entity_type'', SStr (entity_text entity)),
      (''schema_version'', SStr version), (''namespace'', SStr (ns_value ns)),
      (''community_id'', opt_value (SStr \<circ> ident_str) community), (''case_id'', opt_value (SStr \<circ> ident_str) the_case)]"

definition read_envelope :: "entity_type \<Rightarrow> string list \<Rightarrow> (decoded_scope \<times> string) reading" where
  "read_envelope expected accepted =
     bindR (rd_text ''PK'') (\<lambda>pk. bindR (rd_text ''SK'') (\<lambda>sk.
     bindR (rd_enum ''entity_type'' entity_text entity_types) (\<lambda>entity.
     if entity \<noteq> expected then failR ''discriminator'' else
     bindR (rd_text ''schema_version'') (\<lambda>version.
     if version \<notin> set accepted then failR ''schema_version'' else
     bindR (rd_namespace ''namespace'') (\<lambda>ns.
     bindR (rd_optional_identifier ''community_id'') (\<lambda>community.
     bindR (rd_optional_identifier ''case_id'') (\<lambda>the_case.
     retR (\<lparr>ds_partition_key = pk, ds_sort_key = sk, ds_namespace = ns, ds_community_id = community,
            ds_case_id = the_case\<rparr>, version))))))))"

section \<open>When a reading returns\<close>

lemma retR_iff [reads]: "retR x rd = Inr (y, rd') \<longleftrightarrow> y = x \<and> rd' = rd"
  by (auto simp: retR_def)

lemma bindR_iff [reads]: "bindR m f rd = Inr (y, rd'') \<longleftrightarrow> (\<exists>x rd'. m rd = Inr (x, rd') \<and> f x rd' = Inr (y, rd''))"
  by (auto simp: bindR_def split: sum.splits)

lemma failR_iff [reads]: "failR problem rd \<noteq> Inr r"
  by (simp add: failR_def)

lemma failR_if [reads]: "(if b then failR problem else m) rd = Inr r \<longleftrightarrow> \<not> b \<and> m rd = Inr r"
  by (simp add: failR_def)

lemma failR_else [reads]: "(if b then m else failR problem) rd = Inr r \<longleftrightarrow> b \<and> m rd = Inr r"
  by (simp add: failR_def)

lemma failR_None [reads]:
  "(case v of None \<Rightarrow> failR problem | Some x \<Rightarrow> m x) rd = Inr r \<longleftrightarrow> (\<exists>x. v = Some x \<and> m x rd = Inr r)"
  by (cases v) (simp_all add: failR_def)

lemma orfailR_iff [reads]: "orfailR problem r rd = Inr (y, rd') \<longleftrightarrow> r = Inr y \<and> rd' = rd"
  by (auto simp: orfailR_def failR_def retR_def split: sum.splits)

lemma build_entity_iff [reads]: "build_entity r rd = Inr (y, rd') \<longleftrightarrow> r = Inr y \<and> rd' = rd"
  by (auto simp: build_entity_def split: sum.splits error.splits)

lemma liftR_iff [reads]: "liftR r rd = Inr (y, rd') \<longleftrightarrow> r = Inr y \<and> rd' = rd"
  by (auto simp: liftR_def split: sum.splits)

lemma rd_item_consume [simp]: "rd_item (consume name rd) = rd_item rd" "rd_ref (consume name rd) = rd_ref rd"
  "rd_consumed (consume name rd) = insert name (rd_consumed rd)"
  by (simp_all add: consume_def)

lemma rd_raw_iff [reads]: "rd_raw name rd = Inr (v, rd') \<longleftrightarrow> map_of (rd_item rd) name = Some v \<and> rd' = consume name rd"
  by (auto simp: rd_raw_def split: option.splits)

lemma stored_value_case_iff:
  "(case v of SStr s \<Rightarrow> retR s | _ \<Rightarrow> failR p) rd = Inr (t, rd') \<longleftrightarrow> v = SStr t \<and> rd' = rd"
  "(case v of SInt n \<Rightarrow> retR n | _ \<Rightarrow> failR p) rd = Inr (k, rd') \<longleftrightarrow> v = SInt k \<and> rd' = rd"
  "(case v of SBool b \<Rightarrow> retR b | _ \<Rightarrow> failR p) rd = Inr (c, rd') \<longleftrightarrow> v = SBool c \<and> rd' = rd"
  "(case v of SList vs \<Rightarrow> retR vs | _ \<Rightarrow> failR p) rd = Inr (us, rd') \<longleftrightarrow> v = SList us \<and> rd' = rd"
  "(case v of SMap i \<Rightarrow> retR i | _ \<Rightarrow> failR p) rd = Inr (j, rd') \<longleftrightarrow> v = SMap j \<and> rd' = rd"
  "(case v of SNull \<Rightarrow> retR None | SStr s \<Rightarrow> retR (Some s) | _ \<Rightarrow> failR p) rd = Inr (os, rd') \<longleftrightarrow>
     v = opt_value SStr os \<and> rd' = rd"
  "(case v of SNull \<Rightarrow> retR None | SInt n \<Rightarrow> retR (Some n) | _ \<Rightarrow> failR p) rd = Inr (oi, rd') \<longleftrightarrow>
     v = opt_value SInt oi \<and> rd' = rd"
  "(case v of SNull \<Rightarrow> retR None | SMap i \<Rightarrow> retR (Some i) | _ \<Rightarrow> failR p) rd = Inr (oj, rd') \<longleftrightarrow>
     v = opt_value SMap oj \<and> rd' = rd"
  by (cases v; cases os; cases oi; cases oj; auto simp: retR_def failR_def)+

lemma rd_text_iff [reads]: "rd_text name rd = Inr (s, rd') \<longleftrightarrow> map_of (rd_item rd) name = Some (SStr s) \<and> rd' = consume name rd"
  by (auto simp: rd_text_def reads stored_value_case_iff)

lemma rd_optional_text_iff [reads]:
  "rd_optional_text name rd = Inr (s, rd') \<longleftrightarrow> map_of (rd_item rd) name = Some (opt_value SStr s) \<and> rd' = consume name rd"
  by (auto simp: rd_optional_text_def reads stored_value_case_iff)

lemma rd_number_iff [reads]: "rd_number name rd = Inr (n, rd') \<longleftrightarrow> map_of (rd_item rd) name = Some (SInt n) \<and> rd' = consume name rd"
  by (auto simp: rd_number_def reads stored_value_case_iff)

lemma rd_optional_number_iff [reads]:
  "rd_optional_number name rd = Inr (n, rd') \<longleftrightarrow> map_of (rd_item rd) name = Some (opt_value SInt n) \<and> rd' = consume name rd"
  by (auto simp: rd_optional_number_def reads stored_value_case_iff)

lemma rd_flag_iff [reads]: "rd_flag name rd = Inr (b, rd') \<longleftrightarrow> map_of (rd_item rd) name = Some (SBool b) \<and> rd' = consume name rd"
  by (auto simp: rd_flag_def reads stored_value_case_iff)

lemma rd_sequence_iff [reads]:
  "rd_sequence name rd = Inr (vs, rd') \<longleftrightarrow> map_of (rd_item rd) name = Some (SList vs) \<and> rd' = consume name rd"
  by (auto simp: rd_sequence_def reads stored_value_case_iff)

lemma rd_mapping_iff [reads]:
  "rd_mapping name rd = Inr (i, rd') \<longleftrightarrow> map_of (rd_item rd) name = Some (SMap i) \<and> rd' = consume name rd"
  by (auto simp: rd_mapping_def reads stored_value_case_iff)

lemma rd_optional_mapping_iff [reads]:
  "rd_optional_mapping name rd = Inr (i, rd') \<longleftrightarrow> map_of (rd_item rd) name = Some (opt_value SMap i) \<and> rd' = consume name rd"
  by (auto simp: rd_optional_mapping_def reads stored_value_case_iff)

text \<open>The values whose text reads back: what the constructors and readers of the source accept.\<close>

definition readable_ident :: "'k ident \<Rightarrow> bool" where
  "readable_ident i \<longleftrightarrow> uuid_of_text (ident_str i) = Some (uuid_of i)"

definition readable_uuid :: "uuid \<Rightarrow> bool" where
  "readable_uuid u \<longleftrightarrow> uuid_of_text (uuid_text u) = Some u"

definition readable_time :: "datetime \<Rightarrow> bool" where
  "readable_time t \<longleftrightarrow> parse_utc (utc_text (instant t)) = Inr t"

definition time_text :: "datetime \<Rightarrow> string" where
  "time_text t = utc_text (instant t)"

lemma readable_identI: "uuid_of i < 2 ^ 128 \<Longrightarrow> readable_ident i"
  by (simp add: readable_ident_def ident_str_def uuid_of_text_uuid_text)

lemma readable_timeI: "is_utc t \<Longrightarrow> representable (instant t) \<Longrightarrow> readable_time t"
  using is_utc_iff [of t] by (simp add: readable_time_def parse_utc_text)

lemma parse_utc_iff: "parse_utc s = Inr t \<longleftrightarrow> s = time_text t \<and> readable_time t"
proof
  assume p: "parse_utc s = Inr t"
  then have "is_utc t" by (auto simp: parse_utc_def Let_def split: if_splits option.splits)
  with parse_utc_canonical [OF p] have "s = time_text t" by (simp add: format_utc_text time_text_def)
  with p show "s = time_text t \<and> readable_time t" by (simp add: readable_time_def time_text_def)
qed (auto simp: readable_time_def time_text_def)

lemma rd_parse_uuid_iff [reads]: "rd_parse_uuid name s rd = Inr (u, rd') \<longleftrightarrow> s = uuid_text u \<and> readable_uuid u \<and> rd' = rd"
  by (auto simp: rd_parse_uuid_def readable_uuid_def failR_def retR_def split: option.splits if_splits)

lemma readable_ident_uuid: "readable_uuid (uuid_of i) \<longleftrightarrow> readable_ident i"
  by (simp add: readable_uuid_def readable_ident_def ident_str_def)

lemma parse_ident_iff [reads]:
  "bindR (rd_parse_uuid name s) (\<lambda>u. retR (Ident u)) rd = Inr (i, rd') \<longleftrightarrow> s = ident_str i \<and> readable_ident i \<and> rd' = rd"
  by (cases i) (auto simp: reads ident_str_def readable_uuid_def readable_ident_def)

lemma optionalR_iff:
  assumes "\<And>x y rd rd'. f x rd = Inr (y, rd') \<longleftrightarrow> x = g y \<and> P y \<and> rd' = rd"
  shows "optionalR f v rd = Inr (w, rd') \<longleftrightarrow> v = map_option g w \<and> pred_option P w \<and> rd' = rd"
  by (cases v; cases w) (auto simp: optionalR_def reads assms)

lemma opt_value_map: "opt_value h (map_option g w) = opt_value (h \<circ> g) w"
  by (cases w) simp_all

lemma rd_uuid_iff [reads]:
  "rd_uuid name rd = Inr (u, rd') \<longleftrightarrow>
     map_of (rd_item rd) name = Some (SStr (uuid_text u)) \<and> readable_uuid u \<and> rd' = consume name rd"
  by (auto simp: rd_uuid_def reads)

lemma rd_identifier_iff [reads]:
  "rd_identifier name rd = Inr (i, rd') \<longleftrightarrow>
     map_of (rd_item rd) name = Some (SStr (ident_str i)) \<and> readable_ident i \<and> rd' = consume name rd"
  unfolding rd_identifier_def bindR_iff [of "rd_text name"] parse_ident_iff by (auto simp: reads)

lemma rd_optional_identifier_iff [reads]:
  "rd_optional_identifier name rd = Inr (i, rd') \<longleftrightarrow>
     map_of (rd_item rd) name = Some (opt_value (SStr \<circ> ident_str) i) \<and> pred_option readable_ident i \<and> rd' = consume name rd"
  unfolding rd_optional_identifier_def bindR_iff [of "rd_optional_text name"]
    optionalR_iff [where g = ident_str and P = readable_ident, OF parse_ident_iff]
  by (auto simp: reads opt_value_map)

lemma digest_value_iff:
  "rd_digest_value name s rd = Inr (d, rd') \<longleftrightarrow> s = digest_value d \<and> digest_post_init d = Inr () \<and> rd' = rd"
  by (cases d) (auto simp: rd_digest_value_def reads result_simps)

lemma rd_digest_iff [reads]:
  "rd_digest name rd = Inr (d, rd') \<longleftrightarrow>
     map_of (rd_item rd) name = Some (SStr (digest_value d)) \<and> digest_post_init d = Inr () \<and> rd' = consume name rd"
  by (auto simp: rd_digest_def reads digest_value_iff)

lemma rd_optional_digest_iff [reads]:
  "rd_optional_digest name rd = Inr (d, rd') \<longleftrightarrow>
     map_of (rd_item rd) name = Some (opt_value (SStr \<circ> digest_value) d) \<and>
     pred_option (\<lambda>d. digest_post_init d = Inr ()) d \<and> rd' = consume name rd"
  unfolding rd_optional_digest_def bindR_iff [of "rd_optional_text name"]
    optionalR_iff [where g = digest_value and P = "\<lambda>d. digest_post_init d = Inr ()", OF digest_value_iff]
  by (auto simp: reads opt_value_map)

lemma rd_namespace_iff [reads]:
  "rd_namespace name rd = Inr (ns, rd') \<longleftrightarrow>
     map_of (rd_item rd) name = Some (SStr (ns_value ns)) \<and> namespace_post_init ns = Inr () \<and> rd' = consume name rd"
  by (cases ns) (auto simp: rd_namespace_def reads result_simps)

lemma rd_instant_iff [reads]:
  "rd_instant name rd = Inr (t, rd') \<longleftrightarrow>
     map_of (rd_item rd) name = Some (SStr (time_text t)) \<and> readable_time t \<and> rd' = consume name rd"
  by (auto simp: rd_instant_def reads parse_utc_iff)

lemma rd_optional_instant_iff [reads]:
  "rd_optional_instant name rd = Inr (t, rd') \<longleftrightarrow>
     map_of (rd_item rd) name = Some (opt_value (SStr \<circ> time_text) t) \<and> pred_option readable_time t \<and> rd' = consume name rd"
  unfolding rd_optional_instant_def bindR_iff [of "rd_optional_text name"]
  by (subst optionalR_iff [where g = time_text and P = readable_time])
    (auto simp: reads opt_value_map parse_utc_iff)

text \<open>A member list with distinct texts is read by the text.\<close>

definition enumeration :: "('a \<Rightarrow> string) \<Rightarrow> 'a list \<Rightarrow> bool" where
  "enumeration as_text members \<longleftrightarrow> distinct (map as_text members)"

lemma enum_of_iff:
  assumes "enumeration as_text members"
  shows "enum_of as_text members s = Some x \<longleftrightarrow> x \<in> set members \<and> s = as_text x"
proof -
  have "List.find (\<lambda>y. as_text y = as_text x) members = Some x" if x: "x \<in> set members"
  proof (cases "List.find (\<lambda>y. as_text y = as_text x) members")
    case None
    with x show ?thesis by (auto simp: find_None_iff)
  next
    case (Some y)
    with find_SomeD [OF Some] assms inj_on_distinct_key [of as_text members y x] x
    show ?thesis by (simp add: enumeration_def)
  qed
  then show ?thesis unfolding enum_of_def using find_SomeD by fastforce
qed

lemma rd_enum_iff:
  assumes "enumeration as_text members"
  shows "rd_enum name as_text members rd = Inr (x, rd') \<longleftrightarrow>
     map_of (rd_item rd) name = Some (SStr (as_text x)) \<and> x \<in> set members \<and> rd' = consume name rd"
proof -
  have "rd_enum_value name as_text members s r = Inr (x, rd') \<longleftrightarrow> s = as_text x \<and> x \<in> set members \<and> rd' = r" for s r
    using enum_of_iff [OF assms, of s x]
    by (cases "enum_of as_text members s") (auto simp: rd_enum_value_def failR_def retR_def)
  then show ?thesis by (auto simp: rd_enum_def reads)
qed

lemma entity_enumeration: "enumeration entity_text entity_types"
  by code_simp

lemma entity_types_all: "entity \<in> set entity_types"
  by (cases entity) (simp_all add: entity_types_def)

text \<open>The attributes a decoder looked at, as a part of the item.\<close>

definition holds :: "stored_item \<Rightarrow> stored_item \<Rightarrow> bool" where
  "holds item attributes \<longleftrightarrow> list_all (\<lambda>(name, v). map_of item name = Some v) attributes"

lemma holds_simps [simp]:
  "holds item []" "holds item ((name, v) # attributes) \<longleftrightarrow> map_of item name = Some v \<and> holds item attributes"
  "holds item (as @ bs) \<longleftrightarrow> holds item as \<and> holds item bs"
  by (simp_all add: holds_def)

definition scope_envelope :: "entity_type \<Rightarrow> string \<Rightarrow> decoded_scope \<Rightarrow> stored_item" where
  "scope_envelope entity version scope = envelope entity version
     \<lparr>key_table = TN_CORE, key_partition = ds_partition_key scope, key_sort = ds_sort_key scope\<rparr>
     (ds_namespace scope) (ds_community_id scope) (ds_case_id scope)"

definition scope_ok :: "decoded_scope \<Rightarrow> bool" where
  "scope_ok scope \<longleftrightarrow> namespace_post_init (ds_namespace scope) = Inr () \<and>
     pred_option readable_ident (ds_community_id scope) \<and> pred_option readable_ident (ds_case_id scope)"

abbreviation envelope_names :: "string list" where
  "envelope_names \<equiv> [''case_id'', ''community_id'', ''namespace'', ''schema_version'', ''entity_type'', ''SK'', ''PK'']"

lemma read_envelope_iff [reads]:
  "read_envelope expected accepted rd = Inr (r, rd') \<longleftrightarrow>
     holds (rd_item rd) (scope_envelope expected (snd r) (fst r)) \<and> snd r \<in> set accepted \<and> scope_ok (fst r) \<and>
     rd' = foldr consume envelope_names rd"
proof -
  obtain pk sk ns com cas version where r: "r = (\<lparr>ds_partition_key = pk, ds_sort_key = sk, ds_namespace = ns,
      ds_community_id = com, ds_case_id = cas\<rparr>, version)" by (cases r) (metis decoded_scope.cases)
  show ?thesis
    unfolding r read_envelope_def reads rd_enum_iff [OF entity_enumeration]
    by (simp add: scope_envelope_def envelope_def scope_ok_def entity_types_all) blast
qed

lemma rd_item_foldr_consume [simp]: "rd_item (foldr consume names rd) = rd_item rd"
  "rd_consumed (foldr consume names rd) = set names \<union> rd_consumed rd"
  by (induction names) simp_all

lemma rd_finish_iff [reads]:
  "rd_finish rd = Inr (u, rd') \<longleftrightarrow> set (map fst (rd_item rd)) \<subseteq> rd_consumed rd \<and> rd' = rd"
  by (auto simp: rd_finish_def retR_def failR_def)

lemma decode_with_iff:
  "decode_with ref m item = Inr x \<longleftrightarrow> (\<exists>rd. m (item_reader_init ref item) = Inr (x, rd))"
  by (auto simp: decode_with_def split: sum.splits)

lemma item_reader_init_simps [simp]: "rd_item (item_reader_init ref item) = item" "rd_consumed (item_reader_init ref item) = {}"
  by (simp_all add: item_reader_init_def)

text \<open>An item that holds some attributes and no other is those attributes.\<close>

lemma holds_exact:
  assumes "holds item attributes" "set (map fst item) \<subseteq> set (map fst attributes)" "distinct (map fst attributes)"
  shows "map_of item = map_of attributes"
proof
  fix name
  show "map_of item name = map_of attributes name"
  proof (cases "name \<in> set (map fst attributes)")
    case True
    then obtain v where "(name, v) \<in> set attributes" by auto
    with assms(1,3) show ?thesis by (auto simp: holds_def list_all_iff)
  next
    case False
    with assms(2) have "name \<notin> set (map fst item)" by blast
    with False show ?thesis by (metis map_of_eq_None_iff image_set)
  qed
qed

text \<open>The items a decoder accepts: these attributes and no other.\<close>

definition exactly :: "stored_item \<Rightarrow> stored_item \<Rightarrow> bool" where
  "exactly item attributes \<longleftrightarrow> holds item attributes \<and> set (map fst item) \<subseteq> set (map fst attributes)"

lemma exactly_map: "exactly item attributes \<Longrightarrow> distinct (map fst attributes) \<Longrightarrow> map_of item = map_of attributes"
  by (simp add: exactly_def holds_exact)

lemma holds_self: "distinct (map fst attributes) \<Longrightarrow> holds attributes attributes"
  by (auto simp: holds_def list_all_iff)

lemma exactly_self: "distinct (map fst attributes) \<Longrightarrow> exactly attributes attributes"
  by (simp add: exactly_def holds_self)

end
