(* ===== verification/Codec_Fence.thy ===== *)
theory Codec_Fence
  imports Codec Send_Authority
begin

text \<open>
  The send fence as a stored item: the case scope of \<open>src/chorus/ports/scopes.py\<close> and the mapping of
  \<open>src/chorus/infrastructure/dynamodb/codec_fence.py\<close>. \<open>decode_send_fence_iff\<close> says which items decode:
  exactly the ones the encoder writes.
\<close>

record case_scope =
  cs_namespace :: namespace
  cs_community_id :: community_id
  cs_case_id :: case_id

definition SEND_FENCE_SCHEMA_VERSIONS :: "string list" where
  "SEND_FENCE_SCHEMA_VERSIONS = [''send-fence/v1'']"

definition expires_at_micros :: "send_fence \<Rightarrow> int result" where
  "expires_at_micros f = epoch_micros (fence_expires_at f)"

definition expires_at_epoch :: "send_fence \<Rightarrow> int result" where
  "expires_at_epoch f = epoch_seconds_ceiling (fence_expires_at f)"

definition send_fence_key :: "case_scope \<Rightarrow> item_key result" where
  "send_fence_key scope = bindE (fence_partition (cs_namespace scope) (cs_case_id scope)) (\<lambda>p.
     Inr \<lparr>key_table = TN_CORE, key_partition = p, key_sort = send_fence_sort_key\<rparr>)"

definition encode_send_fence :: "case_scope \<Rightarrow> send_fence \<Rightarrow> stored_item result" where
  "encode_send_fence scope f =
     bindE (send_fence_key scope) (\<lambda>k.
     bindE (format_utc (fence_acquired_at f)) (\<lambda>acquired.
     bindE (format_utc (fence_expires_at f)) (\<lambda>expires.
     bindE (expires_at_micros f) (\<lambda>micros.
     bindE (expires_at_epoch f) (\<lambda>epoch. Inr
       (envelope ET_SEND_FENCE ''send-fence/v1'' k (fence_namespace f) (Some (fence_community_id f)) (Some (fence_case_id f)) @
        [(''execution_id'', SStr (ident_str (fence_execution_id f))), (''action_id'', SStr (ident_str (fence_action_id f))),
         (''approval_id'', SStr (ident_str (fence_approval_id f))), (''view_id'', SStr (ident_str (fence_view_id f))),
         (''authorization_snapshot_hash'', SStr (digest_value (fence_snapshot_hash f))),
         (''acquired_at'', SStr acquired), (''expires_at'', SStr expires),
         (''expires_at_micros'', SInt micros), (''expires_at_epoch'', SInt epoch)]))))))"

definition read_send_fence :: "(decoded_scope \<times> send_fence) reading" where
  "read_send_fence =
     bindR (read_envelope ET_SEND_FENCE SEND_FENCE_SCHEMA_VERSIONS) (\<lambda>(scope, version).
     case ds_community_id scope of None \<Rightarrow> build_entity_error ''scope'' | Some community \<Rightarrow>
    (case ds_case_id scope of None \<Rightarrow> build_entity_error ''scope'' | Some the_case \<Rightarrow>
         bindR (rd_identifier ''execution_id'') (\<lambda>execution.
         bindR (rd_identifier ''action_id'') (\<lambda>action.
         bindR (rd_identifier ''approval_id'') (\<lambda>appr.
         bindR (rd_identifier ''view_id'') (\<lambda>view.
         bindR (rd_digest ''authorization_snapshot_hash'') (\<lambda>snapshot.
         bindR (rd_instant ''acquired_at'') (\<lambda>acquired.
         bindR (rd_instant ''expires_at'') (\<lambda>expires.
         bindR (build_entity (validated send_fence_post_init
           \<lparr>fence_namespace = ds_namespace scope, fence_community_id = community, fence_case_id = the_case,
            fence_execution_id = execution, fence_action_id = action, fence_approval_id = appr, fence_view_id = view,
            fence_snapshot_hash = snapshot, fence_acquired_at = acquired, fence_expires_at = expires\<rparr>)) (\<lambda>f.
         bindR (rd_number ''expires_at_micros'') (\<lambda>stored_micros.
         bindR (rd_number ''expires_at_epoch'') (\<lambda>stored_epoch.
         bindR rd_finish (\<lambda>_.
         bindR (liftR (expires_at_micros f)) (\<lambda>micros.
         if stored_micros \<noteq> micros then build_entity_error ''expires_at_micros'' else
         bindR (liftR (expires_at_epoch f)) (\<lambda>epoch.
         if stored_epoch \<noteq> epoch then build_entity_error ''expires_at_epoch'' else
         retR (scope, f))))))))))))))))"

definition decode_send_fence :: "stored_item \<Rightarrow> (decoded_scope \<times> send_fence) result" where
  "decode_send_fence = decode_with ''SEND_FENCE'' read_send_fence"

section \<open>What decodes\<close>

definition readable_fence :: "send_fence \<Rightarrow> bool" where
  "readable_fence f \<longleftrightarrow> send_fence_post_init f = Inr () \<and> namespace_post_init (fence_namespace f) = Inr () \<and>
     readable_ident (fence_community_id f) \<and> readable_ident (fence_case_id f) \<and> readable_ident (fence_execution_id f) \<and>
     readable_ident (fence_action_id f) \<and> readable_ident (fence_approval_id f) \<and> readable_ident (fence_view_id f) \<and>
     digest_post_init (fence_snapshot_hash f) = Inr () \<and>
     readable_time (fence_acquired_at f) \<and> readable_time (fence_expires_at f)"

text \<open>The scope a fence claims at an address.\<close>

definition fence_scope :: "string \<Rightarrow> string \<Rightarrow> send_fence \<Rightarrow> decoded_scope" where
  "fence_scope pk sk f = \<lparr>ds_partition_key = pk, ds_sort_key = sk, ds_namespace = fence_namespace f,
     ds_community_id = Some (fence_community_id f), ds_case_id = Some (fence_case_id f)\<rparr>"

definition fence_attributes :: "string \<Rightarrow> string \<Rightarrow> send_fence \<Rightarrow> stored_item" where
  "fence_attributes pk sk f = scope_envelope ET_SEND_FENCE ''send-fence/v1'' (fence_scope pk sk f) @
     [(''execution_id'', SStr (ident_str (fence_execution_id f))), (''action_id'', SStr (ident_str (fence_action_id f))),
      (''approval_id'', SStr (ident_str (fence_approval_id f))), (''view_id'', SStr (ident_str (fence_view_id f))),
      (''authorization_snapshot_hash'', SStr (digest_value (fence_snapshot_hash f))),
      (''acquired_at'', SStr (time_text (fence_acquired_at f))), (''expires_at'', SStr (time_text (fence_expires_at f))),
      (''expires_at_micros'', SInt (instant (fence_expires_at f))),
      (''expires_at_epoch'', SInt (- (- instant (fence_expires_at f) div 1000000)))]"

lemma distinct_fence_attributes: "distinct (map fst (fence_attributes pk sk f))"
  by (simp add: fence_attributes_def scope_envelope_def envelope_def)

lemma fence_times:
  assumes "send_fence_post_init f = Inr ()"
  shows "is_utc (fence_acquired_at f)" "is_utc (fence_expires_at f)" "expires_at_micros f = Inr (instant (fence_expires_at f))"
    "expires_at_epoch f = Inr (- (- instant (fence_expires_at f) div 1000000))"
    "format_utc (fence_acquired_at f) = Inr (time_text (fence_acquired_at f))"
    "format_utc (fence_expires_at f) = Inr (time_text (fence_expires_at f))"
proof -
  show utc: "is_utc (fence_acquired_at f)" "is_utc (fence_expires_at f)"
    using assms by (auto simp: send_fence_post_init_def utc_check_def result_simps)
  then show "expires_at_micros f = Inr (instant (fence_expires_at f))"
    "expires_at_epoch f = Inr (- (- instant (fence_expires_at f) div 1000000))"
    "format_utc (fence_acquired_at f) = Inr (time_text (fence_acquired_at f))"
    "format_utc (fence_expires_at f) = Inr (time_text (fence_expires_at f))"
    by (simp_all add: expires_at_micros_def expires_at_epoch_def epoch_seconds_ceiling_def epoch_micros_exact
        format_utc_text time_text_def)
qed

lemma encode_send_fence_value:
  assumes "send_fence_key scope = Inr k" "send_fence_post_init f = Inr ()"
  shows "encode_send_fence scope f = Inr (fence_attributes (key_partition k) (key_sort k) f)"
  using assms(1) by (simp add: encode_send_fence_def fence_times [OF assms(2)] fence_attributes_def scope_envelope_def fence_scope_def
      envelope_def)

lemma fence_deadlines_iff [reads]:
  "expires_at_micros f = Inr m \<longleftrightarrow> is_utc (fence_expires_at f) \<and> m = instant (fence_expires_at f)"
  "expires_at_epoch f = Inr m \<longleftrightarrow> is_utc (fence_expires_at f) \<and> m = - (- instant (fence_expires_at f) div 1000000)"
  using epoch_micros_exact [of "fence_expires_at f"]
  by (auto simp: expires_at_micros_def expires_at_epoch_def epoch_seconds_ceiling_def epoch_micros_def result_simps)

text \<open>An item decodes to a fence exactly when its attributes are those of the fence, and no other.\<close>

lemma decode_send_fence_iff:
  "decode_send_fence item = Inr (scope, f) \<longleftrightarrow>
     exactly item (fence_attributes (ds_partition_key scope) (ds_sort_key scope) f) \<and> readable_fence f \<and>
     scope = fence_scope (ds_partition_key scope) (ds_sort_key scope) f"
proof (cases scope)
  case scope: (fields pk sk ns com cas)
  show ?thesis
  proof (cases f)
    case (fields ns' com' cas' ex ac ap vi sn acq exp)
    note defs = reads split_paired_Ex result_simps SEND_FENCE_SCHEMA_VERSIONS_def exactly_def fence_attributes_def fence_scope_def
      readable_fence_def scope_ok_def scope_envelope_def envelope_def send_fence_post_init_def utc_check_def
    note unfolds = decode_send_fence_def decode_with_iff read_send_fence_def build_entity_error_def scope fields
    show ?thesis
    proof (cases "ns = ns' \<and> com = Some com' \<and> cas = Some cas'")
      case True
      then have eqs: "ns = ns'" "com = Some com'" "cas = Some cas'" by simp_all
      show ?thesis unfolding unfolds eqs
        by (simp add: defs, simp only: insert_commute, rule iffI) (elim conjE, intro conjI, assumption+)+
    next
      case False
      then show ?thesis unfolding unfolds by (auto simp: defs)
    qed
  qed
qed

end
