(* ===== verification/Codec_Idempotency.thy ===== *)
theory Codec_Idempotency
  imports Codec_Fence
begin

text \<open>
  The idempotency contract of \<open>src/chorus/ports/idempotency.py\<close> and its stored form,
  \<open>src/chorus/infrastructure/dynamodb/codec_idempotency.py\<close>. \<open>decode_idempotency_iff\<close> says which items
  decode. The members of a stored mapping may come in any order, so the entity references of an item are
  compared with \<open>exactly\<close>, one by one.
\<close>

section \<open>The contract\<close>

datatype idempotent_command =
    IC_INGEST_MESSAGE | IC_START_MONITOR_OPERATION | IC_APPLY_MONITOR_OUTPUT | IC_DECIDE_MANDATE
  | IC_APPLY_INVESTIGATION | IC_COMPILE_VIEW | IC_PROPOSE_ACTION | IC_APPROVE_ACTION | IC_SEND_ACTION
  | IC_INGEST_REPLY | IC_EXTRACT_COMMITMENT | IC_CREATE_COMMITMENT | IC_VERIFY_COMMITMENT

fun command_text :: "idempotent_command \<Rightarrow> string" where
  "command_text IC_INGEST_MESSAGE = ''INGEST_MESSAGE''"
| "command_text IC_START_MONITOR_OPERATION = ''START_MONITOR_OPERATION''"
| "command_text IC_APPLY_MONITOR_OUTPUT = ''APPLY_MONITOR_OUTPUT''"
| "command_text IC_DECIDE_MANDATE = ''DECIDE_MANDATE''"
| "command_text IC_APPLY_INVESTIGATION = ''APPLY_INVESTIGATION''"
| "command_text IC_COMPILE_VIEW = ''COMPILE_VIEW''"
| "command_text IC_PROPOSE_ACTION = ''PROPOSE_ACTION''"
| "command_text IC_APPROVE_ACTION = ''APPROVE_ACTION''"
| "command_text IC_SEND_ACTION = ''SEND_ACTION''"
| "command_text IC_INGEST_REPLY = ''INGEST_REPLY''"
| "command_text IC_EXTRACT_COMMITMENT = ''EXTRACT_COMMITMENT''"
| "command_text IC_CREATE_COMMITMENT = ''CREATE_COMMITMENT''"
| "command_text IC_VERIFY_COMMITMENT = ''VERIFY_COMMITMENT''"

definition idempotent_commands :: "idempotent_command list" where
  "idempotent_commands =
     [IC_INGEST_MESSAGE, IC_START_MONITOR_OPERATION, IC_APPLY_MONITOR_OUTPUT, IC_DECIDE_MANDATE,
      IC_APPLY_INVESTIGATION, IC_COMPILE_VIEW, IC_PROPOSE_ACTION, IC_APPROVE_ACTION, IC_SEND_ACTION,
      IC_INGEST_REPLY, IC_EXTRACT_COMMITMENT, IC_CREATE_COMMITMENT, IC_VERIFY_COMMITMENT]"

definition ORDINARY_IDEMPOTENCY_TTL_SECONDS :: int where "ORDINARY_IDEMPOTENCY_TTL_SECONDS = 24 * 60 * 60"
definition SEND_IDEMPOTENCY_TTL_SECONDS :: int where "SEND_IDEMPOTENCY_TTL_SECONDS = 7 * 24 * 60 * 60"

definition retention_seconds :: "idempotent_command \<Rightarrow> int" where
  "retention_seconds command =
     (if command = IC_SEND_ACTION then SEND_IDEMPOTENCY_TTL_SECONDS else ORDINARY_IDEMPOTENCY_TTL_SECONDS)"

datatype idempotency_status = IS_IN_PROGRESS | IS_COMPLETED | IS_FAILED_FINAL

fun status_text :: "idempotency_status \<Rightarrow> string" where
  "status_text IS_IN_PROGRESS = ''IN_PROGRESS''"
| "status_text IS_COMPLETED = ''COMPLETED''"
| "status_text IS_FAILED_FINAL = ''FAILED_FINAL''"

definition idempotency_statuses :: "idempotency_status list" where
  "idempotency_statuses = [IS_IN_PROGRESS, IS_COMPLETED, IS_FAILED_FINAL]"

datatype partition_kind = PK_NAMESPACE | PK_COMMUNITY | PK_CASE | PK_VIEW_CURRENT | PK_ACTION | PK_EXECUTION

fun kind_text :: "partition_kind \<Rightarrow> string" where
  "kind_text PK_NAMESPACE = ''NAMESPACE''"
| "kind_text PK_COMMUNITY = ''COMMUNITY''"
| "kind_text PK_CASE = ''CASE''"
| "kind_text PK_VIEW_CURRENT = ''VIEW_CURRENT''"
| "kind_text PK_ACTION = ''ACTION''"
| "kind_text PK_EXECUTION = ''EXECUTION''"

definition partition_kinds :: "partition_kind list" where
  "partition_kinds = [PK_NAMESPACE, PK_COMMUNITY, PK_CASE, PK_VIEW_CURRENT, PK_ACTION, PK_EXECUTION]"

record idempotency_partition =
  ip_kind :: partition_kind
  ip_namespace :: namespace
  ip_community_id :: "community_id option"
  ip_case_id :: "case_id option"
  ip_action_id :: "action_id option"

definition idempotency_partition_post_init :: "idempotency_partition \<Rightarrow> unit result" where
  "idempotency_partition_post_init p =
     (let kind = ip_kind p; bad = ValueError ''idempotency partition fields do not match its kind'' in checks
       [((ip_community_id p \<noteq> None) \<noteq> (kind = PK_COMMUNITY), bad),
        ((ip_case_id p \<noteq> None) \<noteq> (kind = PK_CASE \<or> kind = PK_VIEW_CURRENT), bad),
        ((ip_action_id p \<noteq> None) \<noteq> (kind = PK_ACTION \<or> kind = PK_EXECUTION), bad)])"

record idempotency_key =
  ik_partition :: idempotency_partition
  ik_command :: idempotent_command
  ik_actor_id_hash :: digest
  ik_key_hash :: digest

record entity_ref =
  er_entity_type :: string
  er_entity_id :: uuid
  er_version :: "int option"

definition entity_ref_post_init :: "entity_ref \<Rightarrow> unit result" where
  "entity_ref_post_init r = checks
     [(er_entity_type r = [] \<or> length (er_entity_type r) > 64, ValueError ''entity_type length is invalid''),
      (opt_test (\<lambda>v. v < 1) (er_version r), ValueError ''entity version must be positive'')]"

record idempotency_record =
  ir_key :: idempotency_key
  ir_request_hash :: digest
  ir_status :: idempotency_status
  ir_refs :: "entity_ref list"
  ir_response_status :: "int option"
  ir_created_at :: datetime
  ir_updated_at :: datetime
  ir_expires_at_epoch :: int
  ir_version :: int

definition idempotency_record_post_init :: "idempotency_record \<Rightarrow> unit result" where
  "idempotency_record_post_init r = checks
     [utc_check (ir_created_at r), utc_check (ir_updated_at r),
      (instant (ir_updated_at r) < instant (ir_created_at r), ValueError ''updated_at precedes created_at''),
      (ir_version r < 1, ValueError ''version must be positive''),
      (ir_expires_at_epoch r < 0, ValueError ''expires_at_epoch cannot be negative''),
      (opt_test (\<lambda>s. s < 100 \<or> 599 < s) (ir_response_status r), ValueError ''response_status is not an HTTP status code''),
      (\<not> distinct (map (\<lambda>e. (er_entity_type e, er_entity_id e)) (ir_refs r)),
       ValueError ''result entity references must be unique''),
      (ir_status r = IS_IN_PROGRESS \<and> ir_refs r \<noteq> [],
       ValueError ''an in-progress record cannot carry result references'')]"

section \<open>Addresses\<close>

definition idempotency_partition_key :: "idempotency_partition \<Rightarrow> string result" where
  "idempotency_partition_key p =
     (let ns = ip_namespace p in
      case ip_kind p of
        PK_NAMESPACE \<Rightarrow> namespace_partition ns
      | PK_COMMUNITY \<Rightarrow> (case ip_community_id p of
          None \<Rightarrow> Inl (ValueError ''community partition requires a community'') | Some i \<Rightarrow> community_partition ns i)
      | PK_CASE \<Rightarrow> (case ip_case_id p of
          None \<Rightarrow> Inl (ValueError ''case partition requires a case'') | Some i \<Rightarrow> case_partition ns i)
      | PK_VIEW_CURRENT \<Rightarrow> (case ip_case_id p of
          None \<Rightarrow> Inl (ValueError ''view-current partition requires a case'') | Some i \<Rightarrow> view_current_partition ns i)
      | PK_ACTION \<Rightarrow> (case ip_action_id p of
          None \<Rightarrow> Inl (ValueError ''action partition requires an action'') | Some i \<Rightarrow> action_partition ns i)
      | PK_EXECUTION \<Rightarrow> (case ip_action_id p of
          None \<Rightarrow> Inl (ValueError ''execution partition requires an action'') | Some i \<Rightarrow> execution_partition ns i))"

definition idempotency_item_key :: "table_name \<Rightarrow> idempotency_key \<Rightarrow> item_key result" where
  "idempotency_item_key table k =
     bindE (idempotency_partition_key (ik_partition k)) (\<lambda>pk.
     bindE (idempotency_sort_key (command_text (ik_command k)) (ik_actor_id_hash k) (ik_key_hash k)) (\<lambda>sk.
     Inr \<lparr>key_table = table, key_partition = pk, key_sort = sk\<rparr>))"

section \<open>The stored form\<close>

definition encode_entity_ref :: "entity_ref \<Rightarrow> stored_item" where
  "encode_entity_ref r =
     [(''entity_type'', SStr (er_entity_type r)), (''entity_id'', SStr (uuid_text (er_entity_id r))),
      (''version'', opt_value SInt (er_version r))]"

definition encode_entity_refs :: "entity_ref list \<Rightarrow> stored_value" where
  "encode_entity_refs refs = SList (map (SMap \<circ> encode_entity_ref) refs)"

definition read_entity_ref :: "entity_ref reading" where
  "read_entity_ref =
     bindR (rd_text ''entity_type'') (\<lambda>kind. bindR (rd_uuid ''entity_id'') (\<lambda>i.
     bindR (rd_optional_number ''version'') (\<lambda>version.
     bindR (build_entity (validated entity_ref_post_init
       \<lparr>er_entity_type = kind, er_entity_id = i, er_version = version\<rparr>)) (\<lambda>r.
     bindR rd_finish (\<lambda>_. retR r)))))"

definition decode_entity_refs :: "string \<Rightarrow> entity_ref list reading" where
  "decode_entity_refs name = bindR (rd_mappings name) (\<lambda>raws.
     mapR (\<lambda>(i, raw). rd_child raw (name @ ''['' @ nat_text i @ '']'') read_entity_ref) (List.enumerate 0 raws))"

definition encode_idempotency :: "table_name \<Rightarrow> idempotency_record \<Rightarrow> stored_item result" where
  "encode_idempotency table r =
     bindE (idempotency_item_key table (ir_key r)) (\<lambda>k.
     bindE (format_utc (ir_created_at r)) (\<lambda>created.
     bindE (format_utc (ir_updated_at r)) (\<lambda>updated.
     let p = ik_partition (ir_key r) in Inr
       (envelope ET_IDEMPOTENCY_RECORD ''idempotency-record/v1'' k (ip_namespace p) (ip_community_id p) (ip_case_id p) @
        [(''partition_kind'', SStr (kind_text (ip_kind p))), (''action_id'', opt_value (SStr \<circ> ident_str) (ip_action_id p)),
         (''command'', SStr (command_text (ik_command (ir_key r)))),
         (''actor_id_hash'', SStr (digest_value (ik_actor_id_hash (ir_key r)))),
         (''key_hash'', SStr (digest_value (ik_key_hash (ir_key r)))),
         (''request_hash'', SStr (digest_value (ir_request_hash r))), (''status'', SStr (status_text (ir_status r))),
         (''result_entity_refs'', encode_entity_refs (ir_refs r)),
         (''response_status'', opt_value SInt (ir_response_status r)), (''created_at'', SStr created),
         (''updated_at'', SStr updated), (''expires_at_epoch'', SInt (ir_expires_at_epoch r)),
         (''version'', SInt (ir_version r))]))))"

definition read_idempotency :: "(decoded_scope \<times> idempotency_record) reading" where
  "read_idempotency =
     bindR (read_envelope ET_IDEMPOTENCY_RECORD [''idempotency-record/v1'']) (\<lambda>(scope, schema).
     bindR (rd_enum ''partition_kind'' kind_text partition_kinds) (\<lambda>kind.
     bindR (rd_optional_identifier ''action_id'') (\<lambda>action.
     bindR (build_entity (validated idempotency_partition_post_init
       \<lparr>ip_kind = kind, ip_namespace = ds_namespace scope, ip_community_id = ds_community_id scope,
        ip_case_id = ds_case_id scope, ip_action_id = action\<rparr>)) (\<lambda>p.
     bindR (rd_enum ''command'' command_text idempotent_commands) (\<lambda>command.
     bindR (rd_digest ''actor_id_hash'') (\<lambda>actor.
     bindR (rd_digest ''key_hash'') (\<lambda>hash.
     bindR (rd_digest ''request_hash'') (\<lambda>request.
     bindR (rd_enum ''status'' status_text idempotency_statuses) (\<lambda>status.
     bindR (decode_entity_refs ''result_entity_refs'') (\<lambda>refs.
     bindR (rd_optional_number ''response_status'') (\<lambda>response.
     bindR (rd_instant ''created_at'') (\<lambda>created.
     bindR (rd_instant ''updated_at'') (\<lambda>updated.
     bindR (rd_number ''expires_at_epoch'') (\<lambda>expires.
     bindR (rd_number ''version'') (\<lambda>version.
     bindR (build_entity (validated idempotency_record_post_init
       \<lparr>ir_key = \<lparr>ik_partition = p, ik_command = command, ik_actor_id_hash = actor, ik_key_hash = hash\<rparr>,
        ir_request_hash = request, ir_status = status, ir_refs = refs, ir_response_status = response,
        ir_created_at = created, ir_updated_at = updated, ir_expires_at_epoch = expires, ir_version = version\<rparr>)) (\<lambda>r.
     bindR rd_finish (\<lambda>_. retR (scope, r))))))))))))))))))"

definition decode_idempotency :: "stored_item \<Rightarrow> (decoded_scope \<times> idempotency_record) result" where
  "decode_idempotency = decode_with ''IDEMPOTENCY_RECORD'' read_idempotency"

section \<open>What decodes\<close>

lemma idempotency_enumerations:
  "enumeration command_text idempotent_commands" "enumeration status_text idempotency_statuses"
  "enumeration kind_text partition_kinds"
  by code_simp+

lemma idempotency_members [simp]:
  "command \<in> set idempotent_commands" "status \<in> set idempotency_statuses" "kind \<in> set partition_kinds"
  subgoal by (cases command) (simp_all add: idempotent_commands_def)
  subgoal by (cases status) (simp_all add: idempotency_statuses_def)
  subgoal by (cases kind) (simp_all add: partition_kinds_def)
  done

lemmas idempotency_enum_iffs = idempotency_enumerations [THEN rd_enum_iff]

definition readable_ref :: "entity_ref \<Rightarrow> bool" where
  "readable_ref r \<longleftrightarrow> entity_ref_post_init r = Inr () \<and> readable_uuid (er_entity_id r)"

definition stored_ref :: "stored_item \<Rightarrow> entity_ref \<Rightarrow> bool" where
  "stored_ref raw r \<longleftrightarrow> exactly raw (encode_entity_ref r) \<and> readable_ref r"

lemma read_entity_ref_iff:
  "(\<exists>rd. read_entity_ref (item_reader_init ref raw) = Inr (r, rd)) \<longleftrightarrow> stored_ref raw r"
  by (cases r) (auto simp: read_entity_ref_def reads result_simps stored_ref_def readable_ref_def exactly_def encode_entity_ref_def)

lemma mapR_iff:
  assumes "\<And>x y rd rd'. f x rd = Inr (y, rd') \<longleftrightarrow> R x y \<and> rd' = rd"
  shows "mapR f xs rd = Inr (ys, rd') \<longleftrightarrow> list_all2 R xs ys \<and> rd' = rd"
  by (induction xs arbitrary: ys rd) (auto simp: reads assms list_all2_Cons1)

lemma rd_mappings_iff [reads]:
  "rd_mappings name rd = Inr (is, rd') \<longleftrightarrow> map_of (rd_item rd) name = Some (SList (map SMap is)) \<and> rd' = consume name rd"
proof -
  have "list_all2 (\<lambda>v i. v = SMap i) vs is \<longleftrightarrow> vs = map SMap is" for vs
    by (induction vs arbitrary: "is") (auto simp: list_all2_Cons1)
  then show ?thesis
    by (auto simp: rd_mappings_def reads mapR_iff [where R = "\<lambda>v i. v = SMap i", OF stored_value_case_iff(5)])
qed

lemma decode_entity_refs_iff [reads]:
  "decode_entity_refs name rd = Inr (refs, rd') \<longleftrightarrow>
     (\<exists>raws. map_of (rd_item rd) name = Some (SList (map SMap raws)) \<and> list_all2 stored_ref raws refs) \<and>
     rd' = consume name rd"
proof -
  have one: "(\<lambda>(i, raw). rd_child raw (name @ ''['' @ nat_text i @ '']'') read_entity_ref) x rd = Inr (r, rd') \<longleftrightarrow>
      stored_ref (snd x) r \<and> rd' = rd" for x r rd rd'
    using read_entity_ref_iff [of "rd_ref rd @ ''.'' @ name @ ''['' @ nat_text (fst x) @ '']''" "snd x" r]
    by (cases x) (auto simp: rd_child_def split: sum.splits)
  have "list_all2 (\<lambda>x. stored_ref (snd x)) (List.enumerate n raws) refs = list_all2 stored_ref raws refs" for n raws
    by (induction raws arbitrary: n refs) (auto simp: list_all2_Cons1)
  then show ?thesis unfolding decode_entity_refs_def bindR_iff mapR_iff [OF one] by (auto simp: reads)
qed

definition readable_record :: "idempotency_record \<Rightarrow> bool" where
  "readable_record r \<longleftrightarrow>
     (let p = ik_partition (ir_key r) in
      idempotency_record_post_init r = Inr () \<and> idempotency_partition_post_init p = Inr () \<and>
      namespace_post_init (ip_namespace p) = Inr () \<and> pred_option readable_ident (ip_community_id p) \<and>
      pred_option readable_ident (ip_case_id p) \<and> pred_option readable_ident (ip_action_id p) \<and>
      digest_post_init (ik_actor_id_hash (ir_key r)) = Inr () \<and> digest_post_init (ik_key_hash (ir_key r)) = Inr () \<and>
      digest_post_init (ir_request_hash r) = Inr () \<and> readable_time (ir_created_at r) \<and> readable_time (ir_updated_at r))"

definition record_scope :: "string \<Rightarrow> string \<Rightarrow> idempotency_record \<Rightarrow> decoded_scope" where
  "record_scope pk sk r =
     (let p = ik_partition (ir_key r) in
      \<lparr>ds_partition_key = pk, ds_sort_key = sk, ds_namespace = ip_namespace p, ds_community_id = ip_community_id p,
       ds_case_id = ip_case_id p\<rparr>)"

definition record_attributes :: "string \<Rightarrow> string \<Rightarrow> idempotency_record \<Rightarrow> stored_value \<Rightarrow> stored_item" where
  "record_attributes pk sk r refs =
     scope_envelope ET_IDEMPOTENCY_RECORD ''idempotency-record/v1'' (record_scope pk sk r) @
     [(''partition_kind'', SStr (kind_text (ip_kind (ik_partition (ir_key r))))),
      (''action_id'', opt_value (SStr \<circ> ident_str) (ip_action_id (ik_partition (ir_key r)))),
      (''command'', SStr (command_text (ik_command (ir_key r)))),
      (''actor_id_hash'', SStr (digest_value (ik_actor_id_hash (ir_key r)))),
      (''key_hash'', SStr (digest_value (ik_key_hash (ir_key r)))),
      (''request_hash'', SStr (digest_value (ir_request_hash r))), (''status'', SStr (status_text (ir_status r))),
      (''result_entity_refs'', refs), (''response_status'', opt_value SInt (ir_response_status r)),
      (''created_at'', SStr (time_text (ir_created_at r))), (''updated_at'', SStr (time_text (ir_updated_at r))),
      (''expires_at_epoch'', SInt (ir_expires_at_epoch r)), (''version'', SInt (ir_version r))]"

lemma decode_idempotency_iff:
  "decode_idempotency item = Inr (scope, r) \<longleftrightarrow>
     (\<exists>raws. exactly item (record_attributes (ds_partition_key scope) (ds_sort_key scope) r (SList (map SMap raws))) \<and>
        list_all2 stored_ref raws (ir_refs r)) \<and> readable_record r \<and>
     scope = record_scope (ds_partition_key scope) (ds_sort_key scope) r"
proof (cases scope)
  case scope: (fields pk sk ns com cas)
  obtain kind ns' com' cas' ac cmd actor hash req st refs resp created updated expires version where
    fields: "r = \<lparr>ir_key = \<lparr>ik_partition = \<lparr>ip_kind = kind, ip_namespace = ns', ip_community_id = com', ip_case_id = cas',
        ip_action_id = ac\<rparr>, ik_command = cmd, ik_actor_id_hash = actor, ik_key_hash = hash\<rparr>,
      ir_request_hash = req, ir_status = st, ir_refs = refs, ir_response_status = resp, ir_created_at = created,
      ir_updated_at = updated, ir_expires_at_epoch = expires, ir_version = version\<rparr>"
    by (metis idempotency_record.cases idempotency_key.cases idempotency_partition.cases)
  note defs = reads idempotency_enum_iffs split_paired_Ex result_simps exactly_def record_attributes_def record_scope_def
    readable_record_def scope_ok_def scope_envelope_def envelope_def
  note unfolds = decode_idempotency_def decode_with_iff read_idempotency_def scope fields
  show ?thesis
  proof (cases "ns = ns' \<and> com = com' \<and> cas = cas'")
    case True
    then have eqs: "ns = ns'" "com = com'" "cas = cas'" by simp_all
    show ?thesis unfolding unfolds eqs
      by (simp add: defs Let_def, simp only: insert_commute, rule iffI)
        ((elim conjE exE, intro conjI exI, assumption+)+)
  next
    case False
    then show ?thesis unfolding unfolds by (auto simp: defs)
  qed
qed

lemma exactly_refs: "list_all readable_ref refs \<Longrightarrow> list_all2 stored_ref (map encode_entity_ref refs) refs"
  by (induction refs) (simp_all add: stored_ref_def exactly_self encode_entity_ref_def)

lemma record_times:
  assumes "idempotency_record_post_init r = Inr ()"
  shows "format_utc (ir_created_at r) = Inr (time_text (ir_created_at r))" "format_utc (ir_updated_at r) = Inr (time_text (ir_updated_at r))"
  using assms by (auto simp: idempotency_record_post_init_def utc_check_def result_simps format_utc_text time_text_def)

lemma encode_idempotency_value:
  assumes "idempotency_item_key table (ir_key r) = Inr k" "idempotency_record_post_init r = Inr ()"
  shows "encode_idempotency table r =
    Inr (record_attributes (key_partition k) (key_sort k) r (encode_entity_refs (ir_refs r)))"
  using assms(1) by (simp add: encode_idempotency_def record_times [OF assms(2)] record_attributes_def scope_envelope_def
      record_scope_def envelope_def Let_def)

lemma distinct_record_attributes: "distinct (map fst (record_attributes pk sk r refs))"
  by (simp add: record_attributes_def scope_envelope_def envelope_def)

text \<open>A record the encoder writes is read back, at the address it was written to.\<close>

lemma decode_encode_idempotency:
  assumes "encode_idempotency table r = Inr item" "readable_record r" "list_all readable_ref (ir_refs r)"
  obtains k where "idempotency_item_key table (ir_key r) = Inr k"
    "decode_idempotency item = Inr (record_scope (key_partition k) (key_sort k) r, r)"
proof -
  from assms(1) obtain k where k: "idempotency_item_key table (ir_key r) = Inr k"
    by (auto simp: encode_idempotency_def result_simps)
  have "idempotency_record_post_init r = Inr ()" using assms(2) by (simp add: readable_record_def Let_def)
  from encode_idempotency_value [OF k this] assms(1)
  have item: "item = record_attributes (key_partition k) (key_sort k) r (SList (map SMap (map encode_entity_ref (ir_refs r))))"
    by (simp add: encode_entity_refs_def)
  have "exactly item item" using distinct_record_attributes exactly_self item by metis
  then have "decode_idempotency item = Inr (record_scope (key_partition k) (key_sort k) r, r)"
    unfolding decode_idempotency_iff using assms(2,3) exactly_refs item
    by (metis (no_types, lifting) decoded_scope.select_convs(1,2) record_scope_def)
  with k show ?thesis by (rule that)
qed

text \<open>The attributes a commit proof looks at.\<close>

lemma decode_idempotency_attributes:
  assumes "decode_idempotency item = Inr (scope, r)"
  shows "map_of item ''request_hash'' = Some (SStr (digest_value (ir_request_hash r)))"
    "map_of item ''version'' = Some (SInt (ir_version r))" "map_of item ''status'' = Some (SStr (status_text (ir_status r)))"
  using assms unfolding decode_idempotency_iff by (auto simp: exactly_def record_attributes_def)

end
