(* ===== verification/Transaction_Plan.thy ===== *)
theory Transaction_Plan
  imports Codec_Idempotency
begin

text \<open>
  \<open>src/chorus/ports/unit_of_work.py\<close>: commit proofs, the local validation of a transaction plan and the
  material its client request token is derived from. Text is ASCII, so encoding it is the identity. The
  SHA-256 of the standard library is the argument \<open>sha\<close> (hexadecimal text). \<open>plan_material_inj\<close>
  shows that the material determines the plan, up to the order of the members of a mapping.
\<close>

section \<open>Plans\<close>

record commit_proof =
  cp_key :: item_key
  cp_request_hash :: digest
  cp_completed_version :: "int option"

definition commit_proof_post_init :: "commit_proof \<Rightarrow> unit result" where
  "commit_proof_post_init p = checks
     [(opt_test (\<lambda>v. v < 2) (cp_completed_version p),
       ValueError ''a completion proof names the version a reservation moves to'')]"

record transaction_plan =
  tp_name :: string
  tp_operations :: "write_operation list"
  tp_audit_required :: bool
  tp_commit_proof :: "commit_proof option"

definition audit_writes :: "transaction_plan \<Rightarrow> write_operation list" where
  "audit_writes plan = filter (\<lambda>operation. key_table (op_key operation) = TN_AUDIT \<and> \<not> is_check operation) (tp_operations plan)"

definition has_append_only_audit_write :: "transaction_plan \<Rightarrow> bool" where
  "has_append_only_audit_write plan \<longleftrightarrow>
     audit_writes plan \<noteq> [] \<and> list_all (\<lambda>operation. is_put operation \<and> op_condition operation = Key_absent) (audit_writes plan)"

text \<open>The writes at the key of a proof under the condition that makes them evidence.\<close>

definition proof_writes :: "transaction_plan \<Rightarrow> commit_proof \<Rightarrow> item_condition \<Rightarrow> stored_item list" where
  "proof_writes plan p c = List.map_filter (\<lambda>operation.
     case operation of Put_item k i c' \<Rightarrow> if k = cp_key p \<and> c' = c then Some i else None | _ \<Rightarrow> None) (tp_operations plan)"

definition binds_hash :: "commit_proof \<Rightarrow> stored_item \<Rightarrow> bool \<times> error" where
  "binds_hash p i = (map_of i ''request_hash'' \<noteq> Some (SStr (digest_value (cp_request_hash p))),
     ValueError ''commit proof must bind the request hash its plan persists'')"

definition validate_completion_proof :: "transaction_plan \<Rightarrow> commit_proof \<Rightarrow> int \<Rightarrow> unit result" where
  "validate_completion_proof plan p version =
     (let writes = proof_writes plan p (Attribute_equals_number ''version'' (version - 1)) in
      checks ((writes = [], ValueError ''completion proof must name the guarded write inside this plan'') #
        concat (map (\<lambda>i.
          [binds_hash p i,
           (map_of i ''version'' \<noteq> Some (SInt version), ValueError ''completion proof must bind the version its plan persists''),
           (map_of i ''status'' \<noteq> Some (SStr (status_text IS_COMPLETED)),
            ValueError ''completion proof must name a write that completes the record'')]) writes)))"

definition validate_commit_proof :: "transaction_plan \<Rightarrow> unit result" where
  "validate_commit_proof plan =
     (case tp_commit_proof plan of
        None \<Rightarrow> Inr ()
      | Some p \<Rightarrow>
          (case cp_completed_version p of
             Some version \<Rightarrow> validate_completion_proof plan p version
           | None \<Rightarrow>
               let writes = proof_writes plan p Key_absent in
               checks ((writes = [], ValueError ''commit proof must name a create-only write inside this plan'') #
                 map (binds_hash p) writes)))"

section \<open>The request token\<close>

type_synonym material = string

definition tag :: "char \<Rightarrow> string \<Rightarrow> material" where
  "tag label payload = label # nat_text (length payload) @ CHR '':'' # payload"

definition int_text :: "int \<Rightarrow> string" where
  "int_text n = (if n < 0 then CHR ''-'' # nat_text (nat (- n)) else nat_text (nat n))"

fun absorb_value :: "stored_value \<Rightarrow> material" where
  "absorb_value SNull = tag CHR ''n'' []"
| "absorb_value (SBool b) = tag CHR ''b'' (if b then ''1'' else ''0'')"
| "absorb_value (SInt n) = tag CHR ''i'' (int_text n)"
| "absorb_value (SStr s) = tag CHR ''s'' s"
| "absorb_value (SList vs) = tag CHR ''l'' (nat_text (length vs)) @ concat (map absorb_value vs)"
| "absorb_value (SMap ms) = tag CHR ''m'' (nat_text (length ms)) @
     concat (map (\<lambda>(name, x). tag CHR ''k'' name @ x) (sort_key fst (map (\<lambda>(name, v). (name, absorb_value v)) ms)))"

fun condition_name :: "item_condition \<Rightarrow> string" where
  "condition_name Key_absent = ''KeyAbsent''"
| "condition_name Key_present = ''KeyPresent''"
| "condition_name (Attribute_equals_string _ _) = ''AttributeEqualsString''"
| "condition_name (Attribute_equals_number _ _) = ''AttributeEqualsNumber''"
| "condition_name (Attribute_at_most_number _ _) = ''AttributeAtMostNumber''"
| "condition_name (Attribute_less_than_number _ _) = ''AttributeLessThanNumber''"
| "condition_name (All_of _) = ''AllOf''"
| "condition_name (Any_of _) = ''AnyOf''"

text \<open>The match on conditions has no case for \<open>AttributeLessThanNumber\<close>; it ends in an assertion.\<close>

lemma map_result_cong [fundef_cong]:
  "xs = ys \<Longrightarrow> (\<And>x. x \<in> set ys \<Longrightarrow> f x = g x) \<Longrightarrow> map_result f xs = map_result g ys"
  by (induction xs arbitrary: ys) (auto split: sum.splits)

fun absorb_condition :: "item_condition \<Rightarrow> material result" where
  "absorb_condition Key_absent = Inr (tag CHR ''c'' (condition_name Key_absent))"
| "absorb_condition Key_present = Inr (tag CHR ''c'' (condition_name Key_present))"
| "absorb_condition (Attribute_equals_string name v) =
     Inr (tag CHR ''c'' (condition_name (Attribute_equals_string name v)) @ tag CHR ''k'' name @ absorb_value (SStr v))"
| "absorb_condition (Attribute_equals_number name v) =
     Inr (tag CHR ''c'' (condition_name (Attribute_equals_number name v)) @ tag CHR ''k'' name @ absorb_value (SInt v))"
| "absorb_condition (Attribute_at_most_number name v) =
     Inr (tag CHR ''c'' (condition_name (Attribute_at_most_number name v)) @ tag CHR ''k'' name @ absorb_value (SInt v))"
| "absorb_condition (Attribute_less_than_number name v) = Inl (AssertionError ''unreachable item condition'')"
| "absorb_condition (All_of cs) = bindE (map_result absorb_condition cs) (\<lambda>ms.
     Inr (tag CHR ''c'' (condition_name (All_of cs)) @ tag CHR ''g'' (nat_text (length cs)) @ concat ms))"
| "absorb_condition (Any_of cs) = bindE (map_result absorb_condition cs) (\<lambda>ms.
     Inr (tag CHR ''c'' (condition_name (Any_of cs)) @ tag CHR ''g'' (nat_text (length cs)) @ concat ms))"

fun operation_class_name :: "write_operation \<Rightarrow> string" where
  "operation_class_name (Put_item _ _ _) = ''PutItem''"
| "operation_class_name (Delete_item _ _) = ''DeleteItem''"
| "operation_class_name (Check_item _ _) = ''CheckItem''"

fun table_text :: "table_name \<Rightarrow> string" where
  "table_text TN_CORE = ''CORE''"
| "table_text TN_SHAREABLE = ''SHAREABLE''"
| "table_text TN_AUDIT = ''AUDIT''"

definition absorb_operation :: "write_operation \<Rightarrow> material result" where
  "absorb_operation operation =
     bindE (absorb_condition (op_condition operation)) (\<lambda>condition. Inr
       (tag CHR ''o'' (operation_class_name operation) @ tag CHR ''T'' (table_text (key_table (op_key operation))) @
        tag CHR ''p'' (key_partition (op_key operation)) @ tag CHR ''q'' (key_sort (op_key operation)) @ condition @
        (case operation of Put_item _ i _ \<Rightarrow> absorb_value (SMap i) | _ \<Rightarrow> [])))"

definition plan_material :: "transaction_plan \<Rightarrow> material result" where
  "plan_material plan =
     bindE (map_result absorb_operation (tp_operations plan)) (\<lambda>ms. Inr
       (tag CHR ''t'' (tp_name plan) @ tag CHR ''#'' (nat_text (length (tp_operations plan))) @ concat ms))"

text \<open>\<open>str(UUID(bytes=digest[:16], version=4))\<close>: the version and variant digits are fixed.\<close>

definition uuid4_text :: "string \<Rightarrow> string" where
  "uuid4_text hex =
     (let variant = (case hex_digit_value (hex ! 16) of None \<Rightarrow> 0 | Some d \<Rightarrow> d mod 4) in
      insert_at 23 CHR ''-'' (insert_at 18 CHR ''-'' (insert_at 13 CHR ''-'' (insert_at 8 CHR ''-''
        ((take 32 hex)[12 := CHR ''4'', 16 := hex_digit (8 + variant)])))))"

definition client_request_token :: "(string \<Rightarrow> string) \<Rightarrow> transaction_plan \<Rightarrow> string result" where
  "client_request_token sha plan = bindE (plan_material plan) (\<lambda>m. Inr (uuid4_text (sha m)))"

text \<open>The constructor of a plan; it returns the token it stores.\<close>

definition transaction_plan_post_init :: "(string \<Rightarrow> string) \<Rightarrow> transaction_plan \<Rightarrow> string result" where
  "transaction_plan_post_init sha plan =
     bindE (checks
       [(tp_name plan = [] \<or> length (tp_name plan) > 64, ValueError ''transaction name length is invalid''),
        (tp_operations plan = [], ValueError ''a transaction requires at least one operation''),
        (length (tp_operations plan) > TRANSACTION_MAX_OPERATIONS, TransactionLimitExceededError (tp_name plan)),
        (\<not> distinct (map op_key (tp_operations plan)), ValueError ''a transaction cannot address the same item twice''),
        (tp_audit_required plan \<and> \<not> has_append_only_audit_write plan, UnauditedMutationError (tp_name plan)),
        (\<not> tp_audit_required plan \<and> audit_writes plan \<noteq> [], UnauditedMutationError (tp_name plan))]) (\<lambda>_.
     bindE (validate_commit_proof plan) (\<lambda>_. client_request_token sha plan))"

section \<open>The material determines the plan\<close>

lemma nat_text_acc_append: "nat_text_acc n acc = nat_text n @ acc"
proof (induction n arbitrary: acc rule: less_induct)
  case (less n)
  show ?case
  proof (cases "n < 10")
    case False
    then have "n div 10 < n" by simp
    with less.IH [OF this, of "hex_digit (n mod 10) # acc"] less.IH [OF this, of "[hex_digit (n mod 10)]"] False
    show ?thesis by (simp add: nat_text_def nat_text_acc.simps [of n] Let_def)
  qed (simp add: nat_text_def nat_text_acc.simps [of n] Let_def)
qed

lemma nat_text_rec: "nat_text n = (if n < 10 then [] else nat_text (n div 10)) @ [hex_digit (n mod 10)]"
  using nat_text_acc.simps [of n "[]"] nat_text_acc_append [of "n div 10" "[hex_digit (n mod 10)]"]
  by (simp add: nat_text_def Let_def)

lemma hex_digit_inj: "m < 16 \<Longrightarrow> n < 16 \<Longrightarrow> hex_digit m = hex_digit n \<Longrightarrow> m = n"
  by (metis hex_digit_value_digit option.inject)

lemma nat_text_not_Nil [simp]: "nat_text n \<noteq> []"
  by (subst nat_text_rec) simp

lemma nat_text_inj: "nat_text m = nat_text n \<Longrightarrow> m = n"
proof (induction m arbitrary: n rule: less_induct)
  case (less m)
  have eq: "(if m < 10 then [] else nat_text (m div 10)) = (if n < 10 then [] else nat_text (n div 10))"
    "hex_digit (m mod 10) = hex_digit (n mod 10)"
    using less.prems nat_text_rec [of m] nat_text_rec [of n] by simp_all
  from eq(2) have "m mod 10 = n mod 10" by (intro hex_digit_inj) (simp_all add: less_trans [OF mod_less_divisor])
  moreover have "m div 10 = n div 10"
  proof (cases "m < 10")
    case True
    with eq(1) nat_text_not_Nil [of "n div 10"] have "n < 10" by (metis)
    with True show ?thesis by simp
  next
    case False
    with eq(1) have "\<not> n < 10" "nat_text (m div 10) = nat_text (n div 10)" by (auto split: if_splits)
    with less.IH [of "m div 10"] False show ?thesis by simp
  qed
  ultimately show ?case by (metis div_mult_mod_eq)
qed

lemma nat_text_hex: "c \<in> set (nat_text n) \<Longrightarrow> hex_digit_value c \<noteq> None"
proof (induction n rule: less_induct)
  case (less n)
  have "hex_digit_value (hex_digit (n mod 10)) \<noteq> None" by (simp add: hex_digit_value_digit less_trans [OF mod_less_divisor])
  moreover from less.prems nat_text_rec [of n] have "c = hex_digit (n mod 10) \<or> 10 \<le> n \<and> c \<in> set (nat_text (n div 10))"
    by (auto split: if_splits)
  ultimately show ?case using less.IH [of "n div 10"] by auto
qed

lemma colon_not_digit: "CHR '':'' \<notin> set (nat_text n)" "CHR ''-'' \<notin> set (nat_text n)"
proof -
  have "hex_digit_value CHR '':'' = None" "hex_digit_value CHR ''-'' = None" by code_simp+
  then show "CHR '':'' \<notin> set (nat_text n)" "CHR ''-'' \<notin> set (nat_text n)" using nat_text_hex by fastforce+
qed

lemma append_sep_inj: "c \<notin> set s \<Longrightarrow> c \<notin> set t \<Longrightarrow> s @ c # u = t @ c # v \<Longrightarrow> s = t \<and> u = v"
proof (induction s arbitrary: t)
  case Nil
  then show ?case by (cases t) auto
next
  case (Cons d s)
  then show ?case by (cases t) auto
qed

lemma tag_inj: "tag l p @ x = tag l' p' @ y \<longleftrightarrow> l = l' \<and> p = p' \<and> x = y"
proof
  assume eq: "tag l p @ x = tag l' p' @ y"
  with append_sep_inj [OF colon_not_digit(1) colon_not_digit(1), of "length p" "p @ x" "length p'" "p' @ y"]
  have "l = l'" "nat_text (length p) = nat_text (length p')" "p @ x = p' @ y" by (simp_all add: tag_def)
  with nat_text_inj [of "length p" "length p'"] show "l = l' \<and> p = p' \<and> x = y" by simp
qed simp

lemma tag_inj_end: "tag l p = tag l' p' \<longleftrightarrow> l = l' \<and> p = p'"
  using tag_inj [of l p "[]" l' p' "[]"] by simp

lemma int_text_inj: "int_text m = int_text n \<Longrightarrow> m = n"
proof -
  have hyphen: "CHR ''-'' # s \<noteq> nat_text k" for s k using colon_not_digit(2) [of k] by (metis list.set_intros(1))
  assume "int_text m = int_text n"
  then show "m = n" using hyphen nat_text_inj [of "nat (- m)" "nat (- n)"] nat_text_inj [of "nat m" "nat n"]
    by (auto simp: int_text_def split: if_splits) (metis hyphen)+
qed

lemma int_text_eq: "int_text m = int_text n \<longleftrightarrow> m = n"
  using int_text_inj by blast

text \<open>Self-delimiting encodings: what follows one is determined.\<close>

definition delimits :: "('a \<Rightarrow> material) \<Rightarrow> ('a \<Rightarrow> 'b) \<Rightarrow> 'a \<Rightarrow> bool" where
  "delimits f g v \<longleftrightarrow> (\<forall>w x y. f v @ x = f w @ y \<longrightarrow> g v = g w \<and> x = y)"

lemma delimits_concat:
  assumes "\<forall>v\<in>set vs. delimits f g v" "length vs = length ws" "concat (map f vs) @ x = concat (map f ws) @ y"
  shows "map g vs = map g ws \<and> x = y"
  using assms(2,1,3)
proof (induction vs ws arbitrary: x y rule: list_induct2)
  case (Cons v vs w ws)
  from Cons.prems have "f v @ concat (map f vs) @ x = f w @ concat (map f ws) @ y" "delimits f g v" by simp_all
  then have "g v = g w" "concat (map f vs) @ x = concat (map f ws) @ y" unfolding delimits_def by blast+
  with Cons.IH [of x y] Cons.prems(1) show ?case by simp
qed simp

lemma sort_key_map_snd: "sort_key fst (map (\<lambda>(k, v). (k, f v)) ms) = map (\<lambda>(k, v). (k, f v)) (sort_key fst ms)"
proof -
  have "insort_key fst (case m of (k, v) \<Rightarrow> (k, f v)) (map (\<lambda>(k, v). (k, f v)) ms) = map (\<lambda>(k, v). (k, f v)) (insort_key fst m ms)"
    for m ms by (induction ms) (auto split: prod.splits)
  note step = this
  show ?thesis
  proof (induction ms)
    case (Cons m ms)
    then show ?case using step [of m "foldr (insort_key fst) ms []"] by (simp add: sort_key_def)
  qed (simp add: sort_key_def)
qed

abbreviation absorb_member :: "string \<times> stored_value \<Rightarrow> material" where
  "absorb_member \<equiv> \<lambda>(name, v). tag CHR ''k'' name @ absorb_value v"

lemma absorb_map:
  "absorb_value (SMap ms) = tag CHR ''m'' (nat_text (length ms)) @ concat (map absorb_member (sort_key fst ms))"
  by (simp only: absorb_value.simps(6) sort_key_map_snd map_map) (simp add: comp_def case_prod_unfold)

declare absorb_value.simps(6) [simp del]

lemmas absorb_simps = absorb_value.simps(1-5) absorb_map

lemma absorb_delimits: "delimits absorb_value canon v"
proof (induction v)
  case SNull
  have "absorb_value SNull @ x = absorb_value w @ y \<longrightarrow> canon SNull = canon w \<and> x = y" for w x y
    by (cases w) (simp_all add: absorb_simps tag_inj)
  then show ?case unfolding delimits_def by blast
next
  case (SBool b)
  have "absorb_value (SBool b) @ x = absorb_value w @ y \<longrightarrow> canon (SBool b) = canon w \<and> x = y" for w x y
    by (cases w) (simp_all add: absorb_simps tag_inj split: if_splits)
  then show ?case unfolding delimits_def by blast
next
  case (SInt n)
  have "absorb_value (SInt n) @ x = absorb_value w @ y \<longrightarrow> canon (SInt n) = canon w \<and> x = y" for w x y
    by (cases w) (auto simp: absorb_simps tag_inj dest: int_text_inj)
  then show ?case unfolding delimits_def by blast
next
  case (SStr s)
  have "absorb_value (SStr s) @ x = absorb_value w @ y \<longrightarrow> canon (SStr s) = canon w \<and> x = y" for w x y
    by (cases w) (simp_all add: absorb_simps tag_inj)
  then show ?case unfolding delimits_def by blast
next
  case (SList vs)
  have "canon (SList vs) = canon w \<and> x = y" if eq: "absorb_value (SList vs) @ x = absorb_value w @ y" for w x y
  proof -
    from eq obtain ws where w: "w = SList ws" by (cases w) (simp_all add: absorb_simps tag_inj)
    with eq have "nat_text (length vs) = nat_text (length ws)" "concat (map absorb_value vs) @ x = concat (map absorb_value ws) @ y"
      by (simp_all add: absorb_simps tag_inj)
    then have "map canon vs = map canon ws \<and> x = y"
      using SList by (intro delimits_concat [where f = absorb_value]) (auto intro: nat_text_inj)
    then show ?thesis by (simp add: w)
  qed
  then show ?case unfolding delimits_def by blast
next
  case (SMap ms)
  let ?g = "\<lambda>(k, v). (k, canon v)"
  have members: "\<forall>m\<in>set (sort_key fst ms). delimits absorb_member ?g m"
  proof
    fix m assume m: "m \<in> set (sort_key fst ms)"
    obtain k v where kv: "m = (k, v)" by (cases m)
    with m SMap [of "(k, v)" v] have d: "delimits absorb_value canon v" by simp
    have "absorb_member (k, v) @ x = absorb_member n @ y \<longrightarrow> ?g (k, v) = ?g n \<and> x = y" for n x y
    proof (cases n)
      case (Pair j w)
      have "absorb_value v @ x = absorb_value w @ y \<longrightarrow> canon v = canon w \<and> x = y" using d unfolding delimits_def by blast
      then show ?thesis by (simp add: Pair tag_inj)
    qed
    then show "delimits absorb_member ?g m" unfolding delimits_def kv by blast
  qed
  have "canon (SMap ms) = canon w \<and> x = y" if eq: "absorb_value (SMap ms) @ x = absorb_value w @ y" for w x y
  proof -
    from eq obtain ns where w: "w = SMap ns" by (cases w) (simp_all add: absorb_simps tag_inj)
    with eq have "nat_text (length ms) = nat_text (length ns)"
      "concat (map absorb_member (sort_key fst ms)) @ x = concat (map absorb_member (sort_key fst ns)) @ y"
      by (simp_all add: absorb_map tag_inj)
    then have "map ?g (sort_key fst ms) = map ?g (sort_key fst ns) \<and> x = y"
      by (intro delimits_concat [OF members]) (auto intro: nat_text_inj)
    then show ?thesis by (simp add: w sort_key_map_snd)
  qed
  then show ?case unfolding delimits_def by blast
qed

definition delimitsR :: "('a \<Rightarrow> material result) \<Rightarrow> ('a \<Rightarrow> 'b) \<Rightarrow> 'a \<Rightarrow> bool" where
  "delimitsR f g v \<longleftrightarrow> (\<forall>w m n x y. f v = Inr m \<longrightarrow> f w = Inr n \<longrightarrow> m @ x = n @ y \<longrightarrow> g v = g w \<and> x = y)"

lemma delimitsR_concat:
  assumes "\<forall>v\<in>set vs. delimitsR f g v" "length vs = length ws" "map_result f vs = Inr ms" "map_result f ws = Inr ns"
    "concat ms @ x = concat ns @ y"
  shows "map g vs = map g ws \<and> x = y"
  using assms(2,1,3-)
proof (induction vs ws arbitrary: ms ns x y rule: list_induct2)
  case (Cons v vs w ws)
  from Cons.prems(2) obtain m ms' where m: "f v = Inr m" "map_result f vs = Inr ms'" "ms = m # ms'"
    by (auto split: sum.splits)
  from Cons.prems(3) obtain n ns' where n: "f w = Inr n" "map_result f ws = Inr ns'" "ns = n # ns'"
    by (auto split: sum.splits)
  from Cons.prems(1,4) m(3) n(3) have "m @ concat ms' @ x = n @ concat ns' @ y" "delimitsR f g v" by simp_all
  with m(1) n(1) have "g v = g w" "concat ms' @ x = concat ns' @ y" unfolding delimitsR_def by blast+
  moreover from this(2) have "map g vs = map g ws \<and> x = y" by (intro Cons.IH [OF _ m(2) n(2)]) (use Cons.prems(1) in simp)+
  ultimately show ?case by simp
qed (simp add: map_result_Inr_iff)

lemma absorb_condition_head: "absorb_condition c = Inr m \<Longrightarrow> \<exists>rest. m = tag CHR ''c'' (condition_name c) @ rest"
proof (cases c)
  case Key_absent
  then show "absorb_condition c = Inr m \<Longrightarrow> ?thesis" by (intro exI [of _ "[]"]) simp
next
  case Key_present
  then show "absorb_condition c = Inr m \<Longrightarrow> ?thesis" by (intro exI [of _ "[]"]) simp
qed (auto simp: result_simps)

lemma absorb_condition_name:
  assumes "absorb_condition c = Inr m" "absorb_condition d = Inr n" "m @ x = n @ y"
  shows "condition_name c = condition_name d"
proof -
  from absorb_condition_head [OF assms(1)] absorb_condition_head [OF assms(2)] obtain r s where
    "m = tag CHR ''c'' (condition_name c) @ r" "n = tag CHR ''c'' (condition_name d) @ s" by blast
  with assms(3) have "tag CHR ''c'' (condition_name c) @ r @ x = tag CHR ''c'' (condition_name d) @ s @ y" by simp
  then show ?thesis by (simp only: tag_inj)
qed

lemma absorb_group:
  assumes "absorb_condition (F cs) = bindE (map_result absorb_condition cs) (\<lambda>ms.
      Inr (tag CHR ''c'' name @ tag CHR ''g'' (nat_text (length cs)) @ concat ms))"
    "absorb_condition (F ds) = bindE (map_result absorb_condition ds) (\<lambda>ms.
      Inr (tag CHR ''c'' name @ tag CHR ''g'' (nat_text (length ds)) @ concat ms))"
    "\<forall>c\<in>set cs. delimitsR absorb_condition (\<lambda>c. c) c"
    "absorb_condition (F cs) = Inr m" "absorb_condition (F ds) = Inr n" "m @ x = n @ y"
  shows "cs = ds \<and> x = y"
proof -
  from assms(4) [unfolded assms(1)] obtain ms where ms: "map_result absorb_condition cs = Inr ms"
    "m = tag CHR ''c'' name @ tag CHR ''g'' (nat_text (length cs)) @ concat ms" by (auto simp: result_simps)
  from assms(5) [unfolded assms(2)] obtain ns where ns: "map_result absorb_condition ds = Inr ns"
    "n = tag CHR ''c'' name @ tag CHR ''g'' (nat_text (length ds)) @ concat ns" by (auto simp: result_simps)
  from assms(6) ms(2) ns(2) have eq: "nat_text (length cs) = nat_text (length ds)" "concat ms @ x = concat ns @ y"
    by (simp_all add: tag_inj)
  from delimitsR_concat [OF assms(3) nat_text_inj [OF eq(1)] ms(1) ns(1) eq(2)] show ?thesis by simp
qed

lemma absorb_condition_delimits: "delimitsR absorb_condition (\<lambda>c. c) c"
proof -
  have "c = d \<and> x = y" if "absorb_condition c = Inr m" "absorb_condition d = Inr n" "m @ x = n @ y" for d m n x y
    using that
  proof (induction c arbitrary: d m n x y)
    case (All_of cs)
    from absorb_condition_name [OF All_of.prems] obtain ds where d: "d = All_of ds" by (cases d) simp_all
    have "\<forall>c\<in>set cs. delimitsR absorb_condition (\<lambda>c. c) c" unfolding delimitsR_def using All_of.IH by blast
    from absorb_group [where F = All_of, OF _ _ this All_of.prems(1) All_of.prems(2)[unfolded d] All_of.prems(3)] d
    show ?case by simp
  next
    case (Any_of cs)
    from absorb_condition_name [OF Any_of.prems] obtain ds where d: "d = Any_of ds" by (cases d) simp_all
    have "\<forall>c\<in>set cs. delimitsR absorb_condition (\<lambda>c. c) c" unfolding delimitsR_def using Any_of.IH by blast
    from absorb_group [where F = Any_of, OF _ _ this Any_of.prems(1) Any_of.prems(2)[unfolded d] Any_of.prems(3)] d
    show ?case by simp
  qed (frule (2) absorb_condition_name; case_tac d; clarsimp simp: tag_inj tag_inj_end int_text_eq)+
  then show ?thesis unfolding delimitsR_def by blast
qed

lemma absorb_operation_delimits: "delimitsR absorb_operation canon_operation operation"
proof -
  have "canon_operation operation = canon_operation other \<and> x = y"
    if "absorb_operation operation = Inr m" "absorb_operation other = Inr n" "m @ x = n @ y" for other m n x y
  proof -
    let ?item = "\<lambda>operation. case operation of Put_item _ i _ \<Rightarrow> absorb_value (SMap i) | _ \<Rightarrow> []"
    from that(1) obtain c where c: "absorb_condition (op_condition operation) = Inr c"
      "m = tag CHR ''o'' (operation_class_name operation) @ tag CHR ''T'' (table_text (key_table (op_key operation))) @
        tag CHR ''p'' (key_partition (op_key operation)) @ tag CHR ''q'' (key_sort (op_key operation)) @ c @ ?item operation"
      by (auto simp: absorb_operation_def result_simps)
    from that(2) obtain d where d: "absorb_condition (op_condition other) = Inr d"
      "n = tag CHR ''o'' (operation_class_name other) @ tag CHR ''T'' (table_text (key_table (op_key other))) @
        tag CHR ''p'' (key_partition (op_key other)) @ tag CHR ''q'' (key_sort (op_key other)) @ d @ ?item other"
      by (auto simp: absorb_operation_def result_simps)
    have parts: "operation_class_name operation = operation_class_name other"
      "table_text (key_table (op_key operation)) = table_text (key_table (op_key other))"
      "key_partition (op_key operation) = key_partition (op_key other)" "key_sort (op_key operation) = key_sort (op_key other)"
      and rest: "c @ ?item operation @ x = d @ ?item other @ y"
      using that(3) unfolding c(2) d(2) append_assoc tag_inj by blast+
    have key: "op_key operation = op_key other" using parts(2-4)
      by (cases "key_table (op_key operation)"; cases "key_table (op_key other)") (auto intro: item_key.equality)
    have "op_condition operation = op_condition other \<and> ?item operation @ x = ?item other @ y"
      using absorb_condition_delimits [of "op_condition operation"] c(1) d(1) rest unfolding delimitsR_def by blast
    moreover have ?thesis if "\<not> is_put operation \<or> \<not> is_put other" using that parts(1) key calculation
      by (cases operation; cases other; simp)
    ultimately show ?thesis
    proof (cases operation; cases other)
      fix k i c' k' i' c''
      assume puts: "operation = Put_item k i c'" "other = Put_item k' i' c''"
        and same: "op_condition operation = op_condition other \<and> ?item operation @ x = ?item other @ y"
      then have "absorb_value (SMap i) @ x = absorb_value (SMap i') @ y" by simp
      with absorb_delimits [of "SMap i"] have "canon (SMap i) = canon (SMap i') \<and> x = y" unfolding delimits_def by blast
      with puts key same show ?thesis by simp
    qed simp_all
  qed
  then show ?thesis unfolding delimitsR_def by blast
qed

text \<open>Two plans with the same material are the same request.\<close>

lemma plan_material_inj:
  assumes "plan_material plan = Inr m" "plan_material other = Inr m"
  shows "tp_name plan = tp_name other" "map canon_operation (tp_operations plan) = map canon_operation (tp_operations other)"
proof -
  from assms(1) obtain ms where ms: "map_result absorb_operation (tp_operations plan) = Inr ms"
    "m = tag CHR ''t'' (tp_name plan) @ tag CHR ''#'' (nat_text (length (tp_operations plan))) @ concat ms"
    by (auto simp: plan_material_def result_simps)
  from assms(2) obtain ns where ns: "map_result absorb_operation (tp_operations other) = Inr ns"
    "m = tag CHR ''t'' (tp_name other) @ tag CHR ''#'' (nat_text (length (tp_operations other))) @ concat ns"
    by (auto simp: plan_material_def result_simps)
  note trans [OF sym [OF ms(2)] ns(2)]
  then have eq: "tp_name plan = tp_name other"
    "nat_text (length (tp_operations plan)) = nat_text (length (tp_operations other))" "concat ms = concat ns"
    by (simp_all add: tag_inj)
  then show "tp_name plan = tp_name other" by simp
  have "\<forall>operation\<in>set (tp_operations plan). delimitsR absorb_operation canon_operation operation"
    using absorb_operation_delimits by blast
  from delimitsR_concat [OF this nat_text_inj [OF eq(2)] ms(1) ns(1), of "[]" "[]"] eq(3)
  show "map canon_operation (tp_operations plan) = map canon_operation (tp_operations other)" by simp
qed

section \<open>What a validated plan guarantees\<close>

definition proof_condition :: "commit_proof \<Rightarrow> item_condition" where
  "proof_condition p =
     (case cp_completed_version p of None \<Rightarrow> Key_absent | Some v \<Rightarrow> Attribute_equals_number ''version'' (v - 1))"

lemma map_filter_mem: "y \<in> set (List.map_filter f xs) \<Longrightarrow> \<exists>x\<in>set xs. f x = Some y"
  by (induction xs) (auto simp: map_filter_simps split: option.splits)

text \<open>A plan with a proof writes the proof's item, under the condition that makes it evidence.\<close>

lemma validated_proof:
  assumes "transaction_plan_post_init sha plan = Inr token" "tp_commit_proof plan = Some p"
  obtains i where "Put_item (cp_key p) i (proof_condition p) \<in> set (tp_operations plan)"
    "map_of i ''request_hash'' = Some (SStr (digest_value (cp_request_hash p)))"
proof -
  from assms have v: "validate_commit_proof plan = Inr ()" by (auto simp: transaction_plan_post_init_def result_simps)
  then have "proof_writes plan p (proof_condition p) \<noteq> []"
    "\<forall>i\<in>set (proof_writes plan p (proof_condition p)). map_of i ''request_hash'' = Some (SStr (digest_value (cp_request_hash p)))"
    using assms(2) by (auto simp: validate_commit_proof_def validate_completion_proof_def proof_condition_def result_simps
        list_all_iff binds_hash_def Let_def split: option.splits)
  then obtain i where i: "i \<in> set (proof_writes plan p (proof_condition p))"
    "map_of i ''request_hash'' = Some (SStr (digest_value (cp_request_hash p)))"
    by (metis list.set_sel(1))
  from i(1) have "Put_item (cp_key p) i (proof_condition p) \<in> set (tp_operations plan)"
    unfolding proof_writes_def by (auto dest!: map_filter_mem split: write_operation.splits if_splits)
  with i(2) show thesis by (rule that [rotated])
qed

end
