(* ===== verification/Unit_of_Work.thy ===== *)
theory Unit_of_Work
  imports Transaction_Plan
begin

text \<open>
  \<open>src/chorus/infrastructure/dynamodb/unit_of_work.py\<close> over the reference driver and an unreliable
  network. A network says of each request what happens to it: it is delivered and answered, refused
  before it is applied, lost on the way, or applied with its answer lost; of each proof read whether it
  answers; what other parties do to the store before each access; and whether a lost first request still
  arrives before the second. The state of a run is the store and the number of times the plan was applied.
\<close>

section \<open>The network\<close>

datatype delivery = Delivered | Refused | Lost_request | Lost_answer

record network =
  net_write :: "nat \<Rightarrow> delivery"
  net_read :: "nat \<Rightarrow> bool"
  net_now :: "nat \<Rightarrow> int"
  net_meanwhile :: "nat \<Rightarrow> memory \<Rightarrow> memory"
  net_late :: bool

type_synonym run_state = "memory \<times> nat"

text \<open>A request is applied when it returns without being the replay of a live token.\<close>

definition lands :: "driver_context \<Rightarrow> int \<Rightarrow> transaction_plan \<Rightarrow> string \<Rightarrow> memory \<Rightarrow> bool" where
  "lands dc now plan token m \<longleftrightarrow>
     fst (transact_write dc now (tp_operations plan) token m) = Inr () \<and>
     map_of (filter (live_token now) (mem_tokens m)) (transaction_token (dc_sha dc) (dc_reset_identity dc) token) = None"

definition apply_request ::
    "driver_context \<Rightarrow> int \<Rightarrow> transaction_plan \<Rightarrow> string \<Rightarrow> run_state \<Rightarrow> unit result \<times> run_state" where
  "apply_request dc now plan token s =
     (let res = transact_write dc now (tp_operations plan) token (fst s) in
      (fst res, snd res, if lands dc now plan token (fst s) then snd s + 1 else snd s))"

abbreviation unknown_transaction :: error where
  "unknown_transaction \<equiv> UnknownTransactionOutcomeError ''TRANSACTION''"

definition uow_write ::
    "driver_context \<Rightarrow> network \<Rightarrow> nat \<Rightarrow> transaction_plan \<Rightarrow> string \<Rightarrow> run_state \<Rightarrow> unit result \<times> run_state" where
  "uow_write dc net i plan token s =
     (case net_write net i of
        Delivered \<Rightarrow> apply_request dc (net_now net i) plan token s
      | Refused \<Rightarrow> (Inl (ExternalDependencyError ''TRANSACTION''), s)
      | Lost_request \<Rightarrow> (Inl unknown_transaction, s)
      | Lost_answer \<Rightarrow> (Inl unknown_transaction, snd (apply_request dc (net_now net i) plan token s)))"

definition meanwhile :: "network \<Rightarrow> nat \<Rightarrow> run_state \<Rightarrow> run_state" where
  "meanwhile net i s = (net_meanwhile net i (fst s), snd s)"

text \<open>The first request is lost on the way, and arrives after all, before the second is sent.\<close>

definition late_request :: "network \<Rightarrow> bool" where
  "late_request net \<longleftrightarrow> net_write net 0 = Lost_request \<and> net_late net"

definition late_arrival :: "driver_context \<Rightarrow> network \<Rightarrow> transaction_plan \<Rightarrow> string \<Rightarrow> run_state \<Rightarrow> run_state" where
  "late_arrival dc net plan token s =
     (if late_request net then snd (apply_request dc (net_now net 1) plan token s) else s)"

section \<open>The unit of work\<close>

datatype transaction_outcome = TO_Committed | TO_Not_committed | TO_Unproven

fun is_unknown :: "error \<Rightarrow> bool" where
  "is_unknown (UnknownTransactionOutcomeError _) = True"
| "is_unknown _ = False"

definition read_proof :: "driver_context \<Rightarrow> bool \<Rightarrow> commit_proof \<Rightarrow> memory \<Rightarrow> stored_item option result" where
  "read_proof dc answers p m =
     (if answers then Inr (get_item dc True (cp_key p) m) else Inl (UnknownTransactionOutcomeError ''COMMIT_PROOF''))"

definition resolve_outcome :: "driver_context \<Rightarrow> bool \<Rightarrow> transaction_plan \<Rightarrow> memory \<Rightarrow> transaction_outcome result" where
  "resolve_outcome dc answers plan m =
     (case tp_commit_proof plan of
        None \<Rightarrow> Inr TO_Unproven
      | Some p \<Rightarrow> bindE (read_proof dc answers p m) (\<lambda>found.
          case found of
            None \<Rightarrow> Inr TO_Not_committed
          | Some item \<Rightarrow> bindE (decode_idempotency item) (\<lambda>(scope, r).
              if ir_request_hash r \<noteq> cp_request_hash p then Inl (IdempotencyConflictError ''COMMIT_PROOF'')
              else if opt_test (\<lambda>v. ir_version r < v) (cp_completed_version p) then Inr TO_Not_committed
              else Inr TO_Committed)))"

definition retry_once ::
    "driver_context \<Rightarrow> network \<Rightarrow> transaction_plan \<Rightarrow> string \<Rightarrow> run_state \<Rightarrow> unit result \<times> run_state" where
  "retry_once dc net plan token s =
     (case uow_write dc net 1 plan token (meanwhile net 2 (late_arrival dc net plan token s)) of
        (Inr u, s') \<Rightarrow> (Inr u, s')
      | (Inl e, s') \<Rightarrow>
          if \<not> is_unknown e then (Inl e, s')
          else
            (let s'' = meanwhile net 3 s' in
             case resolve_outcome dc (net_read net 1) plan (fst s'') of
               Inl e' \<Rightarrow> (Inl e', s'')
             | Inr TO_Committed \<Rightarrow> (Inr (), s'')
             | Inr _ \<Rightarrow> (Inl e, s'')))"

definition commit ::
    "driver_context \<Rightarrow> network \<Rightarrow> transaction_plan \<Rightarrow> string \<Rightarrow> memory \<Rightarrow> unit result \<times> run_state" where
  "commit dc net plan token m =
     (case uow_write dc net 0 plan token (meanwhile net 0 (m, 0)) of
        (Inr u, s) \<Rightarrow> (Inr u, s)
      | (Inl e, s) \<Rightarrow>
          if \<not> is_unknown e then (Inl e, s)
          else
            (let s' = meanwhile net 1 s in
             case resolve_outcome dc (net_read net 0) plan (fst s') of
               Inl e' \<Rightarrow> (Inl e', s')
             | Inr TO_Committed \<Rightarrow> (Inr (), s')
             | Inr TO_Unproven \<Rightarrow> (Inl e, s')
             | Inr TO_Not_committed \<Rightarrow> retry_once dc net plan token s'))"

section \<open>Proof rows\<close>

text \<open>A row that proves a commit, and a store that holds one at the key of the proof.\<close>

definition proves :: "commit_proof \<Rightarrow> stored_item \<Rightarrow> bool" where
  "proves p item \<longleftrightarrow>
     (case decode_idempotency item of
        Inl e \<Rightarrow> False
      | Inr (scope, r) \<Rightarrow> ir_request_hash r = cp_request_hash p \<and> \<not> opt_test (\<lambda>v. ir_version r < v) (cp_completed_version p))"

definition proof_present :: "commit_proof \<Rightarrow> memory \<Rightarrow> bool" where
  "proof_present p m \<longleftrightarrow> (case stored m (cp_key p) of None \<Rightarrow> False | Some item \<Rightarrow> proves p item)"

text \<open>A token that is logged belongs to a plan that was applied.\<close>

definition token_logged :: "string \<Rightarrow> memory \<Rightarrow> bool" where
  "token_logged token m \<longleftrightarrow> token \<in> set (map fst (mem_tokens m))"

definition log_ok :: "driver_context \<Rightarrow> string \<Rightarrow> commit_proof \<Rightarrow> memory \<Rightarrow> bool" where
  "log_ok dc token p m \<longleftrightarrow>
     (token_logged (transaction_token (dc_sha dc) (dc_reset_identity dc) token) m \<longrightarrow> proof_present p m)"

text \<open>The other parties leave a proof row a proof row and do not use the token without writing the row.\<close>

definition env_keeps :: "driver_context \<Rightarrow> network \<Rightarrow> string \<Rightarrow> commit_proof \<Rightarrow> bool" where
  "env_keeps dc net token p \<longleftrightarrow>
     (\<forall>i m. (proof_present p m \<longrightarrow> proof_present p (net_meanwhile net i m)) \<and>
        (log_ok dc token p m \<longrightarrow> log_ok dc token p (net_meanwhile net i m)))"

text \<open>A plan with its proof: validated, and the item it writes at the proof's key is a proof row.\<close>

definition plan_ok :: "driver_context \<Rightarrow> transaction_plan \<Rightarrow> string \<Rightarrow> commit_proof \<Rightarrow> bool" where
  "plan_ok dc plan token p \<longleftrightarrow>
     transaction_plan_post_init (dc_sha dc) plan = Inr token \<and> tp_commit_proof plan = Some p \<and>
     commit_proof_post_init p = Inr () \<and>
     list_all (\<lambda>operation. case operation of Put_item k i c \<Rightarrow> k = cp_key p \<longrightarrow> proves p i | _ \<Rightarrow> True) (tp_operations plan)"

lemma resolve_present:
  assumes "tp_commit_proof plan = Some p" "proof_present p m"
  shows "resolve_outcome dc True plan m = Inr TO_Committed"
  using assms by (auto simp: resolve_outcome_def read_proof_def get_item_def proof_present_def proves_def
      split: option.splits sum.splits prod.splits if_splits)

lemma resolve_committed:
  assumes "tp_commit_proof plan = Some p" "resolve_outcome dc answers plan m = Inr TO_Committed"
  shows "proof_present p m"
  using assms by (auto simp: resolve_outcome_def read_proof_def get_item_def proof_present_def proves_def result_simps
      split: option.splits sum.splits prod.splits if_splits)

lemma resolve_failed: "resolve_outcome dc False plan m = Inl e \<Longrightarrow> is_unknown e"
  by (auto simp: resolve_outcome_def read_proof_def split: option.splits)

text \<open>A proof row makes the plan's own guard false.\<close>

lemma proof_closes_guard:
  assumes "proof_present p m" "commit_proof_post_init p = Inr ()"
  shows "\<not> evaluate (proof_condition p) (stored m (cp_key p))"
proof (cases "cp_completed_version p")
  case None
  with assms show ?thesis by (auto simp: proof_present_def proof_condition_def split: option.splits)
next
  case (Some v)
  from assms(1) obtain item scope r where item: "stored m (cp_key p) = Some item" "decode_idempotency item = Inr (scope, r)"
    "v \<le> ir_version r"
    by (auto simp: proof_present_def proves_def Some split: option.splits sum.splits prod.splits)
  with decode_idempotency_attributes(2) [OF item(2)] show ?thesis
    by (simp add: proof_condition_def Some attribute_def)
qed

section \<open>One request\<close>

lemma transact_token_list:
  assumes "transact_write dc now ops0 token m = (r, m')"
  shows "set (mem_tokens m') \<subseteq> set (mem_tokens m) \<or>
    r = Inr () \<and> map_of (filter (live_token now) (mem_tokens m)) (transaction_token (dc_sha dc) (dc_reset_identity dc) token) = None"
proof (cases "fence_operations (dc_sha dc) (dc_reset_authority dc) ops0")
  case (Inl e)
  with assms show ?thesis by (simp add: transact_write_def)
next
  case fenced: (Inr ops)
  let ?token = "transaction_token (dc_sha dc) (dc_reset_identity dc) token"
  let ?m = "m\<lparr>mem_tokens := filter (live_token now) (mem_tokens m)\<rparr>"
  have sub: "set (mem_tokens ?m) \<subseteq> set (mem_tokens m)" by simp
  show ?thesis
  proof (cases "map_of (mem_tokens ?m) ?token")
    case (Some old)
    with assms fenced have "m' = m \<or> m' = ?m" by (cases old) (auto simp: transact_write_def Let_def split: if_splits)
    with sub show ?thesis by blast
  next
    case None
    show ?thesis
    proof (cases "checks (concat (map (operation_check ?m) ops))")
      case (Inl e)
      with assms fenced None have "m' = m \<or> m' = ?m"
        by (simp add: transact_write_def Let_def del: operation_check_tokens split: if_split_asm)
      with sub show ?thesis by blast
    next
      case (Inr u)
      with assms fenced None have "m' = m \<or> m' = ?m \<or> r = Inr ()"
        by (simp add: transact_write_def Let_def del: operation_check_tokens split: if_split_asm)
      with sub None show ?thesis by auto
    qed
  qed
qed

lemma transact_tokens:
  assumes "transact_write dc now ops0 token m = (r, m')"
    "r \<noteq> Inr () \<or> map_of (filter (live_token now) (mem_tokens m)) (transaction_token (dc_sha dc) (dc_reset_identity dc) token) \<noteq> None"
  shows "set (map fst (mem_tokens m')) \<subseteq> set (map fst (mem_tokens m))"
proof -
  have "set (mem_tokens m') \<subseteq> set (mem_tokens m)" using transact_token_list [OF assms(1)] assms(2) by blast
  then show ?thesis by auto
qed

lemma plan_proof_item:
  assumes "plan_ok dc plan token p" "fence_operations sha a (tp_operations plan) = Inr ops"
  obtains i where "Put_item (cp_key p) i (proof_condition p) \<in> set ops" "proves p i"
proof -
  from assms(1) have plan: "transaction_plan_post_init (dc_sha dc) plan = Inr token" "tp_commit_proof plan = Some p"
    "list_all (\<lambda>operation. case operation of Put_item k i c \<Rightarrow> k = cp_key p \<longrightarrow> proves p i | _ \<Rightarrow> True) (tp_operations plan)"
    by (auto simp: plan_ok_def)
  from validated_proof [OF plan(1,2)] obtain i where i: "Put_item (cp_key p) i (proof_condition p) \<in> set (tp_operations plan)" by blast
  with plan(3) have "proves p i" by (fastforce simp: list_all_iff)
  moreover have "Put_item (cp_key p) i (proof_condition p) \<in> set ops" using i fence_operations_superset [OF assms(2)] by blast
  ultimately show thesis by (intro that)
qed

lemma apply_request_cases:
  assumes plan: "plan_ok dc plan token p" and run: "apply_request dc now plan token (m, n) = (r, m', n')"
  obtains
    (landed) "r = Inr ()" "n' = n + 1" "\<not> proof_present p m" "proof_present p m'"
  | (quiet) "n' = n" "proof_present p m' = proof_present p m" "log_ok dc token p m \<longrightarrow> log_ok dc token p m'"
      "r = Inr () \<longrightarrow> token_logged (transaction_token (dc_sha dc) (dc_reset_identity dc) token) m"
proof -
  let ?token = "transaction_token (dc_sha dc) (dc_reset_identity dc) token"
  obtain r0 m0 where t: "transact_write dc now (tp_operations plan) token m = (r0, m0)" by fastforce
  with run have r: "r = r0" "m' = m0" and n: "n' = (if lands dc now plan token m then n + 1 else n)"
    by (auto simp: apply_request_def Let_def split: if_splits)
  have quietly: thesis if q: "mem_current m0 = mem_current m" "r0 = Inr () \<longrightarrow> token_logged ?token m" "\<not> lands dc now plan token m"
  proof -
    have present: "proof_present p m0 = proof_present p m" using q(1) by (simp add: proof_present_def)
    have "set (map fst (mem_tokens m0)) \<subseteq> set (map fst (mem_tokens m))"
      using transact_tokens [OF t] q(3) t by (auto simp: lands_def)
    with present have "log_ok dc token p m \<longrightarrow> log_ok dc token p m0" by (auto simp: log_ok_def token_logged_def)
    with q present r n show thesis by (intro quiet) simp_all
  qed
  from t show thesis
  proof (cases rule: transact_write_cases)
    case (rejected e)
    with t show thesis by (intro quietly) (simp_all add: lands_def)
  next
    case (replayed ops old)
    then have "?token \<in> set (map fst (filter (live_token now) (mem_tokens m)))"
      by (metis map_of_eq_None_iff option.distinct(1) image_set)
    then have "token_logged ?token m" by (auto simp: token_logged_def)
    with replayed show thesis by (intro quietly) (simp_all add: lands_def)
  next
    case (applied ops)
    from plan_proof_item [OF plan applied(2)] obtain i where
      i: "Put_item (cp_key p) i (proof_condition p) \<in> set ops" "proves p i" .
    from applied(5) i(1) have guard: "evaluate (proof_condition p) (stored m (cp_key p))" by fastforce
    have post: "commit_proof_post_init p = Inr ()" using plan by (simp add: plan_ok_def)
    from guard proof_closes_guard [OF _ post] have absent: "\<not> proof_present p m" by blast
    from all_written_mem [OF applied(4) i(1), of "stored m"] applied(7) have "stored m0 (cp_key p) = Some i" by simp
    with i(2) have present: "proof_present p m0" by (simp add: proof_present_def)
    have "lands dc now plan token m" using t applied(1,3) by (simp add: lands_def)
    with absent present r n applied(1) show thesis by (intro landed) simp_all
  qed
qed

section \<open>A run\<close>

text \<open>The plan was applied at most once, and when it was, or its token is logged, its proof row is there.\<close>

definition run_ok :: "driver_context \<Rightarrow> string \<Rightarrow> commit_proof \<Rightarrow> run_state \<Rightarrow> bool" where
  "run_ok dc token p s \<longleftrightarrow> log_ok dc token p (fst s) \<and> snd s \<le> 1 \<and> (snd s = 1 \<longrightarrow> proof_present p (fst s))"

lemma run_ok_apply:
  assumes "plan_ok dc plan token p" "run_ok dc token p s" "apply_request dc now plan token s = (r, s')"
  shows "run_ok dc token p s'" "r = Inr () \<Longrightarrow> proof_present p (fst s')" "r \<noteq> Inr () \<Longrightarrow> snd s' = snd s"
proof -
  obtain m n m' n' where s: "s = (m, n)" "s' = (m', n')" by (metis prod.exhaust)
  from assms(1) assms(3)[unfolded s]
  have "run_ok dc token p s' \<and> (r = Inr () \<longrightarrow> proof_present p (fst s')) \<and> (r \<noteq> Inr () \<longrightarrow> snd s' = snd s)"
  proof (cases rule: apply_request_cases)
    case landed
    with assms(2) s show ?thesis by (auto simp: run_ok_def log_ok_def)
  next
    case quiet
    with assms(2) s show ?thesis by (auto simp: run_ok_def log_ok_def)
  qed
  then show "run_ok dc token p s'" "r = Inr () \<Longrightarrow> proof_present p (fst s')" "r \<noteq> Inr () \<Longrightarrow> snd s' = snd s" by blast+
qed

lemma run_ok_meanwhile:
  assumes "env_keeps dc net token p" "run_ok dc token p s"
  shows "run_ok dc token p (meanwhile net i s)" "snd (meanwhile net i s) = snd s"
    "proof_present p (fst s) \<Longrightarrow> proof_present p (fst (meanwhile net i s))"
  using assms by (auto simp: env_keeps_def run_ok_def meanwhile_def)

lemma run_ok_write:
  assumes "plan_ok dc plan token p" "run_ok dc token p s" "uow_write dc net i plan token s = (r, s')"
  shows "run_ok dc token p s'" "r = Inr () \<Longrightarrow> proof_present p (fst s')"
    "r = Inl e \<Longrightarrow> \<not> is_unknown e \<Longrightarrow> snd s' = snd s"
proof -
  have a: "apply_request dc (net_now net i) plan token s =
      (fst (apply_request dc (net_now net i) plan token s), snd (apply_request dc (net_now net i) plan token s))" by simp
  note run = run_ok_apply [OF assms(1,2) a]
  show "run_ok dc token p s'" "r = Inr () \<Longrightarrow> proof_present p (fst s')" "r = Inl e \<Longrightarrow> \<not> is_unknown e \<Longrightarrow> snd s' = snd s"
    using assms(2,3) run by (auto simp: uow_write_def split: delivery.splits)
qed

lemma run_ok_late:
  assumes "plan_ok dc plan token p" "run_ok dc token p s"
  shows "run_ok dc token p (late_arrival dc net plan token s)"
  using assms run_ok_apply(1) [OF assms, of "net_now net 1" "fst (apply_request dc (net_now net 1) plan token s)"]
  by (simp add: late_arrival_def)

text \<open>What a resolution after an ambiguous write can say.\<close>

lemma resolve_run:
  assumes "plan_ok dc plan token p" "run_ok dc token p s" "resolve_outcome dc answers plan (fst s) = res"
  shows "res = Inr TO_Committed \<Longrightarrow> proof_present p (fst s)"
    "res = Inr TO_Not_committed \<Longrightarrow> snd s = 0" "res = Inl e \<Longrightarrow> \<not> is_unknown e \<Longrightarrow> snd s = 0" "res \<noteq> Inr TO_Unproven"
proof -
  have p: "tp_commit_proof plan = Some p" using assms(1) by (simp add: plan_ok_def)
  show "res = Inr TO_Committed \<Longrightarrow> proof_present p (fst s)" using resolve_committed [OF p] assms(3) by blast
  have zero: "snd s = 0" if "\<not> proof_present p (fst s)" using assms(2) that by (auto simp: run_ok_def)
  show "res = Inr TO_Not_committed \<Longrightarrow> snd s = 0"
  proof (rule ccontr)
    assume not: "res = Inr TO_Not_committed" "snd s \<noteq> 0"
    with zero have present: "proof_present p (fst s)" by blast
    show False using resolve_present [OF p present, of dc] not(1) assms(3)
      by (cases answers) (auto simp: resolve_outcome_def read_proof_def p)
  qed
  show "res = Inl e \<Longrightarrow> \<not> is_unknown e \<Longrightarrow> snd s = 0"
  proof (rule ccontr)
    assume not: "res = Inl e" "\<not> is_unknown e" "snd s \<noteq> 0"
    with zero have present: "proof_present p (fst s)" by blast
    show False using resolve_present [OF p present, of dc] resolve_failed [of dc plan "fst s" e] not(1,2) assms(3) by (cases answers) auto
  qed
  show "res \<noteq> Inr TO_Unproven"
    using assms(3) by (auto simp: resolve_outcome_def p result_simps split: option.splits prod.splits if_splits)
qed

definition run_post :: "driver_context \<Rightarrow> string \<Rightarrow> commit_proof \<Rightarrow> bool \<Rightarrow> unit result \<times> run_state \<Rightarrow> bool" where
  "run_post dc token p late res \<longleftrightarrow>
     run_ok dc token p (snd res) \<and> (fst res = Inr () \<longrightarrow> proof_present p (fst (snd res))) \<and>
     (\<forall>e. fst res = Inl e \<longrightarrow> \<not> is_unknown e \<longrightarrow> \<not> late \<longrightarrow> snd (snd res) = 0)"

lemma retry_post:
  assumes plan: "plan_ok dc plan token p" and env: "env_keeps dc net token p" and s: "run_ok dc token p s" "snd s = 0"
  shows "run_post dc token p (late_request net) (retry_once dc net plan token s)"
proof -
  define s1 where "s1 = meanwhile net 2 (late_arrival dc net plan token s)"
  have s1: "run_ok dc token p s1" unfolding s1_def by (intro run_ok_meanwhile(1) [OF env] run_ok_late [OF plan s(1)])
  have zero: "snd s1 = 0" if "\<not> late_request net" using that s(2) by (simp add: s1_def late_arrival_def meanwhile_def)
  obtain r s2 where w: "uow_write dc net 1 plan token s1 = (r, s2)" by (metis surj_pair)
  note w2 = run_ok_write [OF plan s1 w]
  define s3 where "s3 = meanwhile net 3 s2"
  have s3: "run_ok dc token p s3" unfolding s3_def by (rule run_ok_meanwhile(1) [OF env w2(1)])
  note res = resolve_run [OF plan s3 refl, of "net_read net 1"]
  show ?thesis
  proof (cases r)
    case (Inr u)
    with w w2 show ?thesis by (simp add: retry_once_def run_post_def flip: s1_def)
  next
    case e: (Inl e)
    show ?thesis
    proof (cases "is_unknown e")
      case False
      with w w2 e zero show ?thesis by (simp add: retry_once_def run_post_def flip: s1_def)
    next
      case True
      then have "retry_once dc net plan token s = (case resolve_outcome dc (net_read net 1) plan (fst s3) of
          Inl e' \<Rightarrow> (Inl e', s3) | Inr TO_Committed \<Rightarrow> (Inr (), s3) | Inr _ \<Rightarrow> (Inl e, s3))"
        using w e unfolding retry_once_def s3_def s1_def [symmetric] by (simp add: Let_def del: One_nat_def)
      then show ?thesis using True s3 res
        by (auto simp: run_post_def split: sum.splits transaction_outcome.splits)
    qed
  qed
qed

lemma commit_post:
  assumes plan: "plan_ok dc plan token p" and env: "env_keeps dc net token p" and m: "log_ok dc token p m"
  shows "run_post dc token p (late_request net) (commit dc net plan token m)"
proof -
  define s0 where "s0 = meanwhile net 0 (m, 0)"
  have s0: "run_ok dc token p s0" "snd s0 = 0"
    unfolding s0_def using run_ok_meanwhile(1,2) [OF env, of "(m, 0)" 0] m by (simp_all add: run_ok_def)
  obtain r s1 where w: "uow_write dc net 0 plan token s0 = (r, s1)" by (metis surj_pair)
  note w1 = run_ok_write [OF plan s0(1) w]
  define s2 where "s2 = meanwhile net 1 s1"
  have s2: "run_ok dc token p s2" unfolding s2_def by (rule run_ok_meanwhile(1) [OF env w1(1)])
  note res = resolve_run [OF plan s2 refl, of "net_read net 0"]
  show ?thesis
  proof (cases r)
    case (Inr u)
    with w w1 show ?thesis by (simp add: commit_def run_post_def flip: s0_def)
  next
    case e: (Inl e)
    show ?thesis
    proof (cases "is_unknown e")
      case False
      with w w1 e s0(2) show ?thesis by (simp add: commit_def run_post_def flip: s0_def)
    next
      case True
      then have "commit dc net plan token m = (case resolve_outcome dc (net_read net 0) plan (fst s2) of
          Inl e' \<Rightarrow> (Inl e', s2) | Inr TO_Committed \<Rightarrow> (Inr (), s2) | Inr TO_Unproven \<Rightarrow> (Inl e, s2)
        | Inr TO_Not_committed \<Rightarrow> retry_once dc net plan token s2)"
        using w e unfolding commit_def s2_def s0_def [symmetric] by (simp add: Let_def del: One_nat_def)
      then show ?thesis using True s2 res retry_post [OF plan env s2]
        by (auto simp: run_post_def split: sum.splits transaction_outcome.splits)
    qed
  qed
qed

text \<open>When the proof reads answer, a plan that was applied is never reported as unknown.\<close>

lemma resolve_applied:
  assumes "plan_ok dc plan token p" "run_ok dc token p s" "snd s \<noteq> 0"
  shows "resolve_outcome dc True plan (fst s) = Inr TO_Committed"
proof -
  have "snd s = 1" using assms(2,3) by (simp add: run_ok_def)
  with assms(2) have "proof_present p (fst s)" by (simp add: run_ok_def)
  moreover have "tp_commit_proof plan = Some p" using assms(1) by (simp add: plan_ok_def)
  ultimately show ?thesis by (intro resolve_present)
qed

lemma retry_unknown:
  assumes plan: "plan_ok dc plan token p" and env: "env_keeps dc net token p" and s: "run_ok dc token p s"
    and run: "retry_once dc net plan token s = (Inl e, s')" "is_unknown e" "net_read net 1"
  shows "snd s' = 0"
proof (rule ccontr)
  assume landed: "snd s' \<noteq> 0"
  define s1 where "s1 = meanwhile net 2 (late_arrival dc net plan token s)"
  have s1: "run_ok dc token p s1" unfolding s1_def by (intro run_ok_meanwhile(1) [OF env] run_ok_late [OF plan s])
  obtain r s2 where w: "uow_write dc net 1 plan token s1 = (r, s2)" by (metis surj_pair)
  from run(1,2) w obtain e1 where r: "r = Inl e1" "is_unknown e1"
    unfolding retry_once_def s1_def [symmetric] by (auto split: sum.splits if_splits)
  have s3: "run_ok dc token p (meanwhile net 3 s2)" by (rule run_ok_meanwhile(1) [OF env run_ok_write(1) [OF plan s1 w]])
  from run(1) w r have res: "(case resolve_outcome dc (net_read net 1) plan (fst (meanwhile net 3 s2)) of
      Inl e' \<Rightarrow> (Inl e', meanwhile net 3 s2) | Inr TO_Committed \<Rightarrow> (Inr (), meanwhile net 3 s2) | Inr _ \<Rightarrow> (Inl e1, meanwhile net 3 s2)) =
      (Inl e, s')"
    unfolding retry_once_def s1_def [symmetric] by (simp add: Let_def del: One_nat_def)
  then have "s' = meanwhile net 3 s2" by (auto split: sum.splits transaction_outcome.splits)
  with resolve_applied [OF plan s3] landed res run(3) show False by simp
qed

lemma commit_unknown:
  assumes plan: "plan_ok dc plan token p" and env: "env_keeps dc net token p" and m: "log_ok dc token p m"
    and run: "commit dc net plan token m = (Inl e, s')" "is_unknown e" "net_read net 0" "net_read net 1"
  shows "snd s' = 0"
proof (rule ccontr)
  assume landed: "snd s' \<noteq> 0"
  define s0 where "s0 = meanwhile net 0 (m, 0)"
  have s0: "run_ok dc token p s0"
    unfolding s0_def using run_ok_meanwhile(1) [OF env, of "(m, 0)" 0] m by (simp add: run_ok_def)
  obtain r s1 where w: "uow_write dc net 0 plan token s0 = (r, s1)" by (metis surj_pair)
  from run(1,2) w obtain e1 where r: "r = Inl e1" "is_unknown e1"
    unfolding commit_def s0_def [symmetric] by (auto split: sum.splits if_splits)
  have s2: "run_ok dc token p (meanwhile net 1 s1)" by (rule run_ok_meanwhile(1) [OF env run_ok_write(1) [OF plan s0 w]])
  from run(1) w r have res: "(case resolve_outcome dc (net_read net 0) plan (fst (meanwhile net 1 s1)) of
      Inl e' \<Rightarrow> (Inl e', meanwhile net 1 s1) | Inr TO_Committed \<Rightarrow> (Inr (), meanwhile net 1 s1)
    | Inr TO_Unproven \<Rightarrow> (Inl e1, meanwhile net 1 s1)
    | Inr TO_Not_committed \<Rightarrow> retry_once dc net plan token (meanwhile net 1 s1)) = (Inl e, s')"
    unfolding commit_def s0_def [symmetric] by (simp add: Let_def del: One_nat_def)
  show False
  proof (cases "snd (meanwhile net 1 s1) = 0")
    case False
    with resolve_applied [OF plan s2] res run(3) show False by simp
  next
    case True
    with landed res retry_unknown [OF plan env s2 _ run(2,4)] show False
      by (auto split: sum.splits transaction_outcome.splits)
  qed
qed

lemma apply_request_count:
  "lands dc now plan token m \<Longrightarrow> snd (snd (apply_request dc now plan token (m, n))) = n + 1"
  by (simp add: apply_request_def Let_def)

text \<open>A plan that is applied by the first request was applied when the run ends.\<close>

lemma commit_first:
  assumes plan: "plan_ok dc plan token p" and env: "env_keeps dc net token p" and m: "log_ok dc token p m"
    and first: "net_write net 0 \<in> {Delivered, Lost_answer}" "lands dc (net_now net 0) plan token (net_meanwhile net 0 m)"
  shows "snd (snd (commit dc net plan token m)) = 1"
proof -
  define s0 where "s0 = meanwhile net 0 (m, 0)"
  have s0: "run_ok dc token p s0"
    unfolding s0_def using run_ok_meanwhile(1) [OF env, of "(m, 0)" 0] m by (simp add: run_ok_def)
  have s0': "s0 = (net_meanwhile net 0 m, 0)" by (simp add: s0_def meanwhile_def)
  obtain r s1 where w: "uow_write dc net 0 plan token s0 = (r, s1)" by (metis surj_pair)
  have count: "snd s1 = 1" using w first apply_request_count [OF first(2), of 0]
    by (auto simp: uow_write_def s0')
  have s2: "run_ok dc token p (meanwhile net 1 s1)" by (rule run_ok_meanwhile(1) [OF env run_ok_write(1) [OF plan s0 w]])
  have count2: "snd (meanwhile net 1 s1) = 1" using count by (simp add: meanwhile_def)
  then have "resolve_outcome dc (net_read net 0) plan (fst (meanwhile net 1 s1)) \<noteq> Inr TO_Not_committed"
    using resolve_run(2) [OF plan s2 refl] by fastforce
  then show ?thesis
    using w count count2 unfolding commit_def s0_def [symmetric]
    by (auto simp: Let_def simp del: One_nat_def split: sum.splits transaction_outcome.splits)
qed

end
