(* ===== verification/Repositories.thy ===== *)
theory Repositories
  imports Unit_of_Work
begin

text \<open>
  The repositories over a storage driver: the guards of \<open>src/chorus/infrastructure/dynamodb/guards.py\<close>,
  the send fence operations of \<open>core.py\<close> and the idempotency records of \<open>idempotency.py\<close>. A driver is
  a strong or eventual read and a conditional write; what the repositories rely on are the laws of the
  locale \<open>conditional_store\<close>, which the reference driver keeps. The fence operations on rows refine the
  fence operations of \<open>Send_Authority\<close> on fences.
\<close>

section \<open>Guards\<close>

text \<open>An unchecked attribute of a scope is \<open>None\<close>.\<close>

definition validate_scope ::
    "decoded_scope \<Rightarrow> item_key \<Rightarrow> string \<Rightarrow> namespace \<Rightarrow> community_id option option \<Rightarrow> case_id option option \<Rightarrow> unit result" where
  "validate_scope decoded k ref ns community the_case = checks
     [(ds_partition_key decoded \<noteq> key_partition k \<or> ds_sort_key decoded \<noteq> key_sort k, CrossCaseViolationError ref),
      (ds_namespace decoded \<noteq> ns, CrossCaseViolationError ref),
      (opt_test (\<lambda>c. ds_community_id decoded \<noteq> c) community, CrossCaseViolationError ref),
      (opt_test (\<lambda>c. ds_case_id decoded \<noteq> c) the_case, CrossCaseViolationError ref)]"

definition require_same :: "'a \<Rightarrow> 'a \<Rightarrow> string \<Rightarrow> unit result" where
  "require_same expected actual ref = checks [(expected \<noteq> actual, CrossCaseViolationError ref)]"

definition create_operation :: "item_key \<Rightarrow> stored_item \<Rightarrow> write_operation" where
  "create_operation k i = Put_item k i Key_absent"

definition replace_operation :: "item_key \<Rightarrow> stored_item \<Rightarrow> int \<Rightarrow> int \<Rightarrow> write_operation result" where
  "replace_operation k i expected_version new_version =
     bindE (checks
       [(expected_version < 1, ValueError ''expected version must be positive''),
        (new_version \<noteq> expected_version + 1, ValueError ''an optimistic write must increment the entity version by one'')])
     (\<lambda>_. Inr (Put_item k i (Attribute_equals_number ''version'' expected_version)))"

section \<open>Drivers\<close>

record 'm storage_driver =
  sd_get :: "item_key \<Rightarrow> bool \<Rightarrow> 'm \<Rightarrow> stored_item option"
  sd_write :: "write_operation \<Rightarrow> 'm \<Rightarrow> unit result \<times> 'm"

definition memory_driver :: "driver_context \<Rightarrow> int \<Rightarrow> string \<Rightarrow> memory storage_driver" where
  "memory_driver dc now fresh = \<lparr>sd_get = (\<lambda>k consistent m. get_item dc consistent k m), sd_write = write_item dc now fresh\<rparr>"

fun is_conflict :: "error \<Rightarrow> bool" where
  "is_conflict (PersistenceConflictError _) = True"
| "is_conflict _ = False"

section \<open>The send fence\<close>

definition expired_or_absent_condition :: "datetime \<Rightarrow> item_condition result" where
  "expired_or_absent_condition now =
     bindE (epoch_micros now) (\<lambda>n. Inr (Any_of [Key_absent, Attribute_at_most_number ''expires_at_micros'' n]))"

definition load_send_fence :: "'m storage_driver \<Rightarrow> case_scope \<Rightarrow> 'm \<Rightarrow> send_fence option result" where
  "load_send_fence d scope m =
     bindE (send_fence_key scope) (\<lambda>k.
       case sd_get d k True m of
         None \<Rightarrow> Inr None
       | Some item \<Rightarrow>
           bindE (decode_send_fence item) (\<lambda>(decoded, f).
           bindE (validate_scope decoded k ''SEND_FENCE'' (cs_namespace scope)
             (Some (Some (cs_community_id scope))) (Some (Some (cs_case_id scope)))) (\<lambda>_.
           bindE (require_same (fence_case_id f) (cs_case_id scope) ''SEND_FENCE'') (\<lambda>_.
           bindE (require_same (fence_community_id f) (cs_community_id scope) ''SEND_FENCE'') (\<lambda>_.
           Inr (Some f))))))"

text \<open>The put of \<open>acquire_send_fence\<close>, and what follows its conflict; other parties act in between.\<close>

definition fence_put :: "case_scope \<Rightarrow> send_fence \<Rightarrow> write_operation result" where
  "fence_put scope f =
     bindE (send_fence_key scope) (\<lambda>k. bindE (encode_send_fence scope f) (\<lambda>i.
     bindE (expired_or_absent_condition (fence_acquired_at f)) (\<lambda>c. Inr (Put_item k i c))))"

definition row_acquire_send_fence ::
    "'m storage_driver \<Rightarrow> ('m \<Rightarrow> 'm) \<Rightarrow> case_scope \<Rightarrow> send_fence \<Rightarrow> 'm \<Rightarrow> send_fence result \<times> 'm" where
  "row_acquire_send_fence d others scope f m =
     (case fence_put scope f of
        Inl e \<Rightarrow> (Inl e, m)
      | Inr operation \<Rightarrow>
          (case sd_write d operation m of
             (Inr u, m') \<Rightarrow> (Inr f, m')
           | (Inl e, m') \<Rightarrow>
               if \<not> is_conflict e then (Inl e, m')
               else
                 (let m'' = others m' in
                  case load_send_fence d scope m'' of
                    Inl e' \<Rightarrow> (Inl e', m'')
                  | Inr None \<Rightarrow> (Inl e, m'')
                  | Inr (Some existing) \<Rightarrow>
                      if fence_execution_id existing \<noteq> fence_execution_id f then (Inl e, m'') else (Inr existing, m''))))"

definition row_release_send_fence ::
    "'m storage_driver \<Rightarrow> case_scope \<Rightarrow> execution_id \<Rightarrow> 'm \<Rightarrow> unit result \<times> 'm" where
  "row_release_send_fence d scope execution m =
     (case send_fence_key scope of
        Inl e \<Rightarrow> (Inl e, m)
      | Inr k \<Rightarrow> sd_write d (Delete_item k (Attribute_equals_string ''execution_id'' (ident_str execution))) m)"

definition stage_require_no_live_send_fence :: "case_scope \<Rightarrow> datetime \<Rightarrow> write_operation result" where
  "stage_require_no_live_send_fence scope now =
     bindE (send_fence_key scope) (\<lambda>k. bindE (expired_or_absent_condition now) (\<lambda>c. Inr (Check_item k c)))"

section \<open>Idempotency records\<close>

text \<open>
  \<open>int(now.timestamp())\<close> truncates; the quotient of the instant is exact for instants the source meets
  (below \<open>2 ^ 33\<close> seconds from the epoch, the floating-point timestamp has the same integer part).
\<close>

definition idempotency_expiry :: "idempotency_key \<Rightarrow> datetime \<Rightarrow> int" where
  "idempotency_expiry k now =
     (if 0 \<le> instant now then instant now div 1000000 else - (- instant now div 1000000)) + retention_seconds (ik_command k)"

definition load_idempotency ::
    "'m storage_driver \<Rightarrow> table_name \<Rightarrow> idempotency_key \<Rightarrow> 'm \<Rightarrow> idempotency_record option result" where
  "load_idempotency d table key m =
     bindE (idempotency_item_key table key) (\<lambda>k.
       case sd_get d k True m of
         None \<Rightarrow> Inr None
       | Some item \<Rightarrow>
           bindE (decode_idempotency item) (\<lambda>(decoded, r).
           bindE (validate_scope decoded k ''IDEMPOTENCY_RECORD'' (ip_namespace (ik_partition key))
             (Some (ip_community_id (ik_partition key))) None) (\<lambda>_.
           bindE (require_same (ds_case_id decoded) (ip_case_id (ik_partition key)) ''IDEMPOTENCY_RECORD'') (\<lambda>_.
           bindE (require_same (ir_key r) key ''IDEMPOTENCY_RECORD'') (\<lambda>_.
           Inr (Some r))))))"

datatype idempotency_outcome =
    Idempotency_started idempotency_record
  | Idempotency_replay idempotency_record
  | Idempotency_in_progress idempotency_record
  | Idempotency_failed_final idempotency_record

definition classify_record :: "idempotency_record \<Rightarrow> digest \<Rightarrow> idempotency_outcome result" where
  "classify_record r request_hash =
     (if ir_request_hash r \<noteq> request_hash then Inl (IdempotencyConflictError ''IDEMPOTENCY_RECORD'')
      else
        (case ir_status r of
           IS_COMPLETED \<Rightarrow> Inr (Idempotency_replay r)
         | IS_IN_PROGRESS \<Rightarrow> Inr (Idempotency_in_progress r)
         | IS_FAILED_FINAL \<Rightarrow> Inr (Idempotency_failed_final r)))"

definition new_record ::
    "idempotency_key \<Rightarrow> digest \<Rightarrow> idempotency_status \<Rightarrow> entity_ref list \<Rightarrow> int option \<Rightarrow> datetime \<Rightarrow> idempotency_record" where
  "new_record key request_hash status refs response now =
     \<lparr>ir_key = key, ir_request_hash = request_hash, ir_status = status, ir_refs = refs, ir_response_status = response,
      ir_created_at = now, ir_updated_at = now, ir_expires_at_epoch = idempotency_expiry key now, ir_version = 1\<rparr>"

definition stage_create_record :: "table_name \<Rightarrow> idempotency_record \<Rightarrow> write_operation result" where
  "stage_create_record table r0 =
     bindE (validated idempotency_record_post_init r0) (\<lambda>r.
     bindE (idempotency_item_key table (ir_key r)) (\<lambda>k. bindE (encode_idempotency table r) (\<lambda>i.
     Inr (create_operation k i))))"

definition begin_idempotency ::
    "'m storage_driver \<Rightarrow> ('m \<Rightarrow> 'm) \<Rightarrow> table_name \<Rightarrow> idempotency_key \<Rightarrow> digest \<Rightarrow> datetime \<Rightarrow> 'm \<Rightarrow>
     idempotency_outcome result \<times> 'm" where
  "begin_idempotency d others table key request_hash now m =
     (let r = new_record key request_hash IS_IN_PROGRESS [] None now in
      case stage_create_record table r of
        Inl e \<Rightarrow> (Inl e, m)
      | Inr operation \<Rightarrow>
          (case sd_write d operation m of
             (Inr u, m') \<Rightarrow> (Inr (Idempotency_started r), m')
           | (Inl e, m') \<Rightarrow>
               if \<not> is_conflict e then (Inl e, m')
               else
                 (let m'' = others m' in
                  case load_idempotency d table key m'' of
                    Inl e' \<Rightarrow> (Inl e', m'')
                  | Inr None \<Rightarrow> (Inl e, m'')
                  | Inr (Some existing) \<Rightarrow> (classify_record existing request_hash, m''))))"

definition stage_create_completed ::
    "table_name \<Rightarrow> idempotency_key \<Rightarrow> digest \<Rightarrow> entity_ref list \<Rightarrow> int \<Rightarrow> datetime \<Rightarrow> write_operation result" where
  "stage_create_completed table key request_hash refs response now =
     stage_create_record table (new_record key request_hash IS_COMPLETED refs (Some response) now)"

definition stage_transition ::
    "table_name \<Rightarrow> idempotency_record \<Rightarrow> idempotency_status \<Rightarrow> entity_ref list \<Rightarrow> int \<Rightarrow> datetime \<Rightarrow> write_operation result" where
  "stage_transition table r status refs response now =
     (if ir_status r \<noteq> IS_IN_PROGRESS
      then Inl (ValueError ''only an in-progress record may transition to a final outcome'')
      else
        bindE (validated idempotency_record_post_init
          (r\<lparr>ir_status := status, ir_refs := refs, ir_response_status := Some response, ir_updated_at := now,
             ir_version := ir_version r + 1\<rparr>)) (\<lambda>updated.
        bindE (idempotency_item_key table (ir_key r)) (\<lambda>k. bindE (encode_idempotency table updated) (\<lambda>i.
        replace_operation k i (ir_version r) (ir_version updated)))))"

definition stage_complete ::
    "table_name \<Rightarrow> idempotency_record \<Rightarrow> entity_ref list \<Rightarrow> int \<Rightarrow> datetime \<Rightarrow> write_operation result" where
  "stage_complete table r refs response now = stage_transition table r IS_COMPLETED refs response now"

definition stage_fail_final :: "table_name \<Rightarrow> idempotency_record \<Rightarrow> int \<Rightarrow> datetime \<Rightarrow> write_operation result" where
  "stage_fail_final table r response now = stage_transition table r IS_FAILED_FINAL [] response now"

definition record_commit_proof :: "table_name \<Rightarrow> idempotency_key \<Rightarrow> digest \<Rightarrow> commit_proof result" where
  "record_commit_proof table key request_hash =
     bindE (idempotency_item_key table key) (\<lambda>k.
     validated commit_proof_post_init \<lparr>cp_key = k, cp_request_hash = request_hash, cp_completed_version = None\<rparr>)"

definition record_completion_proof :: "table_name \<Rightarrow> idempotency_record \<Rightarrow> commit_proof result" where
  "record_completion_proof table r =
     (if ir_status r \<noteq> IS_IN_PROGRESS then Inl (ValueError ''only an in-progress record can be completed by a plan'')
      else bindE (idempotency_item_key table (ir_key r)) (\<lambda>k.
        validated commit_proof_post_init
          \<lparr>cp_key = k, cp_request_hash = ir_request_hash r, cp_completed_version = Some (ir_version r + 1)\<rparr>))"

end
