(* ===== verification/Repository_Laws.thy ===== *)
theory Repository_Laws
  imports Repositories
begin

text \<open>
  What a driver promises its repositories, that the reference driver keeps it, and what the repositories
  promise in turn: the fence operations on rows refine the fence operations on fences, one key of one
  command is begun at most once, and the records they stage prove the commits they are staged in.
\<close>

section \<open>The laws of a driver\<close>

locale conditional_store =
  fixes d :: "'m storage_driver"
    and ready :: "write_operation \<Rightarrow> 'm \<Rightarrow> bool"
  assumes write_applied: "ready operation m \<Longrightarrow> sd_write d operation m = (Inr u, m') \<Longrightarrow>
      evaluate (op_condition operation) (sd_get d (op_key operation) True m) \<and>
      sd_get d (op_key operation) True m' = written operation (sd_get d (op_key operation) True m)"
    and write_rejected: "sd_write d operation m = (Inl e, m') \<Longrightarrow> sd_get d k True m' = sd_get d k True m"
    and write_decided: "ready operation m \<Longrightarrow> addressed operation \<Longrightarrow>
      (if evaluate (op_condition operation) (sd_get d (op_key operation) True m) then fst (sd_write d operation m) = Inr ()
       else \<exists>ref. fst (sd_write d operation m) = Inl (PersistenceConflictError ref))"
begin

abbreviation row :: "'m \<Rightarrow> item_key \<Rightarrow> stored_item option" where
  "row m k \<equiv> sd_get d k True m"

lemma write_cases:
  assumes "ready operation m" "addressed operation"
  obtains
    (applied) m' where "sd_write d operation m = (Inr (), m')" "evaluate (op_condition operation) (row m (op_key operation))"
      "row m' (op_key operation) = written operation (row m (op_key operation))"
  | (conflict) ref m' where "sd_write d operation m = (Inl (PersistenceConflictError ref), m')"
      "\<not> evaluate (op_condition operation) (row m (op_key operation))" "\<And>k. row m' k = row m k"
proof -
  obtain r m' where w: "sd_write d operation m = (r, m')" by (metis surj_pair)
  show thesis
  proof (cases "evaluate (op_condition operation) (row m (op_key operation))")
    case True
    with write_decided [OF assms] w have "r = Inr ()" by simp
    with w have "sd_write d operation m = (Inr (), m')" by simp
    with write_applied [OF assms(1) this] show thesis using applied by blast
  next
    case False
    with write_decided [OF assms] w obtain ref where r: "r = Inl (PersistenceConflictError ref)" by auto
    with w have w': "sd_write d operation m = (Inl (PersistenceConflictError ref), m')" by simp
    from conflict [OF w' False write_rejected [OF w']] show thesis .
  qed
qed

end

section \<open>The reference driver keeps the laws\<close>

text \<open>
  A driver is ready for an operation when nothing is added to it, or when it only adds the check of the
  reset lock, the lock is absent and the token of the write is new.
\<close>

definition memory_ready :: "driver_context \<Rightarrow> string \<Rightarrow> write_operation \<Rightarrow> memory \<Rightarrow> bool" where
  "memory_ready dc fresh operation m \<longleftrightarrow>
     fence_operations (dc_sha dc) (dc_reset_authority dc) [operation] = Inr [operation] \<or>
     fence_operations (dc_sha dc) (dc_reset_authority dc) [operation] = Inr [operation, Check_item LOCK_KEY Key_absent] \<and>
     stored m LOCK_KEY = None \<and> op_key operation \<noteq> LOCK_KEY \<and>
     \<not> token_logged (transaction_token (dc_sha dc) (dc_reset_identity dc) fresh) m"

lemma memory_driver_simps [simp]:
  "sd_get (memory_driver dc now fresh) k True m = stored m k" "sd_write (memory_driver dc now fresh) = write_item dc now fresh"
  by (simp_all add: memory_driver_def get_item_def)

lemma token_new: "\<not> token_logged token m \<Longrightarrow> map_of (filter P (mem_tokens m)) token = None"
  by (auto simp: token_logged_def map_of_eq_None_iff)

lemma write_item_guarded:
  assumes "fence_operations (dc_sha dc) (dc_reset_authority dc) [operation] = Inr [operation, Check_item LOCK_KEY Key_absent]"
    "stored m LOCK_KEY = None" "op_key operation \<noteq> LOCK_KEY"
    "\<not> token_logged (transaction_token (dc_sha dc) (dc_reset_identity dc) fresh) m"
  shows "fst (write_item dc now fresh operation m) =
      (if \<not> addressed operation then Inl not_addressed
       else if evaluate (op_condition operation) (stored m (op_key operation)) then Inr () else Inl (PersistenceConflictError ''TRANSACTION''))"
proof -
  have again: "fence_operations (dc_sha dc) (dc_reset_authority dc) [operation, Check_item LOCK_KEY Key_absent] =
      Inr [operation, Check_item LOCK_KEY Key_absent]"
    using assms(1) by (auto simp: fence_operations_def Let_def add_target_def case_registrations_def split: if_splits)
  show ?thesis
    using assms(1-3) again token_new [OF assms(4)]
    by (auto simp: write_item_def transact_write_def Let_def TRANSACTION_MAX_OPERATIONS_def operation_check_def checks.simps addressed_def)
qed

lemma memory_ready_applied:
  assumes "memory_ready dc fresh operation m" "write_item dc now fresh operation m = (Inr u, m')"
  shows "evaluate (op_condition operation) (stored m (op_key operation)) \<and>
    stored m' (op_key operation) = written operation (stored m (op_key operation))"
  using assms(2)
proof (cases rule: write_item_cases)
  case (transacted ops)
  with assms(1) have ops: "ops = [operation, Check_item LOCK_KEY Key_absent]"
    and other: "op_key operation \<noteq> LOCK_KEY"
    and new: "\<not> token_logged (transaction_token (dc_sha dc) (dc_reset_identity dc) fresh) m"
    by (auto simp: memory_ready_def)
  from transacted(1) ops have again: "fence_operations (dc_sha dc) (dc_reset_authority dc) ops = Inr ops"
    by (auto simp: fence_operations_def Let_def add_target_def case_registrations_def split: if_splits)
  from transacted(3) show ?thesis
  proof (cases rule: transact_write_cases)
    case (replayed ops' old)
    with token_new [OF new] show ?thesis by simp
  next
    case (applied ops')
    with again ops have ops': "ops' = [operation, Check_item LOCK_KEY Key_absent]" by simp
    have "all_written ops' (stored m) (op_key operation) = written operation (stored m (op_key operation))"
      by (simp add: ops' all_written_def)
    with applied(5,7) show ?thesis by (simp add: ops')
  qed simp
qed (use assms(2) in simp_all)

lemma memory_write_rejected:
  assumes "write_item dc now fresh operation m = (Inl e, m')"
  shows "stored m' k = stored m k"
  using assms
proof (cases rule: write_item_cases)
  case (transacted ops)
  from transacted(3) show ?thesis by (cases rule: transact_write_cases) simp_all
qed simp_all

lemma memory_write_decided:
  assumes "memory_ready dc fresh operation m" "addressed operation"
  shows "if evaluate (op_condition operation) (stored m (op_key operation)) then fst (write_item dc now fresh operation m) = Inr ()
    else \<exists>ref. fst (write_item dc now fresh operation m) = Inl (PersistenceConflictError ref)"
proof (cases "fence_operations (dc_sha dc) (dc_reset_authority dc) [operation] = Inr [operation]")
  case True
  with assms(2) show ?thesis by (auto simp: write_item_def)
next
  case False
  with assms(1) write_item_guarded [of dc operation m fresh now] assms(2) show ?thesis by (auto simp: memory_ready_def)
qed

interpretation mem: conditional_store "memory_driver dc now fresh" "memory_ready dc fresh" for dc now fresh
  by unfold_locales (use memory_ready_applied memory_write_rejected memory_write_decided in \<open>auto simp only: memory_driver_simps\<close>)

section \<open>Fences as rows\<close>

lemma fence_attribute_values:
  "map_of (fence_attributes pk sk f) ''PK'' = Some (SStr pk)" "map_of (fence_attributes pk sk f) ''SK'' = Some (SStr sk)"
  "map_of (fence_attributes pk sk f) ''execution_id'' = Some (SStr (ident_str (fence_execution_id f)))"
  "map_of (fence_attributes pk sk f) ''expires_at_micros'' = Some (SInt (instant (fence_expires_at f)))"
  by (simp_all add: fence_attributes_def scope_envelope_def envelope_def fence_scope_def)

text \<open>A fence of a case, and a row that holds none or one of them; the fence it stands for.\<close>

definition fence_of :: "case_scope \<Rightarrow> send_fence \<Rightarrow> bool" where
  "fence_of scope f \<longleftrightarrow> readable_fence f \<and> fence_namespace f = cs_namespace scope \<and>
     fence_community_id f = cs_community_id scope \<and> fence_case_id f = cs_case_id scope"

definition fence_row_is :: "case_scope \<Rightarrow> item_key \<Rightarrow> send_fence option \<Rightarrow> stored_item option \<Rightarrow> bool" where
  "fence_row_is scope k fence row \<longleftrightarrow>
     (case fence of
        None \<Rightarrow> row = None
      | Some f \<Rightarrow> fence_of scope f \<and> (\<exists>item. row = Some item \<and> exactly item (fence_attributes (key_partition k) (key_sort k) f)))"

lemma exactly_values: "exactly item (fence_attributes pk sk f) \<Longrightarrow> map_of item = map_of (fence_attributes pk sk f)"
  by (rule exactly_map [OF _ distinct_fence_attributes])

lemma fence_condition_row:
  assumes "fence_row_is scope k fence row" "is_utc now" "expired_or_absent_condition now = Inr c"
  shows "evaluate c row \<longleftrightarrow> expired_or_absent (instant now) fence"
proof -
  have "c = Any_of [Key_absent, Attribute_at_most_number ''expires_at_micros'' (instant now)]"
    using assms(2,3) by (simp add: expired_or_absent_condition_def epoch_micros_exact)
  with assms(1) show ?thesis
    by (cases fence) (auto simp: fence_row_is_def expired_or_absent_def attribute_def exactly_values fence_attribute_values)
qed

lemma load_fence_row:
  assumes "send_fence_key scope = Inr k" "fence_row_is scope k fence (sd_get d k True m)"
  shows "load_send_fence d scope m = Inr fence"
proof (cases fence)
  case None
  with assms show ?thesis by (simp add: load_send_fence_def fence_row_is_def)
next
  case (Some f)
  with assms(2) obtain item where item: "sd_get d k True m = Some item"
    "exactly item (fence_attributes (key_partition k) (key_sort k) f)" and f: "fence_of scope f" by (auto simp: fence_row_is_def)
  have "decode_send_fence item = Inr (fence_scope (key_partition k) (key_sort k) f, f)"
    unfolding decode_send_fence_iff using item(2) f by (simp add: fence_scope_def fence_of_def)
  with assms(1) item(1) f Some show ?thesis
    by (simp add: load_send_fence_def validate_scope_def require_same_def fence_scope_def fence_of_def checks.simps)
qed

lemma fence_put_value:
  assumes "send_fence_key scope = Inr k" "fence_of scope f"
  obtains c where "expired_or_absent_condition (fence_acquired_at f) = Inr c"
    "fence_put scope f = Inr (Put_item k (fence_attributes (key_partition k) (key_sort k) f) c)"
proof -
  have post: "send_fence_post_init f = Inr ()" using assms(2) by (simp add: fence_of_def readable_fence_def)
  then obtain c where c: "expired_or_absent_condition (fence_acquired_at f) = Inr c"
    using fence_times(1) [OF post] by (simp add: expired_or_absent_condition_def epoch_micros_exact)
  with assms(1) encode_send_fence_value [OF assms(1) post] show thesis by (intro that) (simp_all add: fence_put_def)
qed

section \<open>The fence operations refine\<close>

context conditional_store
begin

text \<open>
  Acquiring a fence on rows does what \<open>acquire_send_fence\<close> does on fences: the put decides on the row it
  meets, and after a conflict the answer is decided on the row that is there then.
\<close>

lemma acquire_refines:
  assumes key: "send_fence_key scope = Inr k" and f: "fence_of scope f"
    and before: "fence_row_is scope k fence (row m k)"
    and ready: "\<And>operation. fence_put scope f = Inr operation \<Longrightarrow> ready operation m"
    and later: "\<And>m'. (\<And>j. row m' j = row m j) \<Longrightarrow> fence_row_is scope k later (row (others m') k)"
  obtains m' where
    "put_fence f fence = Inr (Some f)" "row_acquire_send_fence d others scope f m = (Inr f, m')"
      "fence_row_is scope k (Some f) (row m' k)"
  | m' ref where
    "put_fence f fence = Inl fence_conflict"
      "row_acquire_send_fence d others scope f m =
         ((case fence_after_conflict f later of Inl e \<Rightarrow> Inl (PersistenceConflictError ref) | Inr g \<Rightarrow> Inr g), m')"
      "fence_row_is scope k later (row m' k)"
proof -
  obtain c where c: "expired_or_absent_condition (fence_acquired_at f) = Inr c"
    and put: "fence_put scope f = Inr (Put_item k (fence_attributes (key_partition k) (key_sort k) f) c)"
    by (rule fence_put_value [OF key f])
  let ?put = "Put_item k (fence_attributes (key_partition k) (key_sort k) f) c"
  have post: "send_fence_post_init f = Inr ()" using f by (simp add: fence_of_def readable_fence_def)
  have cond: "evaluate c (row m k) \<longleftrightarrow> expired_or_absent (instant (fence_acquired_at f)) fence"
    by (rule fence_condition_row [OF before fence_times(1) [OF post] c])
  have addr: "addressed ?put" by (simp add: addressed_def fence_attribute_values)
  from ready [OF put] addr show thesis
  proof (cases rule: write_cases)
    case (applied m')
    have "fence_row_is scope k (Some f) (row m' k)"
      using applied(3) f exactly_self [OF distinct_fence_attributes] by (simp add: fence_row_is_def)
    moreover have "put_fence f fence = Inr (Some f)" using applied(2) cond by (simp add: put_fence_def)
    moreover have "row_acquire_send_fence d others scope f m = (Inr f, m')" using put applied(1) by (simp add: row_acquire_send_fence_def)
    ultimately show thesis using that(1) by blast
  next
    case (conflict ref m')
    have row: "fence_row_is scope k later (row (others m') k)" by (rule later) (rule conflict(3))
    have load: "load_send_fence d scope (others m') = Inr later" by (rule load_fence_row [OF key row])
    have "row_acquire_send_fence d others scope f m =
        ((case fence_after_conflict f later of Inl e \<Rightarrow> Inl (PersistenceConflictError ref) | Inr g \<Rightarrow> Inr g), others m')"
      using put conflict(1) load
      by (auto simp: row_acquire_send_fence_def fence_after_conflict_def Let_def split: option.splits)
    moreover have "put_fence f fence = Inl fence_conflict" using conflict(2) cond by (simp add: put_fence_def)
    ultimately show thesis using that(2) row by blast
  qed
qed

lemma release_refines:
  assumes key: "send_fence_key scope = Inr k" and execution: "readable_ident execution"
    and before: "fence_row_is scope k fence (row m k)"
    and ready: "ready (Delete_item k (Attribute_equals_string ''execution_id'' (ident_str execution))) m"
  obtains m' where "release_send_fence execution fence = Inr None" "row_release_send_fence d scope execution m = (Inr (), m')"
      "fence_row_is scope k None (row m' k)"
  | m' ref where "release_send_fence execution fence = Inl fence_conflict"
      "row_release_send_fence d scope execution m = (Inl (PersistenceConflictError ref), m')" "fence_row_is scope k fence (row m' k)"
proof -
  let ?delete = "Delete_item k (Attribute_equals_string ''execution_id'' (ident_str execution))"
  have same: "ident_str i = ident_str execution \<longleftrightarrow> i = execution" if "readable_ident i" for i
    using that execution by (metis readable_ident_def option.inject ident.expand)
  have cond: "evaluate (op_condition ?delete) (row m (op_key ?delete)) \<longleftrightarrow> release_send_fence execution fence = Inr None"
  proof (cases fence)
    case (Some g)
    with before have "readable_ident (fence_execution_id g)" by (auto simp: fence_row_is_def fence_of_def readable_fence_def)
    with before Some same show ?thesis
      by (auto simp: fence_row_is_def release_send_fence_def attribute_def exactly_values fence_attribute_values)
  qed (use before in \<open>simp add: fence_row_is_def release_send_fence_def attribute_def\<close>)
  have decided: "release_send_fence execution fence = Inr None \<or> release_send_fence execution fence = Inl fence_conflict"
    by (auto simp: release_send_fence_def split: option.splits)
  have "addressed ?delete" by (simp add: addressed_def)
  from ready this show thesis
  proof (cases rule: write_cases)
    case (applied m')
    with cond that(1) [of m'] key show thesis by (simp add: row_release_send_fence_def fence_row_is_def)
  next
    case (conflict ref m')
    with cond decided that(2) [of ref m'] key before show thesis by (simp add: row_release_send_fence_def)
  qed
qed

end

section \<open>A key is begun once\<close>

definition key_ok :: "idempotency_key \<Rightarrow> bool" where
  "key_ok key \<longleftrightarrow>
     (let p = ik_partition key in
      idempotency_partition_post_init p = Inr () \<and> namespace_post_init (ip_namespace p) = Inr () \<and>
      pred_option readable_ident (ip_community_id p) \<and> pred_option readable_ident (ip_case_id p) \<and>
      pred_option readable_ident (ip_action_id p) \<and>
      digest_post_init (ik_actor_id_hash key) = Inr () \<and> digest_post_init (ik_key_hash key) = Inr ())"

lemma ident_str_inj: "readable_ident i \<Longrightarrow> readable_ident j \<Longrightarrow> ident_str i = ident_str j \<Longrightarrow> i = j"
  by (metis readable_ident_def option.inject ident.expand)

text \<open>The partition key of a record determines its partition.\<close>

lemma idempotency_partition_key_inj:
  assumes "idempotency_partition_key p = Inr s" "idempotency_partition_key q = Inr s"
    "idempotency_partition_post_init p = Inr ()" "idempotency_partition_post_init q = Inr ()"
    "pred_option readable_ident (ip_community_id p)" "pred_option readable_ident (ip_case_id p)"
    "pred_option readable_ident (ip_action_id p)"
    "pred_option readable_ident (ip_community_id q)" "pred_option readable_ident (ip_case_id q)"
    "pred_option readable_ident (ip_action_id q)"
  shows "p = q"
proof -
  let ?segments = "\<lambda>p. case ip_kind p of
      PK_NAMESPACE \<Rightarrow> [''NS'', ns_value (ip_namespace p)]
    | PK_COMMUNITY \<Rightarrow> [''NS'', ns_value (ip_namespace p), ''COMM'', ident_str (the (ip_community_id p))]
    | PK_CASE \<Rightarrow> [''NS'', ns_value (ip_namespace p), ''CASE'', ident_str (the (ip_case_id p))]
    | PK_VIEW_CURRENT \<Rightarrow> [''NS'', ns_value (ip_namespace p), ''VIEW_CURRENT'', ident_str (the (ip_case_id p))]
    | PK_ACTION \<Rightarrow> [''NS'', ns_value (ip_namespace p), ''ACTION'', ident_str (the (ip_action_id p))]
    | PK_EXECUTION \<Rightarrow> [''NS'', ns_value (ip_namespace p), ''EXECUTION'', ident_str (the (ip_action_id p))]"
  have joined: "key_join (?segments p) = Inr s" if "idempotency_partition_key p = Inr s" for p
    using that by (auto simp: idempotency_partition_key_def namespace_partition_def community_partition_def case_partition_def
        view_current_partition_def action_partition_def execution_partition_def Let_def split: partition_kind.splits option.splits)
  have same: "?segments p = ?segments q" using key_join_inj [OF joined [OF assms(1)] joined [OF assms(2)]] .
  have kind: "ip_kind p = ip_kind q" using same by (cases "ip_kind p"; cases "ip_kind q") simp_all
  have ns: "ip_namespace p = ip_namespace q" using same by (cases "ip_kind p"; cases "ip_kind q") (simp_all add: namespace.expand)
  have ids: "ip_community_id p = ip_community_id q \<and> ip_case_id p = ip_case_id q \<and> ip_action_id p = ip_action_id q"
    using same kind assms(3-)
    by (cases "ip_kind p")
      (auto simp: idempotency_partition_post_init_def Let_def result_simps split: if_splits intro: ident_str_inj)
  show ?thesis using kind ns ids by (auto intro: idempotency_partition.equality)
qed

lemma new_record_readable:
  assumes "key_ok key" "digest_post_init request = Inr ()" "readable_time now"
    "idempotency_record_post_init (new_record key request IS_IN_PROGRESS [] None now) = Inr ()"
  shows "readable_record (new_record key request IS_IN_PROGRESS [] None now)"
  using assms by (simp add: readable_record_def key_ok_def new_record_def Let_def)

lemma stage_create_record_value:
  assumes "stage_create_record table r = Inr operation"
  obtains k where "idempotency_item_key table (ir_key r) = Inr k" "idempotency_record_post_init r = Inr ()"
    "operation = create_operation k (record_attributes (key_partition k) (key_sort k) r (encode_entity_refs (ir_refs r)))"
proof -
  from assms obtain k i where k: "idempotency_item_key table (ir_key r) = Inr k" "idempotency_record_post_init r = Inr ()"
    "encode_idempotency table r = Inr i" "operation = create_operation k i"
    by (auto simp: stage_create_record_def result_simps)
  with encode_idempotency_value [OF k(1,2)] show thesis by (intro that) simp_all
qed

lemma record_attribute_address:
  "map_of (record_attributes pk sk r refs) ''PK'' = Some (SStr pk)" "map_of (record_attributes pk sk r refs) ''SK'' = Some (SStr sk)"
  by (simp_all add: record_attributes_def scope_envelope_def envelope_def record_scope_def Let_def)

lemma load_record_row:
  assumes "idempotency_item_key table (ir_key r) = Inr k" "readable_record r" "list_all readable_ref (ir_refs r)"
    "sd_get d k True m = Some (record_attributes (key_partition k) (key_sort k) r (encode_entity_refs (ir_refs r)))"
  shows "load_idempotency d table (ir_key r) m = Inr (Some r)"
proof -
  have post: "idempotency_record_post_init r = Inr ()" using assms(2) by (simp add: readable_record_def Let_def)
  from decode_encode_idempotency [OF encode_idempotency_value [OF assms(1) post] assms(2,3)] assms(1)
  have "decode_idempotency (record_attributes (key_partition k) (key_sort k) r (encode_entity_refs (ir_refs r))) =
      Inr (record_scope (key_partition k) (key_sort k) r, r)" by auto
  with assms(1,4) show ?thesis
    by (simp add: load_idempotency_def validate_scope_def require_same_def record_scope_def checks.simps Let_def)
qed

context conditional_store
begin

lemma begin_started:
  assumes ready: "\<And>operation. stage_create_record table (new_record key request IS_IN_PROGRESS [] None now) = Inr operation \<Longrightarrow> ready operation m"
    and run: "begin_idempotency d others table key request now m = (Inr (Idempotency_started r), m')"
  obtains k where "idempotency_item_key table key = Inr k" "r = new_record key request IS_IN_PROGRESS [] None now"
    "idempotency_record_post_init r = Inr ()" "row m k = None"
    "row m' k = Some (record_attributes (key_partition k) (key_sort k) r (encode_entity_refs (ir_refs r)))"
proof -
  let ?r = "new_record key request IS_IN_PROGRESS [] None now"
  from run obtain operation where op: "stage_create_record table ?r = Inr operation"
    by (cases "stage_create_record table ?r") (auto simp: begin_idempotency_def Let_def)
  from stage_create_record_value [OF op] obtain k where k: "idempotency_item_key table (ir_key ?r) = Inr k"
    "idempotency_record_post_init ?r = Inr ()"
    "operation = Put_item k (record_attributes (key_partition k) (key_sort k) ?r (encode_entity_refs (ir_refs ?r))) Key_absent"
    by (auto simp: create_operation_def)
  have "addressed operation" by (simp add: k(3) addressed_def record_attribute_address)
  from ready [OF op] this show thesis
  proof (cases rule: write_cases)
    case (applied m1)
    with run op have "r = ?r" "m' = m1" by (simp_all add: begin_idempotency_def Let_def)
    with applied k show thesis by (intro that) (simp_all add: new_record_def)
  next
    case (conflict ref m1)
    have "classify_record x request \<noteq> Inr (Idempotency_started r)" for x
      by (cases "ir_status x") (simp_all add: classify_record_def)
    with conflict run op show thesis
      by (auto simp: begin_idempotency_def Let_def split: sum.splits option.splits)
  qed
qed

lemma begin_again:
  assumes key: "idempotency_item_key table (ir_key r) = Inr k" and r: "readable_record r" "list_all readable_ref (ir_refs r)"
    and row: "row m k = Some (record_attributes (key_partition k) (key_sort k) r (encode_entity_refs (ir_refs r)))"
    and others: "\<And>m'. row (others m') k = row m' k"
    and stage: "stage_create_record table (new_record (ir_key r) request IS_IN_PROGRESS [] None now) = Inr operation"
    and ready: "ready operation m"
  shows "fst (begin_idempotency d others table (ir_key r) request now m) = classify_record r request"
proof -
  let ?r = "new_record (ir_key r) request IS_IN_PROGRESS [] None now"
  from stage_create_record_value [OF stage] obtain k' where k': "idempotency_item_key table (ir_key ?r) = Inr k'"
    "operation = create_operation k' (record_attributes (key_partition k') (key_sort k') ?r (encode_entity_refs (ir_refs ?r)))"
    by metis
  from k'(1) key have "k' = k" by (simp add: new_record_def)
  with k'(2) obtain i where i: "operation = Put_item k i Key_absent" "addressed operation"
    by (simp add: create_operation_def addressed_def record_attribute_address)
  from ready i(2) show ?thesis
  proof (cases rule: write_cases)
    case (applied m1)
    with row i(1) show ?thesis by simp
  next
    case (conflict ref m1)
    have "row (others m1) k = Some (record_attributes (key_partition k) (key_sort k) r (encode_entity_refs (ir_refs r)))"
      using row by (simp add: others conflict(3))
    from load_record_row [OF key r this] conflict(1) stage show ?thesis
      by (simp add: begin_idempotency_def Let_def)
  qed
qed

end

section \<open>The repository's own proofs\<close>

text \<open>
  What \<open>plan_ok\<close> asks of the write at the key of a proof, the repository's staged records do: the record
  it creates proves the commit proof of its key, and the record it completes proves the completion proof
  of the reservation it completes.
\<close>

lemma record_proves:
  assumes "idempotency_item_key table (ir_key r) = Inr k" "readable_record r" "list_all readable_ref (ir_refs r)"
    "cp_request_hash p = ir_request_hash r" "opt_test (\<lambda>v. ir_version r < v) (cp_completed_version p) = False"
  shows "proves p (record_attributes (key_partition k) (key_sort k) r (encode_entity_refs (ir_refs r)))"
proof -
  have post: "idempotency_record_post_init r = Inr ()" using assms(2) by (simp add: readable_record_def Let_def)
  from decode_encode_idempotency [OF encode_idempotency_value [OF assms(1) post] assms(2,3)] assms(1)
  have "decode_idempotency (record_attributes (key_partition k) (key_sort k) r (encode_entity_refs (ir_refs r))) =
      Inr (record_scope (key_partition k) (key_sort k) r, r)" by auto
  with assms(4,5) show ?thesis by (simp add: proves_def)
qed

lemma staged_record_proves:
  assumes "stage_create_record table r = Inr operation" "record_commit_proof table (ir_key r) (ir_request_hash r) = Inr p"
    "readable_record r" "list_all readable_ref (ir_refs r)"
  shows "\<exists>i. operation = Put_item (cp_key p) i (proof_condition p) \<and> proves p i"
proof -
  from stage_create_record_value [OF assms(1)] obtain k where k: "idempotency_item_key table (ir_key r) = Inr k"
    "operation = create_operation k (record_attributes (key_partition k) (key_sort k) r (encode_entity_refs (ir_refs r)))" by metis
  from assms(2) k(1) have p: "cp_key p = k" "cp_request_hash p = ir_request_hash r" "cp_completed_version p = None"
    by (auto simp: record_commit_proof_def result_simps)
  with record_proves [OF k(1) assms(3,4)] show ?thesis by (simp add: k(2) create_operation_def proof_condition_def)
qed

lemma staged_completion_proves:
  assumes stage: "stage_complete table r refs response now = Inr operation"
    and completes: "record_completion_proof table r = Inr p"
    and readable: "readable_record r" "readable_time now" "list_all readable_ref refs"
  shows "\<exists>i. operation = Put_item (cp_key p) i (proof_condition p) \<and> proves p i"
proof -
  let ?r = "r\<lparr>ir_status := IS_COMPLETED, ir_refs := refs, ir_response_status := Some response, ir_updated_at := now,
     ir_version := ir_version r + 1\<rparr>"
  from stage obtain k i where post: "idempotency_record_post_init ?r = Inr ()" and k: "idempotency_item_key table (ir_key r) = Inr k"
    and i: "encode_idempotency table ?r = Inr i" and op: "operation = Put_item k i (Attribute_equals_number ''version'' (ir_version r))"
    by (auto simp: stage_complete_def stage_transition_def replace_operation_def result_simps split: if_splits)
  from completes k have p: "cp_key p = k" "cp_request_hash p = ir_request_hash r" "cp_completed_version p = Some (ir_version r + 1)"
    by (auto simp: record_completion_proof_def result_simps split: if_splits)
  have "readable_record ?r" using readable(1,2) post by (simp add: readable_record_def Let_def)
  moreover have key: "idempotency_item_key table (ir_key ?r) = Inr k" using k by simp
  ultimately have "proves p (record_attributes (key_partition k) (key_sort k) ?r (encode_entity_refs (ir_refs ?r)))"
    by (intro record_proves) (simp_all add: p readable(3))
  with encode_idempotency_value [OF key post] i op show ?thesis by (simp add: p proof_condition_def)
qed

end
