(* ===== verification/Storage_Example.thy ===== *)
theory Storage_Example
  imports Repository_Laws
begin

text \<open>
  A small store for the witnesses of the storage properties: a driver context outside the demo
  namespace, an idempotency key and its records, a send fence, and a plan that creates a record.
\<close>

definition sx_driver :: driver_context where
  "sx_driver = \<lparr>dc_sha = (\<lambda>_. replicate 64 CHR ''0''), dc_stale_eventual_reads = False, dc_reset_authority = None,
     dc_reset_identity = None\<rparr>"

definition sx_empty :: memory where
  "sx_empty = \<lparr>mem_current = [], mem_previous = [], mem_tokens = []\<rparr>"

definition sx_partition :: idempotency_partition where
  "sx_partition = \<lparr>ip_kind = PK_CASE, ip_namespace = Namespace ''LIVE'', ip_community_id = None, ip_case_id = Some (Ident 3),
     ip_action_id = None\<rparr>"

definition sx_key :: idempotency_key where
  "sx_key = \<lparr>ik_partition = sx_partition, ik_command = IC_DECIDE_MANDATE, ik_actor_id_hash = EMPTY_DIGEST, ik_key_hash = EMPTY_DIGEST\<rparr>"

definition sx_now :: datetime where "sx_now = utc 0"

definition sx_record :: idempotency_record where
  "sx_record = new_record sx_key EMPTY_DIGEST IS_COMPLETED [] (Some 200) sx_now"

definition sx_item_key :: item_key where
  "sx_item_key = projr (idempotency_item_key TN_CORE sx_key)"

definition sx_item :: stored_item where
  "sx_item = record_attributes (key_partition sx_item_key) (key_sort sx_item_key) sx_record (encode_entity_refs [])"

definition sx_proof :: commit_proof where
  "sx_proof = \<lparr>cp_key = sx_item_key, cp_request_hash = EMPTY_DIGEST, cp_completed_version = None\<rparr>"

definition sx_plan :: transaction_plan where
  "sx_plan = \<lparr>tp_name = ''DECIDE'', tp_operations = [Put_item sx_item_key sx_item Key_absent], tp_audit_required = False,
     tp_commit_proof = Some sx_proof\<rparr>"

definition sx_token :: string where
  "sx_token = projr (client_request_token (dc_sha sx_driver) sx_plan)"

lemma sx_digest: "digest_post_init EMPTY_DIGEST = Inr ()"
  by code_simp

lemma sx_namespace: "namespace_post_init (Namespace ''LIVE'') = Inr ()"
  by code_simp

lemma sx_time: "readable_time sx_now"
  by (rule readable_timeI) (simp_all add: sx_now_def representable_def year_of_def, code_simp+)

lemma sx_key_ok: "key_ok sx_key"
  using sx_digest sx_namespace
  by (simp add: key_ok_def sx_key_def sx_partition_def idempotency_partition_post_init_def checks.simps readable_identI)

lemma char_127: "char_of (127 :: nat) = CHR 0x7F"
  by code_simp

lemma sx_digest_segment: "key_segment (digest_value EMPTY_DIGEST) = Inr (digest_value EMPTY_DIGEST)"
  by (simp add: key_segment_Inr_iff EMPTY_DIGEST_def MAX_KEY_SEGMENT_LENGTH_def less_eq_char_def char_127)

lemma segment_literals: "key_segment ''NS'' = Inr ''NS''" "key_segment ''LIVE'' = Inr ''LIVE''" "key_segment ''CASE'' = Inr ''CASE''"
  "key_segment ''FENCE'' = Inr ''FENCE''" "key_segment ''IDEMPOTENCY'' = Inr ''IDEMPOTENCY''"
  "key_segment ''DECIDE_MANDATE'' = Inr ''DECIDE_MANDATE''"
  by code_simp+

lemma sx_keys: "idempotency_item_key TN_CORE sx_key = Inr sx_item_key"
proof -
  have "returns (idempotency_item_key TN_CORE sx_key)"
    by (simp add: idempotency_item_key_def idempotency_partition_key_def sx_key_def sx_partition_def case_partition_def
        idempotency_sort_key_def key_join_def segment_literals sx_digest_segment ident_str_def)
  then show ?thesis unfolding sx_item_key_def by (rule returns_projr)
qed

lemma sx_table: "key_table sx_item_key = TN_CORE"
  using sx_keys by (auto simp: idempotency_item_key_def result_simps dest: arg_cong [where f = key_table])

lemma sx_record_post: "idempotency_record_post_init sx_record = Inr ()"
  by (simp add: idempotency_record_post_init_def sx_record_def new_record_def sx_now_def sx_key_def utc_check_def checks.simps
      idempotency_expiry_def retention_seconds_def ORDINARY_IDEMPOTENCY_TTL_SECONDS_def)

lemma sx_readable: "readable_record sx_record"
  using sx_key_ok sx_digest sx_time sx_record_post
  by (simp add: readable_record_def key_ok_def sx_record_def new_record_def Let_def)

lemma sx_item_hash: "map_of sx_item ''request_hash'' = Some (SStr (digest_value EMPTY_DIGEST))"
  by (simp add: sx_item_def record_attributes_def scope_envelope_def envelope_def sx_record_def new_record_def)

lemma sx_proves: "proves sx_proof sx_item"
proof -
  have enc: "encode_idempotency TN_CORE sx_record = Inr sx_item"
    using encode_idempotency_value [of TN_CORE sx_record sx_item_key] sx_keys sx_record_post
    by (simp add: sx_item_def sx_record_def new_record_def)
  have refs: "list_all readable_ref (ir_refs sx_record)" by (simp add: sx_record_def new_record_def)
  obtain k where "idempotency_item_key TN_CORE (ir_key sx_record) = Inr k"
    "decode_idempotency sx_item = Inr (record_scope (key_partition k) (key_sort k) sx_record, sx_record)"
    by (rule decode_encode_idempotency [OF enc sx_readable refs])
  moreover have "ir_request_hash sx_record = EMPTY_DIGEST" by (simp add: sx_record_def new_record_def)
  ultimately show ?thesis unfolding proves_def sx_proof_def by simp
qed

lemma sx_token_value: "transaction_plan_post_init (dc_sha sx_driver) sx_plan = Inr sx_token"
proof -
  have token: "returns (client_request_token (dc_sha sx_driver) sx_plan)"
    by (simp add: client_request_token_def plan_material_def absorb_operation_def sx_plan_def)
  have "validate_commit_proof sx_plan = Inr ()"
    using sx_item_hash
    by (simp add: validate_commit_proof_def sx_plan_def sx_proof_def proof_writes_def binds_hash_def map_filter_simps checks.simps)
  then have "transaction_plan_post_init (dc_sha sx_driver) sx_plan = client_request_token (dc_sha sx_driver) sx_plan"
    using sx_table
    by (simp add: transaction_plan_post_init_def checks.simps sx_plan_def audit_writes_def TRANSACTION_MAX_OPERATIONS_def)
  with token show ?thesis unfolding sx_token_def using returns_projr by metis
qed

lemma sx_plan_ok: "plan_ok sx_driver sx_plan sx_token sx_proof"
  using sx_token_value sx_proves
  by (simp add: plan_ok_def sx_plan_def sx_proof_def commit_proof_post_init_def checks.simps)

section \<open>Runs\<close>

lemma sx_item_partition: "key_partition sx_item_key = ''NS#LIVE#CASE#'' @ uuid_text 3"
proof -
  obtain sk where "sx_item_key = \<lparr>key_table = TN_CORE, key_partition = ''NS#LIVE#CASE#'' @ uuid_text 3, key_sort = sk\<rparr>"
    using sx_keys
    by (auto simp: idempotency_item_key_def idempotency_partition_key_def sx_key_def sx_partition_def case_partition_def
        key_join_def segment_literals ident_str_def result_simps dest!: sym [where t = sx_item_key])
  from arg_cong [OF this, of key_partition] show ?thesis by simp
qed

lemma sx_unfenced:
  assumes "key_partition (op_key operation) = ''NS#LIVE'' @ rest"
  shows "fence_operations (dc_sha sx_driver) (dc_reset_authority sx_driver) [operation] = Inr [operation]"
  using assms by (simp add: fence_operations_def sx_driver_def is_normal_demo_write_def starts_with_def Let_def)

lemma sx_lands: "lands sx_driver 0 sx_plan sx_token sx_empty"
proof -
  have fence: "fence_operations (dc_sha sx_driver) (dc_reset_authority sx_driver) (tp_operations sx_plan) = Inr (tp_operations sx_plan)"
    using sx_unfenced [of "Put_item sx_item_key sx_item Key_absent" "''#CASE#'' @ uuid_text 3"]
    by (simp add: sx_plan_def sx_item_partition)
  have "addressed (Put_item sx_item_key sx_item Key_absent)"
    by (simp add: addressed_def sx_item_def record_attribute_address)
  with fence show ?thesis
    by (simp add: lands_def transact_write_def Let_def sx_plan_def TRANSACTION_MAX_OPERATIONS_def sx_empty_def operation_check_def checks.simps)
qed

text \<open>A network that applies every request and loses every answer.\<close>

definition sx_network :: network where
  "sx_network = \<lparr>net_write = (\<lambda>_. Lost_answer), net_read = (\<lambda>_. True), net_now = (\<lambda>_. 0), net_meanwhile = (\<lambda>_ m. m), net_late = False\<rparr>"

lemma sx_env: "env_keeps sx_driver sx_network sx_token sx_proof"
  by (simp add: env_keeps_def sx_network_def)

lemma sx_log: "log_ok sx_driver sx_token sx_proof sx_empty"
  by (simp add: log_ok_def token_logged_def sx_empty_def)

end
