(* ===== verification/Storage_Properties.thy ===== *)
theory Storage_Properties
  imports Storage_Example
begin

text \<open>
  The properties of the storage boundary: transactions, the reset lock, keys, instants and stored forms,
  request tokens, the unit of work and the repositories.
\<close>

section \<open>Transactions\<close>

text \<open>
  C17. A transaction takes effect as a whole or not at all. When it raises, no row has changed. When it
  returns under a token that is still live, the recorded request was the same and no row changes. When it
  returns otherwise, every operation of the request, with the participants added to it, addressed its own
  item and met its condition on the store before, and the store after is the store before with exactly
  these operations written.
\<close>

theorem transact_all_or_nothing:
  assumes "transact_write dc now ops token m = (r, m')"
  shows "(\<forall>e. r = Inl e \<longrightarrow> stored m' = stored m) \<and>
    (r = Inr () \<longrightarrow> (\<exists>full. fence_operations (dc_sha dc) (dc_reset_authority dc) ops = Inr full \<and> set ops \<subseteq> set full \<and>
       (case map_of (filter (live_token now) (mem_tokens m)) (transaction_token (dc_sha dc) (dc_reset_identity dc) token) of
          Some (_, old) \<Rightarrow> map compared_operation old = map compared_operation full \<and> stored m' = stored m
        | None \<Rightarrow> distinct (map op_key full) \<and>
            (\<forall>operation\<in>set full. addressed operation \<and> evaluate (op_condition operation) (stored m (op_key operation))) \<and>
            stored m' = all_written full (stored m)))) \<and>
    (memory_ok m \<longrightarrow> memory_ok m')"
proof (intro conjI impI)
  show "memory_ok m'" if "memory_ok m" using memory_ok_transact [OF that assms] .
  from assms show "\<forall>e. r = Inl e \<longrightarrow> stored m' = stored m" by (cases rule: transact_write_cases) simp_all
  assume "r = Inr ()"
  with assms show "\<exists>full. fence_operations (dc_sha dc) (dc_reset_authority dc) ops = Inr full \<and> set ops \<subseteq> set full \<and>
       (case map_of (filter (live_token now) (mem_tokens m)) (transaction_token (dc_sha dc) (dc_reset_identity dc) token) of
          Some (_, old) \<Rightarrow> map compared_operation old = map compared_operation full \<and> stored m' = stored m
        | None \<Rightarrow> distinct (map op_key full) \<and>
            (\<forall>operation\<in>set full. addressed operation \<and> evaluate (op_condition operation) (stored m (op_key operation))) \<and>
            stored m' = all_written full (stored m))"
    using fence_operations_superset
    by (cases rule: transact_write_cases) (auto split: prod.splits)
qed

definition sx_small :: write_operation where
  "sx_small = Put_item \<lparr>key_table = TN_CORE, key_partition = ''A'', key_sort = ''B''\<rparr> [(''PK'', SStr ''A''), (''SK'', SStr ''B'')] Key_absent"

lemma sx_small_run: "fst (transact_write sx_driver 0 [sx_small] ''T'' sx_empty) = Inr ()"
  by code_simp

theorem transact_all_or_nothing_witness:
  "stored (snd (transact_write sx_driver 0 [sx_small] ''T'' sx_empty)) \<lparr>key_table = TN_CORE, key_partition = ''A'', key_sort = ''B''\<rparr> =
     Some [(''PK'', SStr ''A''), (''SK'', SStr ''B'')]"
proof -
  have run: "transact_write sx_driver 0 [sx_small] ''T'' sx_empty = (Inr (), snd (transact_write sx_driver 0 [sx_small] ''T'' sx_empty))"
    using sx_small_run by (simp add: prod_eq_iff)
  have fence: "fence_operations (dc_sha sx_driver) (dc_reset_authority sx_driver) [sx_small] = Inr [sx_small]" by code_simp
  have "stored (snd (transact_write sx_driver 0 [sx_small] ''T'' sx_empty)) = all_written [sx_small] (stored sx_empty)"
    using transact_all_or_nothing [OF run] fence by (auto simp: sx_empty_def)
  then show ?thesis by (simp add: all_written_def sx_small_def)
qed

text \<open>
  C18. While the reset lock row exists, no write of a caller without the reset authority that touches an
  ordinary row of the demo namespace changes the store, neither as a transaction nor as a single write.
\<close>

theorem reset_lock_blocks_demo_writes:
  assumes "dc_reset_authority dc = None" "stored m LOCK_KEY \<noteq> None"
  shows "(list_ex is_normal_demo_write ops \<longrightarrow> stored (snd (transact_write dc now ops token m)) = stored m) \<and>
    (is_normal_demo_write operation \<longrightarrow> stored (snd (write_item dc now fresh operation m)) = stored m)"
proof (intro conjI impI)
  assume "list_ex is_normal_demo_write ops"
  from transact_write_locked [OF _ assms(1) this assms(2)] show "stored (snd (transact_write dc now ops token m)) = stored m"
    by (metis surj_pair snd_conv)
next
  assume "is_normal_demo_write operation"
  from write_item_locked [OF _ assms(1) this assms(2)] show "stored (snd (write_item dc now fresh operation m)) = stored m"
    by (metis surj_pair snd_conv)
qed

definition sx_locked :: memory where
  "sx_locked = \<lparr>mem_current = [(LOCK_KEY, [(''PK'', SStr ''NS#DEMO''), (''SK'', SStr ''DEMO_RESET_LOCK'')])], mem_previous = [], mem_tokens = []\<rparr>"

definition sx_demo_put :: write_operation where
  "sx_demo_put = Put_item \<lparr>key_table = TN_CORE, key_partition = ''NS#DEMO#CASE#1'', key_sort = ''FACT#1''\<rparr>
     [(''PK'', SStr ''NS#DEMO#CASE#1''), (''SK'', SStr ''FACT#1'')] Key_absent"

theorem reset_lock_blocks_demo_writes_witness:
  "is_normal_demo_write sx_demo_put \<and> stored sx_locked LOCK_KEY \<noteq> None \<and>
   stored (snd (write_item sx_driver 0 ''F'' sx_demo_put sx_locked)) = stored sx_locked"
proof -
  have lock: "stored sx_locked LOCK_KEY \<noteq> None" by (simp add: sx_locked_def)
  have normal: "is_normal_demo_write sx_demo_put" by code_simp
  have "dc_reset_authority sx_driver = None" by (simp add: sx_driver_def)
  from reset_lock_blocks_demo_writes [OF this lock, of "[]" 0 "[]" sx_demo_put "''F''"] normal lock show ?thesis by simp
qed

text \<open>
  C34. The sort keys a reset deletes by are all of them: for a partition of the demo namespace, paging a
  well-formed store lists the sort keys of its rows, in order and without repetition, and raises exactly
  when the pages allowed cannot hold the partition.
\<close>

theorem reset_enumerates_partition:
  assumes "memory_ok m" "0 < page_size" "root = ''NS#DEMO'' \<or> starts_with root ''NS#DEMO#''"
  shows "partition_item_sort_keys dc page_size table root m =
    (if card (partition_keys table root m) < page_size * MAX_PARTITION_DELETE_PAGES
     then Inr (sorted_list_of_set (partition_keys table root m))
     else Inl (IntegrityError (''DEMO_RESET_PARTITION_TOO_LARGE:'' @ root)))"
  using assms by (rule partition_item_sort_keys_result)

lemma sx_locked_ok: "memory_ok sx_locked"
  by (simp add: memory_ok_def sx_locked_def carries_address_def LOCK_KEY_def)

theorem reset_enumerates_partition_witness:
  "partition_item_sort_keys sx_driver 2 TN_CORE ''NS#DEMO'' sx_locked = Inr [''DEMO_RESET_LOCK'']"
proof -
  have "partition_keys TN_CORE ''NS#DEMO'' sx_locked = {''DEMO_RESET_LOCK''}"
    by (auto simp: partition_keys_def sx_locked_def LOCK_KEY_def split: if_splits)
  then show ?thesis using reset_enumerates_partition [OF sx_locked_ok, of 2 "''NS#DEMO''" sx_driver TN_CORE]
    by (simp add: MAX_PARTITION_DELETE_PAGES_def)
qed

section \<open>Stored forms\<close>

text \<open>
  C38. The canonical text of an instant reads back: for a UTC instant a Python \<open>datetime\<close> can hold,
  \<open>parse_utc\<close> returns the instant \<open>format_utc\<close> wrote, and every string that \<open>parse_utc\<close> accepts is the one
  \<open>format_utc\<close> writes for its result.
\<close>

theorem instant_text_roundtrip:
  "(is_utc t \<and> representable (instant t) \<longrightarrow> bindE (format_utc t) parse_utc = Inr t) \<and>
   (parse_utc s = Inr u \<longrightarrow> is_utc u \<and> format_utc u = Inr s)"
proof (intro conjI impI; (elim conjE)?)
  assume t: "is_utc t" "representable (instant t)"
  then have "utc (instant t) = t" using is_utc_iff [of t] by simp
  with t parse_utc_text [OF t(2)] show "bindE (format_utc t) parse_utc = Inr t" by (simp add: format_utc_text)
next
  assume s: "parse_utc s = Inr u"
  then show "is_utc u" by (auto simp: parse_utc_def Let_def split: if_splits option.splits)
  from parse_utc_canonical [OF s] show "format_utc u = Inr s" .
qed

theorem instant_text_roundtrip_witness: "bindE (format_utc (utc 0)) parse_utc = Inr (utc 0)"
proof -
  have "representable 0" using sx_time by (simp add: representable_def year_of_def, code_simp)
  then show ?thesis using instant_text_roundtrip [of "utc 0" "[]" "utc 0"] by simp
qed

text \<open>
  C31. The reader of a send fence is exact: an item decodes to a fence precisely when its attributes are
  the attributes the encoder gives that fence at the item's own address, none missing, none altered and
  none more, and the fence passes its constructor; so what the encoder writes reads back.
\<close>

theorem fence_codec_exact:
  "(decode_send_fence item = Inr (scope, f) \<longleftrightarrow>
      holds item (fence_attributes (ds_partition_key scope) (ds_sort_key scope) f) \<and>
      set (map fst item) \<subseteq> set (map fst (fence_attributes (ds_partition_key scope) (ds_sort_key scope) f)) \<and>
      readable_fence f \<and> scope = fence_scope (ds_partition_key scope) (ds_sort_key scope) f) \<and>
   (send_fence_key cs = Inr k \<and> readable_fence g \<longrightarrow>
      bindE (encode_send_fence cs g) decode_send_fence = Inr (fence_scope (key_partition k) (key_sort k) g, g))"
proof (intro conjI impI)
  show "decode_send_fence item = Inr (scope, f) \<longleftrightarrow>
      holds item (fence_attributes (ds_partition_key scope) (ds_sort_key scope) f) \<and>
      set (map fst item) \<subseteq> set (map fst (fence_attributes (ds_partition_key scope) (ds_sort_key scope) f)) \<and>
      readable_fence f \<and> scope = fence_scope (ds_partition_key scope) (ds_sort_key scope) f"
    unfolding decode_send_fence_iff exactly_def by blast
  assume g: "send_fence_key cs = Inr k \<and> readable_fence g"
  then have "encode_send_fence cs g = Inr (fence_attributes (key_partition k) (key_sort k) g)"
    by (intro encode_send_fence_value) (simp_all add: readable_fence_def)
  moreover have "decode_send_fence (fence_attributes (key_partition k) (key_sort k) g) =
      Inr (fence_scope (key_partition k) (key_sort k) g, g)"
    unfolding decode_send_fence_iff using g exactly_self [OF distinct_fence_attributes] by (simp add: fence_scope_def)
  ultimately show "bindE (encode_send_fence cs g) decode_send_fence = Inr (fence_scope (key_partition k) (key_sort k) g, g)"
    by simp
qed

definition sx_scope :: case_scope where
  "sx_scope = \<lparr>cs_namespace = Namespace ''LIVE'', cs_community_id = Ident 2, cs_case_id = Ident 3\<rparr>"

definition sx_fence :: send_fence where
  "sx_fence = \<lparr>fence_namespace = Namespace ''LIVE'', fence_community_id = Ident 2, fence_case_id = Ident 3,
     fence_execution_id = Ident 4, fence_action_id = Ident 5, fence_approval_id = Ident 6, fence_view_id = Ident 7,
     fence_snapshot_hash = EMPTY_DIGEST, fence_acquired_at = utc 0, fence_expires_at = utc 60000000\<rparr>"

definition sx_fence_key :: item_key where
  "sx_fence_key = \<lparr>key_table = TN_CORE, key_partition = ''NS#LIVE#FENCE#'' @ uuid_text 3, key_sort = ''SEND_FENCE''\<rparr>"

lemma sx_fence_keys: "send_fence_key sx_scope = Inr sx_fence_key"
  by (simp add: send_fence_key_def sx_scope_def fence_partition_def key_join_def segment_literals ident_str_def sx_fence_key_def
      send_fence_sort_key_def)

lemma sx_fence_ok: "fence_of sx_scope sx_fence"
proof -
  have "readable_time (utc 0)" "readable_time (utc 60000000)"
    using sx_time by (simp add: sx_now_def) (rule readable_timeI; simp add: representable_def year_of_def; code_simp)
  then show ?thesis using sx_namespace sx_digest
    by (simp add: fence_of_def readable_fence_def sx_fence_def sx_scope_def send_fence_post_init_def utc_check_def checks.simps
        readable_identI)
qed

theorem fence_codec_exact_witness:
  "bindE (encode_send_fence sx_scope sx_fence) decode_send_fence =
     Inr (fence_scope (key_partition sx_fence_key) (key_sort sx_fence_key) sx_fence, sx_fence)"
proof -
  have "readable_fence sx_fence" using sx_fence_ok by (simp add: fence_of_def)
  with fence_codec_exact [of "[]" undefined undefined sx_scope sx_fence_key sx_fence] sx_fence_keys show ?thesis by blast
qed

text \<open>
  C32. An idempotency record the encoder writes reads back as itself, with the scope and the address it was
  written under, references included.
\<close>

theorem idempotency_record_roundtrip:
  assumes "idempotency_item_key table (ir_key r) = Inr k" "readable_record r" "list_all readable_ref (ir_refs r)"
  shows "bindE (encode_idempotency table r) decode_idempotency = Inr (record_scope (key_partition k) (key_sort k) r, r)"
proof -
  have post: "idempotency_record_post_init r = Inr ()" using assms(2) by (simp add: readable_record_def Let_def)
  note enc = encode_idempotency_value [OF assms(1) post]
  obtain k' where "idempotency_item_key table (ir_key r) = Inr k'"
    "decode_idempotency (record_attributes (key_partition k) (key_sort k) r (encode_entity_refs (ir_refs r))) =
       Inr (record_scope (key_partition k') (key_sort k') r, r)"
    by (rule decode_encode_idempotency [OF enc assms(2,3)])
  with assms(1) enc show ?thesis by simp
qed

theorem idempotency_record_roundtrip_witness:
  "bindE (encode_idempotency TN_CORE sx_record) decode_idempotency =
     Inr (record_scope (key_partition sx_item_key) (key_sort sx_item_key) sx_record, sx_record)"
proof -
  have "idempotency_item_key TN_CORE (ir_key sx_record) = Inr sx_item_key" "list_all readable_ref (ir_refs sx_record)"
    using sx_keys by (simp_all add: sx_record_def new_record_def)
  from idempotency_record_roundtrip [OF this(1) sx_readable this(2)] show ?thesis .
qed

text \<open>
  C33. Two commands never share an idempotency row: the address of a record determines the table, the
  partition it belongs to with its namespace and identifiers, the command, the actor and the client's key.
\<close>

theorem idempotency_rows_distinct:
  assumes "idempotency_item_key table key = Inr k" "idempotency_item_key table' key' = Inr k" "key_ok key" "key_ok key'"
  shows "table = table' \<and> key = key'"
proof -
  from assms(1,2) obtain pk sk where
    p: "idempotency_partition_key (ik_partition key) = Inr pk" "idempotency_partition_key (ik_partition key') = Inr pk" and
    s: "idempotency_sort_key (command_text (ik_command key)) (ik_actor_id_hash key) (ik_key_hash key) = Inr sk"
      "idempotency_sort_key (command_text (ik_command key')) (ik_actor_id_hash key') (ik_key_hash key') = Inr sk"
    and table: "table = table'"
    by (auto simp: idempotency_item_key_def result_simps)
  from key_join_inj [OF s [unfolded idempotency_sort_key_def]] idempotency_enumerations(1)
  have command: "ik_command key = ik_command key'" "ik_actor_id_hash key = ik_actor_id_hash key'" "ik_key_hash key = ik_key_hash key'"
    by (auto simp: enumeration_def digest.expand dest!: inj_on_distinct_key [where x = "ik_command key" and y = "ik_command key'"])
  have partition: "ik_partition key = ik_partition key'"
    using idempotency_partition_key_inj [OF p] assms(3,4) by (simp add: key_ok_def Let_def)
  from command partition table show ?thesis by (auto intro: idempotency_key.equality)
qed

theorem idempotency_rows_distinct_witness:
  "idempotency_item_key TN_CORE (sx_key\<lparr>ik_command := IC_SEND_ACTION\<rparr>) \<noteq> Inr sx_item_key"
proof
  assume "idempotency_item_key TN_CORE (sx_key\<lparr>ik_command := IC_SEND_ACTION\<rparr>) = Inr sx_item_key"
  moreover have "key_ok (sx_key\<lparr>ik_command := IC_SEND_ACTION\<rparr>)" using sx_key_ok by (simp add: key_ok_def)
  ultimately show False using idempotency_rows_distinct [OF _ sx_keys _ sx_key_ok] by (auto simp: sx_key_def)
qed

section \<open>The unit of work\<close>

text \<open>
  C20. The client request token covers the whole plan: two plans whose token material is equal have the
  same name and the same operations, keys, conditions and items, in the same order; only the order in which
  a mapping lists its members may differ. So the driver, which compares requests by that same form, never
  takes one plan for a replay of another unless the hash collides.
\<close>

theorem request_token_covers_plan:
  assumes "plan_material plan = Inr material" "plan_material other = Inr material"
  shows "tp_name plan = tp_name other \<and> map canon_operation (tp_operations plan) = map canon_operation (tp_operations other)"
  using plan_material_inj [OF assms] by blast

definition sx_swapped :: transaction_plan where
  "sx_swapped = \<lparr>tp_name = ''A'', tp_operations = [Put_item \<lparr>key_table = TN_CORE, key_partition = ''P'', key_sort = ''S''\<rparr>
     [(''SK'', SStr ''S''), (''PK'', SStr ''P'')] Key_absent], tp_audit_required = False, tp_commit_proof = None\<rparr>"

theorem request_token_covers_plan_witness:
  "plan_material sx_swapped \<noteq> plan_material (sx_swapped\<lparr>tp_name := ''B''\<rparr>) \<and> returns (plan_material sx_swapped)"
proof -
  have ok: "returns (plan_material sx_swapped)" by (simp add: plan_material_def absorb_operation_def sx_swapped_def)
  then obtain m where m: "plan_material sx_swapped = Inr m" by (auto simp: returns_iff)
  have "plan_material (sx_swapped\<lparr>tp_name := ''B''\<rparr>) \<noteq> Inr m"
    using request_token_covers_plan [OF m, of "sx_swapped\<lparr>tp_name := ''B''\<rparr>"] by (auto simp: sx_swapped_def)
  with m ok show ?thesis by auto
qed

text \<open>
  C6. Committing a plan over a network that may refuse requests, lose them or lose their answers, with
  other parties acting between any two accesses as long as a proof row stays one: the plan is applied at
  most once, and an applied plan leaves its proof row, also when a first request that was lost arrives
  late. A normal return means the proof row is there. A plan the first request applied is applied when the
  run ends. Unless a lost first request arrives late, an error other than an unknown outcome means that the
  plan was not applied, and an applied plan is reported as committed when both proof reads answer; with
  such a late arrival neither needs to hold.
\<close>

theorem commit_at_most_once:
  assumes "plan_ok dc plan token p" "env_keeps dc net token p" "log_ok dc token p m"
    "commit dc net plan token m = (r, m', n)"
  shows "n \<le> 1 \<and> (n = 1 \<longrightarrow> proof_present p m') \<and> (r = Inr () \<longrightarrow> proof_present p m') \<and>
    (\<forall>e. r = Inl e \<longrightarrow> \<not> is_unknown e \<longrightarrow> \<not> late_request net \<longrightarrow> n = 0) \<and>
    (net_write net 0 \<in> {Delivered, Lost_answer} \<and> lands dc (net_now net 0) plan token (net_meanwhile net 0 m) \<longrightarrow> n = 1) \<and>
    (n = 1 \<and> net_read net 0 \<and> net_read net 1 \<and> \<not> late_request net \<longrightarrow> r = Inr ())"
proof -
  have post: "run_post dc token p (late_request net) (r, m', n)" using commit_post [OF assms(1-3)] assms(4) by simp
  have definite: "\<forall>e. r = Inl e \<longrightarrow> \<not> is_unknown e \<longrightarrow> \<not> late_request net \<longrightarrow> n = 0" using post by (simp add: run_post_def)
  have first: "net_write net 0 \<in> {Delivered, Lost_answer} \<and> lands dc (net_now net 0) plan token (net_meanwhile net 0 m) \<longrightarrow> n = 1"
    using commit_first [OF assms(1-3)] assms(4) by simp
  have "r = Inr ()" if "n = 1" "net_read net 0" "net_read net 1" "\<not> late_request net"
  proof (cases r)
    case (Inl e)
    show ?thesis
    proof (cases "is_unknown e")
      case True
      from commit_unknown [OF assms(1-3) assms(4) [unfolded Inl] True that(2,3)] that(1) show ?thesis by simp
    qed (use definite Inl that in simp)
  qed simp
  with post definite first show ?thesis by (simp add: run_post_def run_ok_def)
qed

theorem commit_at_most_once_witness:
  "fst (commit sx_driver sx_network sx_plan sx_token sx_empty) = Inr () \<and>
   snd (snd (commit sx_driver sx_network sx_plan sx_token sx_empty)) = 1"
proof -
  obtain r m' n where run: "commit sx_driver sx_network sx_plan sx_token sx_empty = (r, m', n)" by (metis surj_pair)
  have "net_write sx_network 0 \<in> {Delivered, Lost_answer}"
    "lands sx_driver (net_now sx_network 0) sx_plan sx_token (net_meanwhile sx_network 0 sx_empty)"
    "net_read sx_network 0" "net_read sx_network 1" "\<not> late_request sx_network"
    using sx_lands by (simp_all add: sx_network_def late_request_def)
  with commit_at_most_once [OF sx_plan_ok sx_env sx_log run] have "r = Inr ()" "n = 1" by blast+
  with run show ?thesis by simp
qed

section \<open>The repositories\<close>

text \<open>
  C7. On the reference driver the stored send fence does what the fence of the send authority does:
  acquiring takes the row exactly when the stored fence is expired or absent, leaves the new fence, and
  after a conflict answers as decided on the row that is there then; releasing deletes the row exactly
  when it holds the caller's execution and otherwise leaves it and reports a conflict.
\<close>

theorem fence_rows_refine:
  assumes "send_fence_key scope = Inr k" "fence_of scope f" "fence_row_is scope k fence (stored m k)"
    "\<forall>operation. fence_put scope f = Inr operation \<longrightarrow> memory_ready dc fresh operation m"
    "\<forall>m'. stored m' = stored m \<longrightarrow> fence_row_is scope k later (stored (others m') k)"
    "readable_ident execution"
    "memory_ready dc fresh (Delete_item k (Attribute_equals_string ''execution_id'' (ident_str execution))) m"
  shows "(case row_acquire_send_fence (memory_driver dc now fresh) others scope f m of (r, m') \<Rightarrow>
       (case put_fence f fence of
          Inr taken \<Rightarrow> r = Inr f \<and> fence_row_is scope k taken (stored m' k)
        | Inl _ \<Rightarrow> fence_row_is scope k later (stored m' k) \<and>
            (case fence_after_conflict f later of Inr g \<Rightarrow> r = Inr g | Inl _ \<Rightarrow> (\<exists>ref. r = Inl (PersistenceConflictError ref))))) \<and>
    (case row_release_send_fence (memory_driver dc now fresh) scope execution m of (r, m') \<Rightarrow>
       (case release_send_fence execution fence of
          Inr left \<Rightarrow> r = Inr () \<and> fence_row_is scope k left (stored m' k)
        | Inl _ \<Rightarrow> fence_row_is scope k fence (stored m' k) \<and> (\<exists>ref. r = Inl (PersistenceConflictError ref))))"
proof
  have later: "fence_row_is scope k later (sd_get (memory_driver dc now fresh) k True (others m'))"
    if "\<And>j. sd_get (memory_driver dc now fresh) j True m' = sd_get (memory_driver dc now fresh) j True m" for m'
    using assms(5) that by (simp add: fun_eq_iff)
  have row: "fence_row_is scope k fence (sd_get (memory_driver dc now fresh) k True m)" using assms(3) by simp
  have ready: "memory_ready dc fresh operation m" if "fence_put scope f = Inr operation" for operation
    using assms(4) that by blast
  show "case row_acquire_send_fence (memory_driver dc now fresh) others scope f m of (r, m') \<Rightarrow>
       (case put_fence f fence of
          Inr taken \<Rightarrow> r = Inr f \<and> fence_row_is scope k taken (stored m' k)
        | Inl _ \<Rightarrow> fence_row_is scope k later (stored m' k) \<and>
            (case fence_after_conflict f later of Inr g \<Rightarrow> r = Inr g | Inl _ \<Rightarrow> (\<exists>ref. r = Inl (PersistenceConflictError ref))))"
    by (rule mem.acquire_refines [where others = others, OF assms(1,2) row ready later]) (auto split: sum.splits)
  show "case row_release_send_fence (memory_driver dc now fresh) scope execution m of (r, m') \<Rightarrow>
       (case release_send_fence execution fence of
          Inr left \<Rightarrow> r = Inr () \<and> fence_row_is scope k left (stored m' k)
        | Inl _ \<Rightarrow> fence_row_is scope k fence (stored m' k) \<and> (\<exists>ref. r = Inl (PersistenceConflictError ref)))"
    by (rule mem.release_refines [OF assms(1,6) row assms(7)]) auto
qed

lemma sx_fence_ready:
  assumes "key_partition (op_key operation) = key_partition sx_fence_key"
  shows "memory_ready sx_driver fresh operation m"
  using sx_unfenced [of operation "''#FENCE#'' @ uuid_text 3"] assms by (simp add: memory_ready_def sx_fence_key_def)

lemma sx_fence_put: "fence_put sx_scope sx_fence = Inr operation \<Longrightarrow> op_key operation = sx_fence_key"
  by (auto simp: fence_put_def sx_fence_keys result_simps)

theorem fence_rows_refine_witness:
  "fst (row_acquire_send_fence (memory_driver sx_driver 0 ''F'') (\<lambda>m. m) sx_scope sx_fence sx_empty) = Inr sx_fence \<and>
   fence_row_is sx_scope sx_fence_key (Some sx_fence)
     (stored (snd (row_acquire_send_fence (memory_driver sx_driver 0 ''F'') (\<lambda>m. m) sx_scope sx_fence sx_empty)) sx_fence_key)"
proof -
  have empty: "fence_row_is sx_scope sx_fence_key None (stored sx_empty sx_fence_key)"
    by (simp add: fence_row_is_def sx_empty_def)
  have ready: "memory_ready sx_driver ''F'' operation sx_empty" if "op_key operation = sx_fence_key" for operation
    using sx_fence_ready that by simp
  have "put_fence sx_fence None = Inr (Some sx_fence)" by (simp add: put_fence_def expired_or_absent_def)
  moreover obtain r m' where run:
    "row_acquire_send_fence (memory_driver sx_driver 0 ''F'') (\<lambda>m. m) sx_scope sx_fence sx_empty = (r, m')" by (metis surj_pair)
  moreover have "\<forall>operation. fence_put sx_scope sx_fence = Inr operation \<longrightarrow> memory_ready sx_driver ''F'' operation sx_empty"
    using ready sx_fence_put by blast
  moreover have "\<forall>m'. stored m' = stored sx_empty \<longrightarrow> fence_row_is sx_scope sx_fence_key None (stored m' sx_fence_key)"
    using empty by simp
  ultimately show ?thesis
    using fence_rows_refine [OF sx_fence_keys sx_fence_ok empty, of sx_driver "''F''" None "\<lambda>m. m" "Ident 4" 0]
      ready [of "Delete_item sx_fence_key (Attribute_equals_string ''execution_id'' (ident_str (Ident 4 :: execution_id)))"]
    by (simp add: readable_identI)
qed

text \<open>
  C19. A command key is begun once: when \<open>begin\<close> on the reference driver returns that the caller started
  the command, no record was there before, and every later \<open>begin\<close> under the same key, at any time and by any
  caller, while the record stands, reports the command in progress for the same request and a conflict for
  another.
\<close>

theorem command_begun_once:
  assumes "key_ok key" "digest_post_init request = Inr ()" "readable_time at_first" "idempotency_item_key table key = Inr k"
    "\<forall>operation. stage_create_record table (new_record key request IS_IN_PROGRESS [] None at_first) = Inr operation \<longrightarrow>
       memory_ready dc fresh operation m"
    "begin_idempotency (memory_driver dc now fresh) others table key request at_first m = (Inr (Idempotency_started r), m1)"
    "stored m2 k = stored m1 k"
    "stage_create_record table (new_record key request' IS_IN_PROGRESS [] None at_later) = Inr operation'"
    "memory_ready dc' fresh' operation' m2"
  shows "stored m k = None \<and>
    fst (begin_idempotency (memory_driver dc' now' fresh') (\<lambda>m. m) table key request' at_later m2) =
      (if request' = request then Inr (Idempotency_in_progress r) else Inl (IdempotencyConflictError ''IDEMPOTENCY_RECORD''))"
proof -
  have ready: "memory_ready dc fresh operation m"
    if "stage_create_record table (new_record key request IS_IN_PROGRESS [] None at_first) = Inr operation" for operation
    using assms(5) that by blast
  obtain k' where k': "idempotency_item_key table key = Inr k'" and r: "r = new_record key request IS_IN_PROGRESS [] None at_first"
    and post: "idempotency_record_post_init r = Inr ()" and before: "stored m k' = None"
    and after: "stored m1 k' = Some (record_attributes (key_partition k') (key_sort k') r (encode_entity_refs (ir_refs r)))"
    by (rule mem.begin_started [OF ready assms(6)]) simp_all
  from k' assms(4) have kk: "k' = k" by simp
  have fields: "ir_key r = key" "ir_refs r = []" "ir_request_hash r = request" "ir_status r = IS_IN_PROGRESS"
    by (simp_all add: r new_record_def)
  have readable: "readable_record r" using new_record_readable [OF assms(1-3)] post r by simp
  have "fst (begin_idempotency (memory_driver dc' now' fresh') (\<lambda>m. m) table (ir_key r) request' at_later m2) = classify_record r request'"
    by (rule mem.begin_again [where k = k and operation = operation'])
      (use assms(4,7-9) readable after kk fields in simp_all)
  with before kk fields show ?thesis by (auto simp: classify_record_def)
qed

definition sx_progress :: idempotency_record where
  "sx_progress = new_record sx_key EMPTY_DIGEST IS_IN_PROGRESS [] None sx_now"

definition sx_create :: write_operation where
  "sx_create = create_operation sx_item_key
     (record_attributes (key_partition sx_item_key) (key_sort sx_item_key) sx_progress (encode_entity_refs []))"

lemma sx_stage: "stage_create_record TN_CORE sx_progress = Inr sx_create"
proof -
  have post: "idempotency_record_post_init sx_progress = Inr ()"
    by (simp add: idempotency_record_post_init_def sx_progress_def new_record_def sx_now_def sx_key_def utc_check_def checks.simps
        idempotency_expiry_def retention_seconds_def ORDINARY_IDEMPOTENCY_TTL_SECONDS_def)
  have "ir_key sx_progress = sx_key" "ir_refs sx_progress = []" by (simp_all add: sx_progress_def new_record_def)
  with post sx_keys encode_idempotency_value [OF _ post, of TN_CORE sx_item_key] show ?thesis
    by (simp add: stage_create_record_def validated_def sx_create_def)
qed

lemma sx_create_ready: "memory_ready sx_driver fresh sx_create m"
  using sx_unfenced [of sx_create "''#CASE#'' @ uuid_text 3"]
  by (simp add: memory_ready_def sx_create_def create_operation_def sx_item_partition)

lemma sx_begin:
  "begin_idempotency (memory_driver sx_driver 0 ''F'') (\<lambda>m. m) TN_CORE sx_key EMPTY_DIGEST sx_now sx_empty =
     (Inr (Idempotency_started sx_progress), apply_operation sx_create sx_empty)"
proof -
  have "fence_operations (dc_sha sx_driver) (dc_reset_authority sx_driver) [sx_create] = Inr [sx_create]"
    using sx_unfenced [of sx_create "''#CASE#'' @ uuid_text 3"] by (simp add: sx_create_def create_operation_def sx_item_partition)
  moreover have "addressed sx_create" by (simp add: addressed_def sx_create_def create_operation_def record_attribute_address)
  moreover have "evaluate (op_condition sx_create) (stored sx_empty (op_key sx_create))"
    by (simp add: sx_create_def create_operation_def sx_empty_def)
  ultimately have "write_item sx_driver 0 ''F'' sx_create sx_empty = (Inr (), apply_operation sx_create sx_empty)"
    by (simp add: write_item_def)
  then show ?thesis using sx_stage by (simp add: begin_idempotency_def Let_def sx_progress_def)
qed

theorem command_begun_once_witness:
  "fst (begin_idempotency (memory_driver sx_driver 1 ''G'') (\<lambda>m. m) TN_CORE sx_key EMPTY_DIGEST sx_now (apply_operation sx_create sx_empty)) =
     Inr (Idempotency_in_progress sx_progress)"
proof -
  have stage: "stage_create_record TN_CORE (new_record sx_key EMPTY_DIGEST IS_IN_PROGRESS [] None sx_now) = Inr sx_create"
    using sx_stage by (simp add: sx_progress_def)
  then have "\<forall>operation. stage_create_record TN_CORE (new_record sx_key EMPTY_DIGEST IS_IN_PROGRESS [] None sx_now) = Inr operation \<longrightarrow>
      memory_ready sx_driver ''F'' operation sx_empty" using sx_create_ready by simp
  from command_begun_once [OF sx_key_ok sx_digest sx_time sx_keys this sx_begin refl stage sx_create_ready]
  show ?thesis by simp
qed

end
