(* ===== verification/Spec2Isabelle.thy ===== *)
theory Spec2Isabelle
  imports Case_Properties Evidence_Properties Mandate_Properties Export_Properties
    Send_Properties Status_Properties Storage_Properties
begin

text \<open>
  Chorus: a formal model of the decision logic of the repository, in the Python package
  \<open>src/src/chorus\<close>.

  \<^bold>\<open>The program.\<close> Chorus finds a recurring problem in the messages of a community, asks each
  affected contributor which facts may be shared, compiles the permitted facts into a
  \<open>ShareableCaseView\<close>, lets an agent draft a request from that view and a human approve it, sends it
  once, and follows the answer to a verified end. Two packages decide: \<open>domain\<close> (immutable entities,
  lifecycle machines, facts and their independence, mandates) and \<open>privacy\<close> (policy, mandate checks,
  transformations, canonical forms, the compiler). The package \<open>application\<close> loads aggregates, calls
  these two and stores what they return through \<open>ports\<close>, which \<open>infrastructure\<close> implements over
  DynamoDB tables by conditional writes. Of \<open>application\<close> the send of a message and the computed
  evidence statuses are modelled; of \<open>ports\<close> and \<open>infrastructure\<close> the storage boundary with its
  reference driver, the transactions, and the stored rows a send and an idempotent command rest on.

  \<^bold>\<open>The theories\<close>, in the order of their imports.

  \<^item> \<open>Prelude\<close>: the error values and the result type \<open>error + 'a\<close>, the sequencing \<open>bindE\<close>, the
    ordered checks of a \<open>__post_init__\<close> body (\<open>checks\<close>, \<open>validated\<close>), and the dictionary idioms
    \<open>fromkeys\<close>, \<open>index_by\<close>, \<open>group_all\<close>.
  \<^item> \<open>Regex\<close>, \<open>Regex_Words\<close>: the fragment of Python's \<open>re\<close> the source uses, as a matcher on end
    positions, and the words every match of an expression contains.
  \<^item> \<open>Identifiers\<close> (\<open>domain/ids.py\<close>), \<open>Timestamps\<close> (\<open>domain/time.py\<close>), \<open>Vocabulary\<close> (the
    enumerations), \<open>Entities\<close> and \<open>Executions\<close> (\<open>domain/entities.py\<close>): one record per dataclass and
    one \<open>_post_init\<close> per \<open>__post_init__\<close>, its checks in the order of the source. \<open>Executions\<close> holds
    the presence table of the send fields and its monotonicity check.
  \<^item> \<open>Versioned\<close>, \<open>Lifecycle\<close> (\<open>domain/state.py\<close>): the edge tables of cases, executions and
    commitments, the case guards, the authorization bump and the three transition functions. The
    locale \<open>versioned\<close> is the contract they share (a command is built on a version and a result is
    one version later along an edge of the table); \<open>case_machine\<close>, \<open>execution_machine\<close> and
    \<open>commitment_machine\<close> are its interpretations, and \<open>Case_Properties\<close> draws from them what holds
    over whole runs.
  \<^item> \<open>Facts\<close>, \<open>Matching\<close>, \<open>Independence\<close> (\<open>domain/facts.py\<close>): the closed union of fact values, the
    collapse of an evidence root to its origin, the augmenting-path search and the independence
    count. \<open>Matching\<close> proves that the search computes a maximum matching; \<open>Evidence_Properties\<close>
    states the consequences.
  \<^item> \<open>Mandates\<close> (\<open>domain/mandates.py\<close>), \<open>Policy\<close> (\<open>privacy/policy.py\<close>), \<open>Mandate_Policy\<close>
    (\<open>privacy/mandates.py\<close>): mandate versions, decisions, expiry and supersession; the policy/v1
    ceilings and thresholds; the proposed grants and the checks of submitted ones.
    \<open>Mandate_Properties\<close> holds what is proved of them.
  \<^item> \<open>Canonical\<close> (\<open>privacy/canonical.py\<close>), \<open>Transformations\<close> (\<open>privacy/transformations.py\<close>),
    \<open>Shareable_View\<close>: the canonical value of each hashed artifact, the safe facts and the versioned
    rules that make them, and the view the compiler returns.
  \<^item> \<open>Compiler\<close>, \<open>Compiler_Output\<close> (\<open>privacy/compiler.py\<close>): the 22 gates of
    \<open>PrivacyCompiler.compile\<close> over an environment and a state record that hold the local variables
    of the method, and the transformation, snapshot, view, output scan and result. In
    \<open>Compiler_Gates\<close> the locale \<open>audited_gate\<close> (a step writes exactly one audit entry, of its own
    gate) and the locale \<open>narrowing_gate\<close> (a step only takes candidates away) are interpreted on
    every gate; \<open>Compiler_Properties\<close> and \<open>Compiler_Exports\<close> follow the candidates through the gates
    and the transformation; \<open>Compiler_Example\<close> is a case the compiler allows, evaluated in the
    kernel; \<open>Export_Properties\<close> states what an ALLOW and a DENY guarantee. \<open>Noninterference\<close> redacts the
    private text of a compile context, with the names in identity facts that nobody released, and shows,
    gate by gate (locale \<open>private_step\<close>, interpreted on each of the 20 before the transformation) and for
    the transformation of the vetted candidates, that the redacted compile is the same.
  \<^item> \<open>Evidence_Status\<close> (\<open>application/services/evidence_status.py\<close>): the support key of a fact, the
    computed statuses and the ladder that only lowers them; \<open>Status_Properties\<close> says when a fact is
    corroborated.
  \<^item> \<open>Send_Authority\<close> (\<open>application/services/send_authorization.py\<close>, \<open>action_authorization.py\<close>, the
    fence of \<open>infrastructure/dynamodb/core.py\<close>): every denial, the expiry of the fence, its acquisition,
    replay and release, \<open>authorize\<close>. \<open>Send_Action\<close> (\<open>application/commands/send_action.py\<close>): the replay
    table, the local verification, the claim and the rows of the outcomes.
  \<^item> \<open>Send_Protocol\<close>: any number of runs of \<open>SendAction.execute\<close> on one case, interleaved at every
    await with the clock, the mandate decisions, the Monitor, the lifecycle commands and the
    reconciliation; \<open>advance\<close> is one move and \<open>reachable\<close> their closure. \<open>Send_Safety\<close> writes the moves of
    a worker as a relation on phases and \<open>Send_Invariants\<close> proves the invariants \<open>send_inv\<close> of the
    reachable states over it. \<open>Send_Epoch\<close>: which moves change the authorization epoch of the case under a
    live fence. \<open>Send_Solo\<close>: the run of a worker that nobody disturbs, whose authorization is the sequential
    \<open>authorize\<close>. \<open>Send_Example\<close> holds runs evaluated in the kernel; \<open>Send_Properties\<close> states at most one
    call of the mail service, the authority at the moment of the call, the one command the fence does not
    order, the window of the fence, the whole of an undisturbed send, and that no write of a row is lost.
  \<^item> \<open>Calendar\<close> (\<open>parse_utc\<close>): the canonical text of an instant read back through the Gregorian calendar.
  \<^item> \<open>Storage\<close> (\<open>ports/storage.py\<close>, \<open>infrastructure/local/memory.py\<close>,
    \<open>infrastructure/dynamodb/demo_mutation.py\<close>): stored values, conditions, operations and queries, the
    participants added to writes of the demo namespace and the reference driver. \<open>Storage_Laws\<close>: the
    ways a transaction can go, the invariant \<open>memory_ok\<close>, paged queries
    (\<open>partition_item_sort_keys\<close> of \<open>demo_reset_store.py\<close>), the reset lock.
  \<^item> \<open>Keys\<close> (\<open>keys.py\<close>), \<open>Codec\<close> (\<open>codec.py\<close>), \<open>Codec_Fence\<close>, \<open>Codec_Idempotency\<close>: the key grammar, the
    attribute reader that fails on any attribute it was not asked for, and the stored forms of the send
    fence and of the idempotency record. A reading is a state-passing computation on the reader; the
    collection \<open>reads\<close> says when one returns.
  \<^item> \<open>Transaction_Plan\<close> (\<open>ports/unit_of_work.py\<close>), \<open>Unit_of_Work\<close>
    (\<open>infrastructure/dynamodb/unit_of_work.py\<close>): the validation of a plan, the material of its request
    token, and the commit over a network.
  \<^item> \<open>Repositories\<close> (\<open>guards.py\<close>, \<open>idempotency.py\<close>, the fence operations of \<open>core.py\<close>): written over any
    \<open>storage_driver\<close>. The locale \<open>conditional_store\<close> of \<open>Repository_Laws\<close> is what they ask of a driver
    (a write is applied exactly when its condition holds, a refused one changes nothing); the reference
    driver is its interpretation \<open>mem\<close>. There the fence operations on rows are shown to refine the ones
    on fences that \<open>Send_Protocol\<close> uses. \<open>Storage_Example\<close> and \<open>Storage_Properties\<close> close the part.

  \<^bold>\<open>Conventions.\<close> Every raise is a value of \<open>error\<close> and every function that may raise returns a
  result. Texts are ASCII, on which the NFC normalization of the source is the identity. A UUID is
  its number, a nominal identifier carries the tag of its class, a datetime is its local reading and
  its UTC offset in microseconds, compared by instant as Python does. SHA-256 of an RFC 8785 text
  (a third-party package) and \<open>uuid5\<close> are parameters of the definitions that use them; the source of
  new identifiers is a function of a counter. The overflow of a datetime past the year 9999 is not
  modelled. Repository reads are arguments of the domain and privacy functions. The hexadecimal
  SHA-256 of the standard library is the argument \<open>sha\<close>; a dictionary is an association list in
  insertion order. The integer part of a timestamp is exact (\<open>idempotency_expiry\<close>): the source goes
  through a float, which has the same integer part for instants within \<open>2 ^ 33\<close> seconds of the epoch.

  \<^bold>\<open>Assumptions of the send protocol.\<close> All parties read one clock that never goes back. A staged write
  may land at any later moment at which its conditions hold, once, and its sender may be answered
  anything; so nothing is assumed of the commits. Views, proposals and approvals are immutable rows and
  belong to the environment; the rendering is an argument. Distinct attempts have distinct claim owners
  (\<open>distinct_owners\<close>) and only the entries of a view have the digest of its authority
  (\<open>authority_binding\<close>): both are collision freedom of SHA-256 on the values of the run. The runs start
  where no worker has moved, no call was made and no fence is held, at rows their constructors accept,
  stored mandates under their own keys and views compiled from stored versions (\<open>initial\<close>).

  \<^bold>\<open>Assumptions of the unit of work.\<close> A network may deliver a request, refuse it, lose it or lose its
  answer, may fail a read of the proof, and a lost first request may still arrive before the second
  one. The other parties do anything between two accesses that leaves a proof row a proof row and does
  not log the plan's token without its proof row (\<open>env_keeps\<close>, \<open>log_ok\<close>): idempotency records only advance
  and are kept longer than a command runs. A plan is validated and the row it writes at the key of its
  proof reads as that proof (\<open>plan_ok\<close>); \<open>staged_record_proves\<close> and \<open>staged_completion_proves\<close> show that the
  records the idempotency repository stages do.

  \<^bold>\<open>Bounds and fuel.\<close> The recursion of the matching runs on fuel equal to the number of offered
  sources; \<open>independence_ends\<close> shows it is never used up. The walk to the origin of an evidence root
  is a function with the number of unseen roots as its measure. The regular-expression matcher
  iterates a star until no end position is new. A transaction has at most 100
  operations, a token is live for ten minutes, and a reset pages a partition at most 200 times, after
  which it raises (\<open>reset_enumerates_partition\<close> says when). The commit retries once.

  \<^bold>\<open>Not modelled.\<close> The wire driver of DynamoDB with its rendering of conditions and its mapping of
  service errors, and the adapters of SES, S3, EventBridge and the agent runtimes, call services whose
  code is not in the repository. The stored forms and repositories of the other entities use the same
  reader, envelope and staged writes over their own fields. The other command handlers under
  \<open>application/commands\<close> are sequences of repository calls around the modelled decisions, the Monitor
  and the investigation plan from the output of an agent, and \<open>contracts\<close> are declarations for a
  third-party validation package. \<open>composition\<close> and \<open>settings\<close> are wiring. Log lines and the content of
  audit events are left out.
\<close>

end
